(* ===== verification/Prelude.thy ===== *)
theory Prelude
  imports Main "HOL-Library.Word" "HOL-Library.AList"
begin

text \<open>
  Shared vocabulary of the development.

  \<^item> machine integers and byte strings, named as the Rust sources name them;
  \<^item> \<open>res\<close>, the outcome of a Rust function: \<open>Ok\<close> and \<open>Err\<close> are the two
    constructors of \<^verbatim>\<open>Result\<close>, \<open>Panic\<close> is an unwinding thread (\<^verbatim>\<open>unwrap\<close> on
    \<^verbatim>\<open>None\<close>, \<^verbatim>\<open>unimplemented!\<close>), and \<open>OutOfFuel\<close> is an exhausted recursion
    budget, the model's value for a call that has not returned yet;
  \<^item> the combinators of \<^verbatim>\<open>Result\<close> the sources use (\<^verbatim>\<open>?\<close>, \<^verbatim>\<open>map\<close>, \<^verbatim>\<open>map_err\<close>,
    \<^verbatim>\<open>ok_or\<close>, \<^verbatim>\<open>collect\<close>) and \<^verbatim>\<open>for\<close> loops over a fallible body;
  \<^item> \<open>hashmap\<close>, a \<^verbatim>\<open>std::collections::HashMap\<close>, as an association list: its order
    stands for the unspecified iteration order of the map;
  \<^item> the generic lemmas on these that every component uses.
\<close>

named_theorems res_intro \<open>introduction rules for outcomes\<close>
named_theorems res_dest \<open>inversion of a successful combinator\<close>
named_theorems hashmap_simps \<open>look-ups in maps built by the operations of this theory\<close>

section \<open>Machine integers, bytes and strings\<close>

type_synonym u8 = "8 word"
type_synonym u16 = "16 word"
type_synonym u32 = "32 word"
type_synonym u64 = "64 word"
type_synonym u128 = "128 word"
type_synonym bytes = "u8 list"

text \<open>\<^verbatim>\<open>str::as_bytes\<close>: a Rust string is its UTF-8 bytes, a HOL \<open>char\<close> is one byte.\<close>

definition as_bytes :: "string \<Rightarrow> bytes" where
  "as_bytes s = map of_char s"

text \<open>\<^verbatim>\<open>Display\<close> of the integers: decimal digits, a minus sign before a negative value.\<close>

fun show_nat :: "nat \<Rightarrow> string" where
  "show_nat n =
     (if n < 10 then [''0123456789'' ! n] else show_nat (n div 10) @ [''0123456789'' ! (n mod 10)])"

definition show_int :: "int \<Rightarrow> string" where
  "show_int i = (if i < 0 then CHR ''-'' # show_nat (nat (- i)) else show_nat (nat i))"

declare show_nat.simps [simp del]

section \<open>Outcomes\<close>

datatype ('e, 'a) res = Ok 'a | Err 'e | Panic | OutOfFuel

text \<open>The \<^verbatim>\<open>?\<close> operator: go on with the value, leave with anything else.\<close>

primrec and_then :: "('e, 'a) res \<Rightarrow> ('a \<Rightarrow> ('e, 'b) res) \<Rightarrow> ('e, 'b) res" where
  "and_then (Ok x) f = f x"
| "and_then (Err e) f = Err e"
| "and_then Panic f = Panic"
| "and_then OutOfFuel f = OutOfFuel"

definition map_ok :: "('a \<Rightarrow> 'b) \<Rightarrow> ('e, 'a) res \<Rightarrow> ('e, 'b) res" where
  "map_ok f r = and_then r (\<lambda>x. Ok (f x))"

primrec map_err :: "('e \<Rightarrow> 'f) \<Rightarrow> ('e, 'a) res \<Rightarrow> ('f, 'a) res" where
  "map_err f (Ok x) = Ok x"
| "map_err f (Err e) = Err (f e)"
| "map_err f Panic = Panic"
| "map_err f OutOfFuel = OutOfFuel"

definition ok_or :: "'a option \<Rightarrow> 'e \<Rightarrow> ('e, 'a) res" where
  "ok_or x e = (case x of None \<Rightarrow> Err e | Some y \<Rightarrow> Ok y)"

text \<open>\<^verbatim>\<open>Option::unwrap\<close> and \<^verbatim>\<open>Result::unwrap\<close> panic where there is no value.\<close>

definition unwrap :: "'a option \<Rightarrow> ('e, 'a) res" where
  "unwrap x = (case x of None \<Rightarrow> Panic | Some y \<Rightarrow> Ok y)"

primrec unwrap_res :: "('e, 'a) res \<Rightarrow> ('f, 'a) res" where
  "unwrap_res (Ok x) = Ok x"
| "unwrap_res (Err e) = Panic"
| "unwrap_res Panic = Panic"
| "unwrap_res OutOfFuel = OutOfFuel"

text \<open>
  A function of another crate is a parameter of the model and returns a sum: it returns
  an error or a value.
\<close>

primrec lift :: "'e + 'a \<Rightarrow> ('e, 'a) res" where
  "lift (Inl e) = Err e"
| "lift (Inr x) = Ok x"

primrec to_option :: "('e, 'a) res \<Rightarrow> 'a option" where
  "to_option (Ok x) = Some x"
| "to_option (Err e) = None"
| "to_option Panic = None"
| "to_option OutOfFuel = None"

text \<open>\<^verbatim>\<open>iter().map(f).collect::<Result<Vec<_>, _>>()\<close>: the first failure is the result.\<close>

primrec traverse :: "('a \<Rightarrow> ('e, 'b) res) \<Rightarrow> 'a list \<Rightarrow> ('e, 'b list) res" where
  "traverse f [] = Ok []"
| "traverse f (x # xs) =
     and_then (f x) (\<lambda>y. and_then (traverse f xs) (\<lambda>ys. Ok (y # ys)))"

text \<open>Continue with the value and the state, or leave with the state as it is.\<close>

definition st_then ::
    "('e, 'a) res \<times> 's \<Rightarrow> ('a \<Rightarrow> 's \<Rightarrow> ('e, 'b) res \<times> 's) \<Rightarrow> ('e, 'b) res \<times> 's" where
  "st_then r f =
     (case r of
        (Ok x, s) \<Rightarrow> f x s
      | (Err e, s) \<Rightarrow> (Err e, s)
      | (Panic, s) \<Rightarrow> (Panic, s)
      | (OutOfFuel, s) \<Rightarrow> (OutOfFuel, s))"

text \<open>\<^verbatim>\<open>for x in xs { f(x)? }\<close> over a state, and \<^verbatim>\<open>for _ in 0..n { f()? }\<close>.\<close>

primrec for_each :: "('x \<Rightarrow> 's \<Rightarrow> ('e, 's) res) \<Rightarrow> 'x list \<Rightarrow> 's \<Rightarrow> ('e, 's) res" where
  "for_each f [] s = Ok s"
| "for_each f (x # xs) s = and_then (f x s) (for_each f xs)"

primrec for_n :: "('s \<Rightarrow> ('e, 's) res) \<Rightarrow> nat \<Rightarrow> 's \<Rightarrow> ('e, 's) res" where
  "for_n f 0 s = Ok s"
| "for_n f (Suc n) s = and_then (f s) (for_n f n)"

lemma st_then_simps [simp]:
  "st_then (Ok x, s) f = f x s" "st_then (Err e, s) f = (Err e, s)"
  "st_then (Panic, s) f = (Panic, s)" "st_then (OutOfFuel, s) f = (OutOfFuel, s)"
  by (simp_all add: st_then_def)

lemma and_then_Ok_iff [simp]: "and_then r f = Ok y \<longleftrightarrow> (\<exists>x. r = Ok x \<and> f x = Ok y)"
  by (cases r) auto

lemma and_then_OkE [res_dest]:
  assumes "and_then r f = Ok y"
  obtains x where "r = Ok x" and "f x = Ok y"
  using assms by (cases r) auto

lemma and_then_OutOfFuel_iff:
  "and_then r f = OutOfFuel \<longleftrightarrow> r = OutOfFuel \<or> (\<exists>x. r = Ok x \<and> f x = OutOfFuel)"
  by (cases r) auto

lemma and_then_Panic_iff:
  "and_then r f = Panic \<longleftrightarrow> r = Panic \<or> (\<exists>x. r = Ok x \<and> f x = Panic)"
  by (cases r) auto

lemma and_then_Err_iff:
  "and_then r f = Err e \<longleftrightarrow> r = Err e \<or> (\<exists>x. r = Ok x \<and> f x = Err e)"
  by (cases r) auto

lemma and_then_assoc: "and_then (and_then r f) g = and_then r (\<lambda>x. and_then (f x) g)"
  by (cases r) auto

lemma and_then_cong [fundef_cong]:
  "r = r' \<Longrightarrow> (\<And>x. r' = Ok x \<Longrightarrow> f x = g x) \<Longrightarrow> and_then r f = and_then r' g"
  by (cases r') auto

lemma map_ok_simps [simp]:
  "map_ok f (Ok x) = Ok (f x)" "map_ok f (Err e) = Err e"
  "map_ok f Panic = Panic" "map_ok f OutOfFuel = OutOfFuel"
  by (simp_all add: map_ok_def)

lemma map_ok_Ok_iff [simp]: "map_ok f r = Ok y \<longleftrightarrow> (\<exists>x. r = Ok x \<and> y = f x)"
  by (cases r) auto

lemma map_err_Ok_iff [simp]: "map_err f r = Ok x \<longleftrightarrow> r = Ok x"
  by (cases r) auto

lemma map_err_OutOfFuel_iff [simp]: "map_err f r = OutOfFuel \<longleftrightarrow> r = OutOfFuel"
  by (cases r) auto

lemma map_err_Panic_iff [simp]: "map_err f r = Panic \<longleftrightarrow> r = Panic"
  by (cases r) auto

lemma ok_or_simps [simp]: "ok_or None e = Err e" "ok_or (Some x) e = Ok x"
  by (simp_all add: ok_or_def)

lemma ok_or_Ok_iff [simp]: "ok_or v e = Ok x \<longleftrightarrow> v = Some x"
  by (cases v) auto

lemma ok_or_returns [simp]: "ok_or v e \<noteq> OutOfFuel" "ok_or v e \<noteq> Panic"
  by (cases v; simp)+

lemma unwrap_simps [simp]: "unwrap None = Panic" "unwrap (Some x) = Ok x"
  by (simp_all add: unwrap_def)

lemma unwrap_Ok_iff [simp]: "unwrap v = Ok x \<longleftrightarrow> v = Some x"
  by (cases v) auto

lemma unwrap_res_Ok_iff [simp]: "unwrap_res r = Ok x \<longleftrightarrow> r = Ok x"
  by (cases r) auto

lemma lift_Ok_iff [simp]: "lift s = Ok x \<longleftrightarrow> s = Inr x"
  by (cases s) auto

lemma lift_returns [simp]: "lift s \<noteq> OutOfFuel" "lift s \<noteq> Panic"
  by (cases s; simp)+

lemma traverse_Ok_iff:
  "traverse f xs = Ok ys \<longleftrightarrow> list_all2 (\<lambda>x y. f x = Ok y) xs ys"
  by (induction xs arbitrary: ys) (auto simp: list_all2_Cons1)

lemma traverse_Ok_mem: "traverse f xs = Ok ys \<Longrightarrow> y \<in> set ys \<Longrightarrow> \<exists>x \<in> set xs. f x = Ok y"
  by (induction xs arbitrary: ys) auto

lemma traverse_Ok_covers: "traverse f xs = Ok ys \<Longrightarrow> x \<in> set xs \<Longrightarrow> \<exists>y \<in> set ys. f x = Ok y"
  by (induction xs arbitrary: ys) auto

lemma traverse_Ok_map: "(\<And>x. x \<in> set xs \<Longrightarrow> f x = Ok (g x)) \<Longrightarrow> traverse f xs = Ok (map g xs)"
  by (induction xs) auto

lemma for_n_for_each: "for_n (f x) n = for_each f (replicate n x)"
  by (induction n) (auto simp: fun_eq_iff intro: and_then_cong)

lemma for_each_append:
  "for_each f (xs @ ys) s = and_then (for_each f xs s) (for_each f ys)"
  by (induction xs arbitrary: s) (auto simp: and_then_assoc intro: and_then_cong)

section \<open>Hash maps\<close>

type_synonym ('k, 'v) hashmap = "('k \<times> 'v) list"

definition hm_get :: "('k, 'v) hashmap \<Rightarrow> 'k \<Rightarrow> 'v option" where
  "hm_get m k = map_of m k"

definition hm_insert :: "'k \<Rightarrow> 'v \<Rightarrow> ('k, 'v) hashmap \<Rightarrow> ('k, 'v) hashmap" where
  "hm_insert k v m = AList.update k v m"

text \<open>\<^verbatim>\<open>collect()\<close> into a map inserts the pairs in order, so the last pair of a key stays.\<close>

definition hm_collect :: "('k \<times> 'v) list \<Rightarrow> ('k, 'v) hashmap" where
  "hm_collect ps = fold (\<lambda>(k, v) m. hm_insert k v m) ps []"

definition hm_wf :: "('k, 'v) hashmap \<Rightarrow> bool" where
  "hm_wf m \<longleftrightarrow> distinct (map fst m)"

lemma hm_get_empty [hashmap_simps]: "hm_get [] k = None"
  by (simp add: hm_get_def)

lemma hm_get_insert [hashmap_simps]:
  "hm_get (hm_insert k v m) k' = (if k' = k then Some v else hm_get m k')"
  by (simp add: hm_get_def hm_insert_def update_conv')

lemma hm_wf_insert: "hm_wf m \<Longrightarrow> hm_wf (hm_insert k v m)"
  by (simp add: hm_wf_def hm_insert_def distinct_update)

lemma hm_get_fold_insert:
  "hm_get (fold (\<lambda>(k, v) m. hm_insert k v m) ps m) k =
     (case map_of (rev ps) k of None \<Rightarrow> hm_get m k | Some v \<Rightarrow> Some v)"
  by (induction ps arbitrary: m)
    (auto simp: hashmap_simps map_add_def split: option.splits)

lemma hm_get_collect [hashmap_simps]: "hm_get (hm_collect ps) k = map_of (rev ps) k"
  by (simp add: hm_collect_def hm_get_fold_insert hm_get_empty split: option.splits)

lemma hm_wf_collect: "hm_wf (hm_collect ps)"
proof -
  have "hm_wf m \<Longrightarrow> hm_wf (fold (\<lambda>(k, v) m. hm_insert k v m) ps m)" for m :: "('a, 'b) hashmap"
    by (induction ps arbitrary: m) (auto simp: hm_wf_insert)
  then show ?thesis by (simp add: hm_collect_def hm_wf_def)
qed

lemma map_of_rev_distinct: "distinct (map fst ps) \<Longrightarrow> map_of (rev ps) = map_of ps"
  by (rule map_of_inject_set [THEN iffD2]) (auto simp: rev_map [symmetric])

lemma hm_get_collect_distinct:
  "distinct (map fst ps) \<Longrightarrow> (k, v) \<in> set ps \<Longrightarrow> hm_get (hm_collect ps) k = Some v"
  by (simp add: hashmap_simps map_of_rev_distinct)

lemma hm_get_collect_Some: "hm_get (hm_collect ps) k = Some v \<Longrightarrow> (k, v) \<in> set ps"
  by (auto simp: hashmap_simps dest: map_of_SomeD)

section \<open>Strings as bytes\<close>

lemma of_char_u8_inj: "(of_char c :: u8) = of_char d \<longleftrightarrow> c = d"
proof
  assume "(of_char c :: u8) = of_char d"
  then have "unat (of_nat (of_char c) :: u8) = unat (of_nat (of_char d) :: u8)"
    by (simp only: of_nat_of_char)
  then have "(of_char c :: nat) mod 256 = of_char d mod 256"
    by (simp only: unat_of_nat) simp
  then show "c = d" by simp
qed simp

lemma as_bytes_inject [simp]: "as_bytes s = as_bytes t \<longleftrightarrow> s = t"
  by (simp add: as_bytes_def inj_map_eq_map inj_def of_char_u8_inj)

lemma length_as_bytes [simp]: "length (as_bytes s) = length s"
  by (simp add: as_bytes_def)

end
