(* ===== verification/Scale_Codec.thy ===== *)
theory Scale_Codec
  imports Prelude
begin

text \<open>
  The interface to \<^verbatim>\<open>parity-scale-codec\<close>, a crate the repository only calls.

  A \<open>codec\<close> is the pair of functions \<^verbatim>\<open>Decode::decode\<close> and \<^verbatim>\<open>Encode::encode\<close> of one
  type: decoding takes the remaining input and returns the value with the input after
  it, or an error. The record \<open>scale\<close> collects the codecs of the types the sources
  name and the two readers of \<^verbatim>\<open>Input for &[u8]\<close>; every definition that decodes takes
  it as an argument. Tuples and derived structs are encoded field after field
  (\<open>pair_codec\<close>, \<open>wrap_codec\<close>), which is what \<^verbatim>\<open>derive(Encode, Decode)\<close> documents.

  The locales state what the sources rely on:
  \<^item> \<open>exact_codec\<close>: the format is canonical, a decoded value encodes to the bytes read;
  \<^item> \<open>roundtrip_codec\<close>: an encoded value decodes to itself and leaves the rest alone;
  \<^item> \<open>scale_laws\<close>: these laws for the codecs the type decoder uses, and the meaning of
    the two readers.
  The theory \<open>Scale_Reference\<close> interprets them on the SCALE format itself.
\<close>

section \<open>Codecs\<close>

datatype codec_error = CodecError string

record 'a codec =
  decode :: "bytes \<Rightarrow> codec_error + ('a \<times> bytes)"
  encode :: "'a \<Rightarrow> bytes"

type_synonym hash = bytes

text \<open>
  \<^verbatim>\<open>sp_runtime::DispatchError\<close>, with the constructors of the match in
  \<^verbatim>\<open>RuntimeError::from_dispatch\<close>. The payloads of the last three are ignored there; they
  are kept as the index byte of the inner enum.
\<close>

datatype dispatch_error =
    Other string
  | CannotLookup
  | BadOrigin
  | Module u8 bytes "string option"
  | ConsumerRemaining
  | NoProviders
  | TooManyConsumers
  | Token u8
  | Arithmetic u8
  | Transactional u8

record scale =
  c_bool :: "bool codec"
  c_str :: "string codec"
  c_u8 :: "u8 codec"
  c_u16 :: "u16 codec"
  c_u32 :: "u32 codec"
  c_u64 :: "u64 codec"
  c_u128 :: "u128 codec"
  c_i8 :: "u8 codec"
  c_i16 :: "u16 codec"
  c_i32 :: "u32 codec"
  c_i64 :: "u64 codec"
  c_i128 :: "u128 codec"
  c_compact_u8 :: "u8 codec"
  c_compact_u16 :: "u16 codec"
  c_compact_u32 :: "u32 codec"
  c_compact_u64 :: "u64 codec"
  c_compact_u128 :: "u128 codec"
  c_hash_vec :: "hash list codec"
  c_unit_vec :: "nat codec"
  c_dispatch :: "dispatch_error codec"
  read_byte :: "bytes \<Rightarrow> codec_error + (u8 \<times> bytes)"
  read_buf :: "nat \<Rightarrow> bytes \<Rightarrow> codec_error + (bytes \<times> bytes)"
  no_variant :: "string \<Rightarrow> codec_error"

text \<open>Tuples, and a struct around its only tuple of fields.\<close>

definition pair_codec :: "'a codec \<Rightarrow> 'b codec \<Rightarrow> ('a \<times> 'b) codec" where
  "pair_codec a b =
     \<lparr>decode = (\<lambda>bs. case decode a bs of Inl e \<Rightarrow> Inl e | Inr (x, r) \<Rightarrow>
        (case decode b r of Inl e \<Rightarrow> Inl e | Inr (y, r') \<Rightarrow> Inr ((x, y), r'))),
      encode = (\<lambda>(x, y). encode a x @ encode b y)\<rparr>"

definition wrap_codec :: "('a \<Rightarrow> 'b) \<Rightarrow> ('b \<Rightarrow> 'a) \<Rightarrow> 'a codec \<Rightarrow> 'b codec" where
  "wrap_codec mk un c =
     \<lparr>decode = (\<lambda>bs. map_sum id (map_prod mk id) (decode c bs)),
      encode = (\<lambda>x. encode c (un x))\<rparr>"

section \<open>Laws\<close>

locale exact_codec =
  fixes c :: "'a codec"
  assumes decode_exact: "decode c bs = Inr (x, r) \<Longrightarrow> bs = encode c x @ r"
begin

lemma decode_shorter: "decode c bs = Inr (x, r) \<Longrightarrow> length r \<le> length bs"
  using decode_exact by fastforce

lemma decode_consumed: "decode c bs = Inr (x, r) \<Longrightarrow> encode c x = take (length bs - length r) bs"
  using decode_exact [of bs x r] by simp

end

locale roundtrip_codec =
  fixes c :: "'a codec" and ok :: "'a \<Rightarrow> bool"
  assumes decode_encode: "ok x \<Longrightarrow> decode c (encode c x @ r) = Inr (x, r)"
begin

lemma decode_encode_end: "ok x \<Longrightarrow> decode c (encode c x) = Inr (x, [])"
  using decode_encode [of x "[]"] by simp

lemma encode_prefix_free:
  assumes "ok x" and "ok y" and "encode c x @ r = encode c y @ s"
  shows "x = y \<and> r = s"
proof -
  have "Inr (x, r) = (Inr (y, s) :: codec_error + ('a \<times> bytes))"
    by (metis decode_encode assms)
  then show ?thesis by simp
qed

lemma encode_inject: "ok x \<Longrightarrow> ok y \<Longrightarrow> encode c x = encode c y \<Longrightarrow> x = y"
  using encode_prefix_free [of x y "[]" "[]"] by simp

end

text \<open>A codec both exact and total on the values the program builds.\<close>

locale lawful_codec = exact_codec c + roundtrip_codec c ok
  for c :: "'a codec" and ok :: "'a \<Rightarrow> bool"

lemma roundtrip_pair:
  assumes "roundtrip_codec a oka" and "roundtrip_codec b okb"
  shows "roundtrip_codec (pair_codec a b) (\<lambda>(x, y). oka x \<and> okb y)"
  by unfold_locales
    (auto simp: pair_codec_def roundtrip_codec.decode_encode [OF assms(1)]
      roundtrip_codec.decode_encode [OF assms(2)])

lemma exact_pair:
  assumes "exact_codec a" and "exact_codec b"
  shows "exact_codec (pair_codec a b)"
  by unfold_locales
    (auto simp: pair_codec_def split: sum.splits
      dest!: exact_codec.decode_exact [OF assms(1)] exact_codec.decode_exact [OF assms(2)])

lemma lawful_pair:
  assumes "lawful_codec a oka" and "lawful_codec b okb"
  shows "lawful_codec (pair_codec a b) (\<lambda>(x, y). oka x \<and> okb y)"
  using assms by (simp add: lawful_codec_def exact_pair roundtrip_pair)

lemma roundtrip_wrap:
  assumes "roundtrip_codec c ok" and "\<And>x. mk (un x) = x"
  shows "roundtrip_codec (wrap_codec mk un c) (\<lambda>x. ok (un x))"
  by unfold_locales
    (simp add: wrap_codec_def roundtrip_codec.decode_encode [OF assms(1)] assms(2))

lemma exact_wrap:
  assumes "exact_codec c" and "\<And>x. un (mk x) = x"
  shows "exact_codec (wrap_codec mk un c)"
proof
  fix bs x r
  assume "decode (wrap_codec mk un c) bs = Inr (x, r)"
  then obtain y where "decode c bs = Inr (y, r)" and "x = mk y"
    by (cases "decode c bs") (auto simp: wrap_codec_def)
  then show "bs = encode (wrap_codec mk un c) x @ r"
    using exact_codec.decode_exact [OF assms(1)] assms(2) by (simp add: wrap_codec_def)
qed

lemma lawful_wrap:
  assumes "lawful_codec c ok" and "\<And>x. mk (un x) = x" and "\<And>x. un (mk x) = x"
  shows "lawful_codec (wrap_codec mk un c) (\<lambda>x. ok (un x))"
  using assms by (simp add: lawful_codec_def exact_wrap roundtrip_wrap)

text \<open>
  What the type decoder, the event decoder and the extrinsic codec use of the crate.
\<close>

locale scale_laws =
  fixes S :: scale
  assumes bool_exact: "exact_codec (c_bool S)"
    and str_exact: "exact_codec (c_str S)"
    and u8_lawful: "lawful_codec (c_u8 S) (\<lambda>_. True)"
    and u16_exact: "exact_codec (c_u16 S)"
    and u32_lawful: "lawful_codec (c_u32 S) (\<lambda>_. True)"
    and u64_exact: "exact_codec (c_u64 S)"
    and u128_lawful: "lawful_codec (c_u128 S) (\<lambda>_. True)"
    and i8_exact: "exact_codec (c_i8 S)"
    and i16_exact: "exact_codec (c_i16 S)"
    and i32_exact: "exact_codec (c_i32 S)"
    and i64_exact: "exact_codec (c_i64 S)"
    and i128_exact: "exact_codec (c_i128 S)"
    and compact_u8_exact: "exact_codec (c_compact_u8 S)"
    and compact_u16_exact: "exact_codec (c_compact_u16 S)"
    and compact_u32_lawful: "lawful_codec (c_compact_u32 S) (\<lambda>_. True)"
    and compact_u64_exact: "exact_codec (c_compact_u64 S)"
    and compact_u128_lawful: "lawful_codec (c_compact_u128 S) (\<lambda>_. True)"
    and hash_vec_lawful:
      "lawful_codec (c_hash_vec S) (\<lambda>hs. length hs < 2 ^ 32 \<and> (\<forall>h \<in> set hs. length h = 32))"
    and unit_vec_lawful: "lawful_codec (c_unit_vec S) (\<lambda>n. n < 2 ^ 32)"
    and dispatch_exact: "exact_codec (c_dispatch S)"
    and u8_nonempty: "encode (c_u8 S) x \<noteq> []"
    and compact_u32_nonempty: "encode (c_compact_u32 S) n \<noteq> []"
    and read_byte_Cons: "read_byte S (b # bs) = Inr (b, bs)"
    and read_byte_Nil: "\<exists>e. read_byte S [] = Inl e"
    and read_buf_enough: "k \<le> length bs \<Longrightarrow> read_buf S k bs = Inr (take k bs, drop k bs)"
    and read_buf_short: "length bs < k \<Longrightarrow> \<exists>e. read_buf S k bs = Inl e"
begin

lemma read_byte_Inr: "read_byte S bs = Inr (b, r) \<Longrightarrow> bs = b # r"
  using read_byte_Nil read_byte_Cons by (cases bs) auto

lemma read_buf_Inr:
  assumes "read_buf S k bs = Inr (x, r)"
  shows "bs = x @ r \<and> length x = k"
proof (cases "k \<le> length bs")
  case True
  with assms read_buf_enough [OF True] show ?thesis by auto
next
  case False
  with assms read_buf_short [of bs k] show ?thesis by auto
qed

lemma read_buf_append: "length x = k \<Longrightarrow> read_buf S k (x @ r) = Inr (x, r)"
  by (simp add: read_buf_enough)

lemmas scale_exact =
  bool_exact str_exact u16_exact u64_exact i8_exact i16_exact i32_exact i64_exact i128_exact
  compact_u8_exact compact_u16_exact compact_u64_exact dispatch_exact
  u8_lawful [THEN lawful_codec.axioms(1)] u32_lawful [THEN lawful_codec.axioms(1)]
  u128_lawful [THEN lawful_codec.axioms(1)] compact_u32_lawful [THEN lawful_codec.axioms(1)]
  compact_u128_lawful [THEN lawful_codec.axioms(1)] hash_vec_lawful [THEN lawful_codec.axioms(1)]
  unit_vec_lawful [THEN lawful_codec.axioms(1)]

lemmas scale_roundtrip =
  u8_lawful [THEN lawful_codec.axioms(2)] u32_lawful [THEN lawful_codec.axioms(2)]
  u128_lawful [THEN lawful_codec.axioms(2)] compact_u32_lawful [THEN lawful_codec.axioms(2)]
  compact_u128_lawful [THEN lawful_codec.axioms(2)] hash_vec_lawful [THEN lawful_codec.axioms(2)]
  unit_vec_lawful [THEN lawful_codec.axioms(2)]

end

end
