(* ===== verification/Node_Types.thy ===== *)
theory Node_Types
  imports Scale_Codec
begin

text \<open>
  The data of the crate \<^verbatim>\<open>node-api\<close>: the errors of its modules, as the sources declare
  them, and the part of the runtime metadata of \<^verbatim>\<open>frame-metadata\<close> and \<^verbatim>\<open>scale-info\<close> that
  the sources read. The type registry of \<^verbatim>\<open>scale-info\<close> is used through \<^verbatim>\<open>resolve\<close>
  only, so it is a function from type ids.
\<close>

section \<open>The type registry (scale-info)\<close>

datatype type_def_primitive =
    P_Bool | P_Char | P_Str
  | P_U8 | P_U16 | P_U32 | P_U64 | P_U128 | P_U256
  | P_I8 | P_I16 | P_I32 | P_I64 | P_I128 | P_I256

text \<open>A field is used through its type id only.\<close>

type_synonym field = u32

record variant =
  v_name :: string
  v_fields :: "field list"
  v_index :: u8
  v_docs :: "string list"

datatype type_def =
    Composite "field list"
  | Variant "variant list"
  | Sequence u32
  | Array u32 u32
  | Tuple "u32 list"
  | Primitive type_def_primitive
  | Compact u32
  | BitSequence

record type_info =
  ty_ident :: "string option"
  ty_def :: type_def

type_synonym registry = "u32 \<Rightarrow> type_info option"

section \<open>Runtime metadata (frame-metadata)\<close>

datatype storage_hasher =
    Blake2_128 | Blake2_256 | Blake2_128Concat | Twox128 | Twox256 | Twox64Concat | Identity

datatype storage_entry_type =
    Plain u32
  | MapEntry "storage_hasher list" u32 u32

datatype storage_entry_modifier = Optional | Default | Required

record storage_entry =
  se_name :: string
  se_modifier :: storage_entry_modifier
  se_ty :: storage_entry_type
  se_default :: bytes

record pallet_constant =
  k_name :: string
  k_ty :: u32
  k_value :: bytes

record pallet_v14 =
  p_name :: string
  p_index :: u8
  p_calls :: "u32 option"
  p_event :: "u32 option"
  p_error :: "u32 option"
  p_storage :: "storage_entry list option"
  p_constants :: "pallet_constant list"

record metadata_v14 =
  types :: registry
  v14_pallets :: "pallet_v14 list"

datatype runtime_metadata = V14 metadata_v14 | OtherVersion u8

text \<open>\<^verbatim>\<open>RuntimeMetadataPrefixed(u32, RuntimeMetadata)\<close>.\<close>

type_synonym runtime_metadata_prefixed = "u32 \<times> runtime_metadata"

section \<open>Errors (metadata.rs, decoder.rs, error.rs)\<close>

datatype metadata_error =
    PalletNotFound string
  | PalletIndexNotFound u8
  | CallNotFound string
  | CallableNotFound u8 u8
  | EventNotFound u8 u8
  | ErrorNotFound u8 u8
  | StorageNotFound string
  | StorageTypeError
  | MapValueTypeError
  | DefaultError codec_error
  | ConstantValueError codec_error
  | ConstantNotFound string
  | TypeNotFound u32

datatype invalid_metadata_error =
    InvalidPrefix
  | InvalidVersion
  | MissingType u32
  | TypeDefNotVariant u32

datatype decoding_error =
    UnsupportedPrimitive type_def_primitive
  | InvalidCompactPrimitive type_def_primitive
  | InvalidCompactType string

record pallet_error =
  pe_pallet :: string
  pe_error :: string
  pe_description :: "string list"

datatype runtime_error =
    Module pallet_error
  | ConsumerRemaining
  | TooManyConsumers
  | NoProviders
  | BadOrigin
  | CannotLookup
  | Other string

text \<open>
  The payloads that belong to other crates (\<^verbatim>\<open>std::io\<close>, \<^verbatim>\<open>serde_json\<close>, \<^verbatim>\<open>sp_core\<close>,
  \<^verbatim>\<open>sp_runtime\<close>) are kept as the text they display.
\<close>

datatype error =
    Io string
  | Codec codec_error
  | Serialization string
  | SecretString string
  | Invalid string
  | InvalidMetadata invalid_metadata_error
  | Metadata metadata_error
  | Runtime runtime_error
  | Decoding decoding_error
  | Other string

text \<open>The conversions written out in the file; a text is copied.\<close>

definition error_from_secret_string :: "string \<Rightarrow> error" where
  "error_from_secret_string e = SecretString e"

definition error_from_validity :: "string \<Rightarrow> error" where
  "error_from_validity e = Invalid e"

definition error_from_str :: "string \<Rightarrow> error" where
  "error_from_str e = error.Other e"

definition error_from_string :: "string \<Rightarrow> error" where
  "error_from_string e = error.Other e"

text \<open>\<^verbatim>\<open>?\<close> on a result of the codec crate or of the metadata module.\<close>

definition codec_try :: "codec_error + 'a \<Rightarrow> (error, 'a) res" where
  "codec_try r = map_err Codec (lift r)"

lemma codec_try_Ok_iff [simp]: "codec_try r = Ok x \<longleftrightarrow> r = Inr x"
  by (simp add: codec_try_def)

lemma codec_try_Inr [simp]: "codec_try (Inr x) = Ok x"
  by (simp add: codec_try_def)

lemma codec_try_Inl [simp]: "codec_try (Inl e) = Err (Codec e)"
  by (simp add: codec_try_def)

lemma codec_try_returns [simp]: "codec_try r \<noteq> OutOfFuel" "codec_try r \<noteq> Panic"
  by (simp_all add: codec_try_def)

end
