(* ===== verification/Storage.thy ===== *)
theory Storage
  imports Node_Types "HOL-Library.Sublist"
begin

text \<open>
  Model of \<^verbatim>\<open>node-api/src/storage.rs\<close>: the keys under which a node stores values, map
  entries and double map entries. The hash functions of \<^verbatim>\<open>sp_core\<close> are parameters
  (record \<open>hashers\<close>); \<open>hash_sizes\<close> states the sizes their names document. A key type
  \<^verbatim>\<open>K: Encode\<close> is given by its codec.

  The lemmas show how the keys are composed (each longer key extends the key prefix the
  shorter request returns) and that the concatenating hashers lose no key.
\<close>

record hashers =
  twox_64 :: "bytes \<Rightarrow> bytes"
  twox_128 :: "bytes \<Rightarrow> bytes"
  twox_256 :: "bytes \<Rightarrow> bytes"
  blake2_128 :: "bytes \<Rightarrow> bytes"
  blake2_256 :: "bytes \<Rightarrow> bytes"

definition hash_sizes :: "hashers \<Rightarrow> bool" where
  "hash_sizes H \<longleftrightarrow>
     (\<forall>x. length (twox_64 H x) = 8 \<and> length (twox_128 H x) = 16 \<and> length (twox_256 H x) = 32 \<and>
       length (blake2_128 H x) = 16 \<and> length (blake2_256 H x) = 32)"

type_synonym storage_key = bytes

record storage_value =
  sv_module_prefix :: bytes
  sv_storage_prefix :: bytes

record storage_map =
  sm_module_prefix :: bytes
  sm_storage_prefix :: bytes
  sm_hasher :: storage_hasher

record storage_double_map =
  sd_module_prefix :: bytes
  sd_storage_prefix :: bytes
  sd_hasher :: storage_hasher
  sd_key2_hasher :: storage_hasher

section \<open>Hashing a key\<close>

definition key_hash :: "hashers \<Rightarrow> 'k codec \<Rightarrow> 'k \<Rightarrow> storage_hasher \<Rightarrow> bytes" where
  "key_hash H K key hasher =
     (let encoded_key = encode K key in
      case hasher of
        Identity \<Rightarrow> encoded_key
      | Blake2_128 \<Rightarrow> blake2_128 H encoded_key
      | Blake2_128Concat \<Rightarrow> blake2_128 H encoded_key @ encoded_key
      | Blake2_256 \<Rightarrow> blake2_256 H encoded_key
      | Twox128 \<Rightarrow> twox_128 H encoded_key
      | Twox256 \<Rightarrow> twox_256 H encoded_key
      | Twox64Concat \<Rightarrow> twox_64 H encoded_key @ encoded_key)"

section \<open>Keys of the three kinds of storage\<close>

definition storage_value_bytes :: "hashers \<Rightarrow> storage_value \<Rightarrow> storage_key" where
  "storage_value_bytes H v =
     (let bytes = twox_128 H (sv_module_prefix v);
          bytes = bytes @ twox_128 H (sv_storage_prefix v)
      in bytes)"

definition storage_map_bytes :: "hashers \<Rightarrow> 'k codec \<Rightarrow> storage_map \<Rightarrow> 'k \<Rightarrow> storage_key" where
  "storage_map_bytes H K m key =
     (let bytes = twox_128 H (sm_module_prefix m);
          bytes = bytes @ twox_128 H (sm_storage_prefix m);
          bytes = bytes @ key_hash H K key (sm_hasher m)
      in bytes)"

definition double_map_key ::
    "hashers \<Rightarrow> 'k codec \<Rightarrow> 'q codec \<Rightarrow> storage_double_map \<Rightarrow> 'k \<Rightarrow> 'q \<Rightarrow> storage_key" where
  "double_map_key H K Q m key1 key2 =
     (let bytes = twox_128 H (sd_module_prefix m);
          bytes = bytes @ twox_128 H (sd_storage_prefix m);
          bytes = bytes @ key_hash H K key1 (sd_hasher m);
          bytes = bytes @ key_hash H Q key2 (sd_key2_hasher m)
      in bytes)"

definition double_map_partial_key ::
    "hashers \<Rightarrow> 'k codec \<Rightarrow> storage_double_map \<Rightarrow> 'k \<Rightarrow> storage_key" where
  "double_map_partial_key H K m key =
     (let bytes = twox_128 H (sd_module_prefix m);
          bytes = bytes @ twox_128 H (sd_storage_prefix m);
          bytes = bytes @ key_hash H K key (sd_hasher m)
      in bytes)"

section \<open>The trait GetStorage\<close>

definition hasher_at :: "storage_hasher list \<Rightarrow> nat \<Rightarrow> (metadata_error, storage_hasher) res" where
  "hasher_at hashers i = ok_or (if i < length hashers then Some (hashers ! i) else None) StorageTypeError"

definition get_double_map ::
    "storage_entry \<Rightarrow> string \<Rightarrow> (metadata_error, storage_double_map) res" where
  "get_double_map se pallet_prefix =
     (case se_ty se of
        MapEntry hashers _ _ \<Rightarrow>
          and_then (hasher_at hashers 0) (\<lambda>hasher1.
          and_then (hasher_at hashers 1) (\<lambda>hasher2.
          Ok \<lparr>sd_module_prefix = as_bytes pallet_prefix, sd_storage_prefix = as_bytes (se_name se),
              sd_hasher = hasher1, sd_key2_hasher = hasher2\<rparr>))
      | Plain _ \<Rightarrow> Err StorageTypeError)"

definition get_map :: "storage_entry \<Rightarrow> string \<Rightarrow> (metadata_error, storage_map) res" where
  "get_map se pallet_prefix =
     (case se_ty se of
        MapEntry hashers _ _ \<Rightarrow>
          and_then (hasher_at hashers 0) (\<lambda>hasher.
          Ok \<lparr>sm_module_prefix = as_bytes pallet_prefix, sm_storage_prefix = as_bytes (se_name se),
              sm_hasher = hasher\<rparr>)
      | Plain _ \<Rightarrow> Err StorageTypeError)"

definition get_double_map_prefix ::
    "hashers \<Rightarrow> 'k codec \<Rightarrow> storage_entry \<Rightarrow> string \<Rightarrow> 'k \<Rightarrow> (metadata_error, storage_key) res" where
  "get_double_map_prefix H K se pallet_prefix key =
     (case se_ty se of
        MapEntry hashers _ _ \<Rightarrow>
          and_then (hasher_at hashers 0) (\<lambda>hasher.
          let bytes = twox_128 H (as_bytes pallet_prefix);
              bytes = bytes @ twox_128 H (as_bytes (se_name se));
              bytes = bytes @ key_hash H K key hasher
          in Ok bytes)
      | Plain _ \<Rightarrow> Err StorageTypeError)"

definition get_map_prefix ::
    "hashers \<Rightarrow> storage_entry \<Rightarrow> string \<Rightarrow> (metadata_error, storage_key) res" where
  "get_map_prefix H se pallet_prefix =
     (case se_ty se of
        MapEntry _ _ _ \<Rightarrow>
          (let bytes = twox_128 H (as_bytes pallet_prefix);
               bytes = bytes @ twox_128 H (as_bytes (se_name se))
           in Ok bytes)
      | Plain _ \<Rightarrow> Err StorageTypeError)"

definition get_value :: "storage_entry \<Rightarrow> string \<Rightarrow> (metadata_error, storage_value) res" where
  "get_value se pallet_prefix =
     (case se_ty se of
        Plain _ \<Rightarrow>
          Ok \<lparr>sv_module_prefix = as_bytes pallet_prefix, sv_storage_prefix = as_bytes (se_name se)\<rparr>
      | MapEntry _ _ _ \<Rightarrow> Err StorageTypeError)"

section \<open>Composition of keys\<close>

definition key_prefix :: "hashers \<Rightarrow> string \<Rightarrow> string \<Rightarrow> bytes" where
  "key_prefix H pallet entry = twox_128 H (as_bytes pallet) @ twox_128 H (as_bytes entry)"

definition concat_hasher :: "storage_hasher \<Rightarrow> bool" where
  "concat_hasher h \<longleftrightarrow> h = Blake2_128Concat \<or> h = Twox64Concat"

text \<open>The bytes a concatenating hasher puts before the encoded key.\<close>

definition hash_part :: "hashers \<Rightarrow> storage_hasher \<Rightarrow> bytes \<Rightarrow> bytes" where
  "hash_part H h x = (if h = Blake2_128Concat then blake2_128 H x else twox_64 H x)"

definition hash_part_size :: "storage_hasher \<Rightarrow> nat" where
  "hash_part_size h = (if h = Blake2_128Concat then 16 else 8)"

lemma length_hash_part: "hash_sizes H \<Longrightarrow> length (hash_part H h x) = hash_part_size h"
  by (simp add: hash_part_def hash_part_size_def hash_sizes_def)

lemma length_key_prefix: "hash_sizes H \<Longrightarrow> length (key_prefix H p e) = 32"
  by (simp add: key_prefix_def hash_sizes_def)

lemma key_hash_concat:
  "concat_hasher h \<Longrightarrow> key_hash H K key h = hash_part H h (encode K key) @ encode K key"
  by (auto simp: concat_hasher_def key_hash_def hash_part_def Let_def)

lemma hasher_at_Ok_iff: "hasher_at hs i = Ok h \<longleftrightarrow> i < length hs \<and> h = hs ! i"
  by (auto simp: hasher_at_def)

lemma hasher_at_cases:
  "hasher_at hs i = (if i < length hs then Ok (hs ! i) else Err StorageTypeError)"
  by (simp add: hasher_at_def)

lemma get_map_key:
  "get_map se p = Ok m \<Longrightarrow>
     storage_map_bytes H K m key = key_prefix H p (se_name se) @ key_hash H K key (sm_hasher m)"
  by (auto simp: get_map_def storage_map_bytes_def key_prefix_def Let_def
      split: storage_entry_type.splits)

lemma get_double_map_key:
  "get_double_map se p = Ok m \<Longrightarrow>
     double_map_key H K Q m key1 key2 =
       key_prefix H p (se_name se) @ key_hash H K key1 (sd_hasher m) @ key_hash H Q key2 (sd_key2_hasher m)"
  by (auto simp: get_double_map_def double_map_key_def key_prefix_def Let_def
      split: storage_entry_type.splits)

text \<open>The two ways to the key of a whole first key, through the struct and directly.\<close>

lemma partial_key_agrees:
  assumes "get_double_map se p = Ok m"
  shows "get_double_map_prefix H K se p key = Ok (double_map_partial_key H K m key)"
  using assms
  by (auto simp: get_double_map_def get_double_map_prefix_def double_map_partial_key_def Let_def
      split: storage_entry_type.splits)

lemma get_map_prefix_Ok_iff:
  "get_map_prefix H se p = Ok k \<longleftrightarrow> (\<exists>hs a b. se_ty se = MapEntry hs a b) \<and> k = key_prefix H p (se_name se)"
  by (auto simp: get_map_prefix_def key_prefix_def split: storage_entry_type.splits)

lemma concat_key_hash_inject:
  assumes K: "roundtrip_codec K ok" and ok: "ok x" "ok y"
    and h: "concat_hasher h" and H: "hash_sizes H"
    and eq: "key_hash H K x h @ r = key_hash H K y h @ s"
  shows "x = y \<and> r = s"
proof -
  have "length (hash_part H h (encode K x)) = length (hash_part H h (encode K y))"
    using H by (simp add: length_hash_part)
  then have "encode K x @ r = encode K y @ s"
    using eq h by (simp add: key_hash_concat)
  then show ?thesis by (rule roundtrip_codec.encode_prefix_free [OF K ok])
qed

end
