(* ===== verification/Metadata.thy ===== *)
theory Metadata
  imports Storage
begin

text \<open>
  Model of \<^verbatim>\<open>node-api/src/metadata.rs\<close>: the tables the client builds from the runtime
  metadata of a node (\<open>try_from\<close>), the look-ups in them, and the storage keys of an
  entry named by pallet and entry name. The magic prefix \<^verbatim>\<open>META_RESERVED\<close> is a constant
  of \<^verbatim>\<open>frame-metadata\<close> and a parameter here.

  The lemmas characterise when \<open>try_from\<close> succeeds and what the tables hold then; the
  three tables of calls, events and errors are built by the same code, which is the
  function \<open>variant_table\<close> here, so they share one set of lemmas.
\<close>

section \<open>State\<close>

record pallet_metadata =
  pm_index :: u8
  pm_name :: string
  pm_calls :: "(string, u8) hashmap"
  pm_storage :: "(string, storage_entry) hashmap"
  pm_constants :: "(string, pallet_constant) hashmap"

record call_metadata =
  cm_pallet :: string
  cm_call :: string
  cm_variant :: variant

record event_metadata =
  em_pallet :: string
  em_event :: string
  em_variant :: variant

record error_metadata =
  rm_pallet :: string
  rm_error :: string
  rm_variant :: variant

record metadata =
  md_runtime :: metadata_v14
  md_pallets :: "(string, pallet_metadata) hashmap"
  md_calls :: "(u8 \<times> u8, call_metadata) hashmap"
  md_events :: "(u8 \<times> u8, event_metadata) hashmap"
  md_errors :: "(u8 \<times> u8, error_metadata) hashmap"

section \<open>Look-ups\<close>

definition pallet :: "metadata \<Rightarrow> string \<Rightarrow> (metadata_error, pallet_metadata) res" where
  "pallet m name = ok_or (hm_get (md_pallets m) name) (PalletNotFound name)"

definition call :: "metadata \<Rightarrow> u8 \<Rightarrow> u8 \<Rightarrow> (metadata_error, call_metadata) res" where
  "call m pallet_index call_index =
     ok_or (hm_get (md_calls m) (pallet_index, call_index)) (CallableNotFound pallet_index call_index)"

definition event :: "metadata \<Rightarrow> u8 \<Rightarrow> u8 \<Rightarrow> (metadata_error, event_metadata) res" where
  "event m pallet_index event_index =
     ok_or (hm_get (md_events m) (pallet_index, event_index)) (EventNotFound pallet_index event_index)"

definition events :: "metadata \<Rightarrow> u8 \<Rightarrow> event_metadata list" where
  "events m pallet_index = map snd (filter (\<lambda>(k, v). fst k = pallet_index) (md_events m))"

definition error :: "metadata \<Rightarrow> u8 \<Rightarrow> u8 \<Rightarrow> (metadata_error, error_metadata) res" where
  "error m pallet_index error_index =
     ok_or (hm_get (md_errors m) (pallet_index, error_index)) (ErrorNotFound pallet_index error_index)"

definition errors :: "metadata \<Rightarrow> u8 \<Rightarrow> error_metadata list" where
  "errors m pallet_index = map snd (filter (\<lambda>(k, v). fst k = pallet_index) (md_errors m))"

definition resolve_type :: "metadata \<Rightarrow> u32 \<Rightarrow> type_info option" where
  "resolve_type m type_id = types (md_runtime m) type_id"

definition runtime_metadata :: "metadata \<Rightarrow> metadata_v14" where
  "runtime_metadata m = md_runtime m"

definition description :: "error_metadata \<Rightarrow> string list" where
  "description e = v_docs (rm_variant e)"

section \<open>One pallet\<close>

definition encode_call ::
    "pallet_metadata \<Rightarrow> string \<Rightarrow> 'a codec \<Rightarrow> 'a \<Rightarrow> (metadata_error, bytes) res" where
  "encode_call p call_name C args =
     and_then (ok_or (hm_get (pm_calls p) call_name) (CallNotFound call_name)) (\<lambda>fn_index.
     let bytes = [pm_index p, fn_index];
         bytes = bytes @ encode C args
     in Ok bytes)"

definition storage :: "pallet_metadata \<Rightarrow> string \<Rightarrow> (metadata_error, storage_entry) res" where
  "storage p key = ok_or (hm_get (pm_storage p) key) (StorageNotFound key)"

definition constant_of :: "pallet_metadata \<Rightarrow> string \<Rightarrow> (metadata_error, pallet_constant) res" where
  "constant_of p key = ok_or (hm_get (pm_constants p) key) (ConstantNotFound key)"

section \<open>Building the tables: TryFrom<RuntimeMetadataPrefixed>\<close>

definition get_type_def_variant ::
    "metadata_v14 \<Rightarrow> u32 \<Rightarrow> (invalid_metadata_error, variant list) res" where
  "get_type_def_variant md type_id =
     and_then (ok_or (types md type_id) (MissingType type_id)) (\<lambda>ty.
     case ty_def ty of Variant var \<Rightarrow> Ok var | _ \<Rightarrow> Err (TypeDefNotVariant type_id))"

definition pallet_metadata_of ::
    "metadata_v14 \<Rightarrow> pallet_v14 \<Rightarrow> (invalid_metadata_error, string \<times> pallet_metadata) res" where
  "pallet_metadata_of md p =
     and_then
       (case p_calls p of
          None \<Rightarrow> Ok []
        | Some ty \<Rightarrow>
            and_then (get_type_def_variant md ty) (\<lambda>type_def_variant.
            Ok (hm_collect (map (\<lambda>v. (v_name v, v_index v)) type_def_variant))))
       (\<lambda>calls.
        let storage =
              (case p_storage p of
                 None \<Rightarrow> []
               | Some entries \<Rightarrow> hm_collect (map (\<lambda>entry. (se_name entry, entry)) entries));
            constants = hm_collect (map (\<lambda>constant. (k_name constant, constant)) (p_constants p))
        in Ok (p_name p,
             \<lparr>pm_index = p_index p, pm_name = p_name p, pm_calls = calls,
              pm_storage = storage, pm_constants = constants\<rparr>))"

text \<open>
  \<^verbatim>\<open>pallets.iter().filter_map(..).collect::<Result<Vec<_>, _>>()\<close> for the pallets that
  name a type by \<open>sel\<close>, and the \<^verbatim>\<open>flat_map\<close> over their variants.
\<close>

definition pallet_variants ::
    "(pallet_v14 \<Rightarrow> u32 option) \<Rightarrow> metadata_v14 \<Rightarrow>
       (invalid_metadata_error, (pallet_v14 \<times> variant list) list) res" where
  "pallet_variants sel md =
     traverse (\<lambda>(p, ty). and_then (get_type_def_variant md ty) (\<lambda>type_def_variant.
         Ok (p, type_def_variant)))
       (List.map_filter (\<lambda>p. map_option (Pair p) (sel p)) (v14_pallets md))"

definition variant_table ::
    "(pallet_v14 \<Rightarrow> variant \<Rightarrow> 'm) \<Rightarrow> (pallet_v14 \<times> variant list) list \<Rightarrow> ((u8 \<times> u8) \<times> 'm) list" where
  "variant_table mk pvs =
     concat (map (\<lambda>(p, vars). map (\<lambda>var. ((p_index p, v_index var), mk p var)) vars) pvs)"

definition call_entry :: "pallet_v14 \<Rightarrow> variant \<Rightarrow> call_metadata" where
  "call_entry p var = \<lparr>cm_pallet = p_name p, cm_call = v_name var, cm_variant = var\<rparr>"

definition event_entry :: "pallet_v14 \<Rightarrow> variant \<Rightarrow> event_metadata" where
  "event_entry p var = \<lparr>em_pallet = p_name p, em_event = v_name var, em_variant = var\<rparr>"

definition error_entry :: "pallet_v14 \<Rightarrow> variant \<Rightarrow> error_metadata" where
  "error_entry p var = \<lparr>rm_pallet = p_name p, rm_error = v_name var, rm_variant = var\<rparr>"

definition try_from ::
    "u32 \<Rightarrow> runtime_metadata_prefixed \<Rightarrow> (invalid_metadata_error, metadata) res" where
  "try_from meta_reserved prefixed =
     (if fst prefixed \<noteq> meta_reserved then Err InvalidPrefix
      else case snd prefixed of
        OtherVersion _ \<Rightarrow> Err InvalidVersion
      | V14 md \<Rightarrow>
          and_then (traverse (pallet_metadata_of md) (v14_pallets md)) (\<lambda>pallets.
          and_then (pallet_variants p_calls md) (\<lambda>pallet_calls.
          let calls = hm_collect (variant_table call_entry pallet_calls) in
          and_then (pallet_variants p_event md) (\<lambda>pallet_events.
          let events = hm_collect (variant_table event_entry pallet_events) in
          and_then (pallet_variants p_error md) (\<lambda>pallet_errors.
          let errors = hm_collect (variant_table error_entry pallet_errors) in
          Ok \<lparr>md_runtime = md, md_pallets = hm_collect pallets, md_calls = calls,
              md_events = events, md_errors = errors\<rparr>)))))"

section \<open>Storage keys\<close>

definition storage_value_key ::
    "hashers \<Rightarrow> metadata \<Rightarrow> string \<Rightarrow> string \<Rightarrow> (metadata_error, storage_key) res" where
  "storage_value_key H m storage_prefix storage_key_name =
     and_then (pallet m storage_prefix) (\<lambda>p.
     and_then (storage p storage_key_name) (\<lambda>se.
     and_then (get_value se storage_prefix) (\<lambda>v.
     Ok (storage_value_bytes H v))))"

definition storage_map_key ::
    "hashers \<Rightarrow> 'k codec \<Rightarrow> metadata \<Rightarrow> string \<Rightarrow> string \<Rightarrow> 'k \<Rightarrow> (metadata_error, storage_key) res" where
  "storage_map_key H K m storage_prefix storage_key_name map_key =
     and_then (pallet m storage_prefix) (\<lambda>p.
     and_then (storage p storage_key_name) (\<lambda>se.
     and_then (get_map se storage_prefix) (\<lambda>sm.
     Ok (storage_map_bytes H K sm map_key))))"

definition storage_map_key_prefix ::
    "hashers \<Rightarrow> metadata \<Rightarrow> string \<Rightarrow> string \<Rightarrow> (metadata_error, storage_key) res" where
  "storage_map_key_prefix H m storage_prefix storage_key_name =
     and_then (pallet m storage_prefix) (\<lambda>p.
     and_then (storage p storage_key_name) (\<lambda>se.
     get_map_prefix H se storage_prefix))"

definition storage_double_map_key ::
    "hashers \<Rightarrow> 'k codec \<Rightarrow> 'q codec \<Rightarrow> metadata \<Rightarrow> string \<Rightarrow> string \<Rightarrow> 'k \<Rightarrow> 'q \<Rightarrow>
       (metadata_error, storage_key) res" where
  "storage_double_map_key H K Q m storage_prefix storage_key_name first second =
     and_then (pallet m storage_prefix) (\<lambda>p.
     and_then (storage p storage_key_name) (\<lambda>se.
     and_then (get_double_map se storage_prefix) (\<lambda>sd.
     Ok (double_map_key H K Q sd first second))))"

definition storage_double_map_partial_key ::
    "hashers \<Rightarrow> 'k codec \<Rightarrow> metadata \<Rightarrow> string \<Rightarrow> string \<Rightarrow> 'k \<Rightarrow> (metadata_error, storage_key) res" where
  "storage_double_map_partial_key H K m storage_prefix storage_key_name first =
     and_then (pallet m storage_prefix) (\<lambda>p.
     and_then (storage p storage_key_name) (\<lambda>se.
     get_double_map_prefix H K se storage_prefix first))"

section \<open>Which tables try_from builds\<close>

text \<open>\<open>var\<close> is a variant of the enum that pallet \<open>p\<close> names by \<open>sel\<close>.\<close>

definition declared :: "(pallet_v14 \<Rightarrow> u32 option) \<Rightarrow> metadata_v14 \<Rightarrow> pallet_v14 \<Rightarrow> variant \<Rightarrow> bool" where
  "declared sel md p var \<longleftrightarrow>
     p \<in> set (v14_pallets md) \<and>
     (case sel p of None \<Rightarrow> False | Some ty \<Rightarrow>
       (case get_type_def_variant md ty of Ok vars \<Rightarrow> var \<in> set vars | _ \<Rightarrow> False))"

definition unique_indices :: "(pallet_v14 \<Rightarrow> u32 option) \<Rightarrow> metadata_v14 \<Rightarrow> bool" where
  "unique_indices sel md \<longleftrightarrow>
     distinct (map p_index (v14_pallets md)) \<and>
     (\<forall>p \<in> set (v14_pallets md). case sel p of None \<Rightarrow> True | Some ty \<Rightarrow>
       (case get_type_def_variant md ty of Ok vars \<Rightarrow> distinct (map v_index vars) | _ \<Rightarrow> True))"

text \<open>Every type a pallet names resolves to an enum.\<close>

definition enum_named :: "metadata_v14 \<Rightarrow> u32 option \<Rightarrow> bool" where
  "enum_named md ty =
     (case ty of None \<Rightarrow> True | Some i \<Rightarrow>
       (case types md i of None \<Rightarrow> False | Some info \<Rightarrow>
         (case ty_def info of Variant _ \<Rightarrow> True | _ \<Rightarrow> False)))"

definition well_typed_pallets :: "metadata_v14 \<Rightarrow> bool" where
  "well_typed_pallets md \<longleftrightarrow>
     (\<forall>p \<in> set (v14_pallets md).
       enum_named md (p_calls p) \<and> enum_named md (p_event p) \<and> enum_named md (p_error p))"

lemma get_type_def_variant_Ok_iff:
  "get_type_def_variant md ty = Ok vars \<longleftrightarrow> (\<exists>info. types md ty = Some info \<and> ty_def info = Variant vars)"
  by (cases "types md ty") (auto simp: get_type_def_variant_def split: type_def.splits)

lemma get_type_def_variant_returns:
  "get_type_def_variant md ty \<noteq> OutOfFuel" "get_type_def_variant md ty \<noteq> Panic"
  by (auto simp: get_type_def_variant_def and_then_OutOfFuel_iff and_then_Panic_iff split: type_def.splits)

lemma enum_named_iff:
  "enum_named md ty \<longleftrightarrow> (\<forall>i. ty = Some i \<longrightarrow> (\<exists>vars. get_type_def_variant md i = Ok vars))"
  by (auto simp: enum_named_def get_type_def_variant_Ok_iff split: option.splits type_def.splits)

lemma traverse_exists: "(\<exists>ys. traverse f xs = Ok ys) \<longleftrightarrow> (\<forall>x \<in> set xs. \<exists>y. f x = Ok y)"
  by (induction xs) auto

lemma pallet_variants_exists:
  "(\<exists>pvs. pallet_variants sel md = Ok pvs) \<longleftrightarrow> (\<forall>p \<in> set (v14_pallets md). enum_named md (sel p))"
  by (force simp: pallet_variants_def traverse_exists enum_named_iff List.map_filter_def)

lemma pallet_metadata_of_exists:
  "(\<exists>pm. pallet_metadata_of md p = Ok pm) \<longleftrightarrow> enum_named md (p_calls p)"
  by (auto simp: pallet_metadata_of_def enum_named_iff Let_def split: option.splits)

lemma pallet_variants_Ok:
  assumes "pallet_variants sel md = Ok pvs"
  shows "map fst pvs = filter (\<lambda>p. sel p \<noteq> None) (v14_pallets md)"
    and "(p, vars) \<in> set pvs \<longleftrightarrow>
           p \<in> set (v14_pallets md) \<and> (\<exists>ty. sel p = Some ty \<and> get_type_def_variant md ty = Ok vars)"
proof -
  have "map fst pvs = filter (\<lambda>p. sel p \<noteq> None) ps \<and>
      (\<forall>p vars. (p, vars) \<in> set pvs \<longleftrightarrow>
         p \<in> set ps \<and> (\<exists>ty. sel p = Some ty \<and> get_type_def_variant md ty = Ok vars))"
    if "traverse (\<lambda>(p, ty). and_then (get_type_def_variant md ty) (\<lambda>v. Ok (p, v)))
      (List.map_filter (\<lambda>p. map_option (Pair p) (sel p)) ps) = Ok pvs" for ps pvs
    using that
  proof (induction ps arbitrary: pvs)
    case Nil
    then show ?case by (simp add: List.map_filter_simps)
  next
    case (Cons q ps)
    then show ?case
      by (cases "sel q") (fastforce simp: List.map_filter_simps)+
  qed
  from this [OF assms [unfolded pallet_variants_def]]
  show "map fst pvs = filter (\<lambda>p. sel p \<noteq> None) (v14_pallets md)"
    and "(p, vars) \<in> set pvs \<longleftrightarrow>
           p \<in> set (v14_pallets md) \<and> (\<exists>ty. sel p = Some ty \<and> get_type_def_variant md ty = Ok vars)"
    by auto
qed

lemma declared_iff:
  "declared sel md p var \<longleftrightarrow> p \<in> set (v14_pallets md) \<and>
     (\<exists>ty vars. sel p = Some ty \<and> get_type_def_variant md ty = Ok vars \<and> var \<in> set vars)"
  by (auto simp: declared_def split: option.splits res.splits)

lemma variant_table_simps:
  "variant_table mk [] = []"
  "variant_table mk ((p, vars) # pvs) =
     map (\<lambda>var. ((p_index p, v_index var), mk p var)) vars @ variant_table mk pvs"
  by (simp_all add: variant_table_def)

lemma variant_table_set:
  "(k, e) \<in> set (variant_table mk pvs) \<longleftrightarrow>
     (\<exists>p vars var. (p, vars) \<in> set pvs \<and> var \<in> set vars \<and> k = (p_index p, v_index var) \<and> e = mk p var)"
proof (induction pvs)
  case (Cons pv pvs)
  obtain q vs where "pv = (q, vs)" by force
  with Cons show ?case by (simp add: variant_table_simps image_iff) blast
qed (simp add: variant_table_simps)

lemma variant_table_mem:
  assumes "pallet_variants sel md = Ok pvs"
  shows "(k, e) \<in> set (variant_table mk pvs) \<longleftrightarrow>
    (\<exists>p var. declared sel md p var \<and> k = (p_index p, v_index var) \<and> e = mk p var)"
  unfolding variant_table_set pallet_variants_Ok(2) [OF assms] declared_iff by blast

lemma variant_table_distinct:
  assumes "distinct (map (p_index \<circ> fst) pvs)" and "\<forall>(p, vars) \<in> set pvs. distinct (map v_index vars)"
  shows "distinct (map fst (variant_table mk pvs))"
  using assms
proof (induction pvs)
  case (Cons pv pvs)
  obtain p vars where pv: "pv = (p, vars)" by force
  have "distinct (map (\<lambda>v. (p_index p, v_index v)) vars)"
    using Cons.prems pv by (auto simp: distinct_map inj_on_def)
  moreover have "((p_index p, j), e) \<notin> set (variant_table mk pvs)" for j e
    using Cons.prems(1) pv by (force simp: variant_table_set)
  ultimately show ?case
    using Cons pv by (auto simp: variant_table_simps o_def)
qed (simp add: variant_table_simps)

lemma variant_table_unique:
  assumes "pallet_variants sel md = Ok pvs" and "unique_indices sel md"
  shows "distinct (map fst (variant_table mk pvs))"
proof (rule variant_table_distinct)
  have "distinct (map p_index (filter (\<lambda>p. sel p \<noteq> None) (v14_pallets md)))"
    using assms(2) by (simp add: unique_indices_def distinct_map_filter)
  then show "distinct (map (p_index \<circ> fst) pvs)"
    by (simp only: map_map [symmetric] pallet_variants_Ok(1) [OF assms(1)])
  show "\<forall>(p, vars) \<in> set pvs. distinct (map v_index vars)"
    using assms by (fastforce simp: pallet_variants_Ok(2) unique_indices_def split: option.splits res.splits)
qed

text \<open>
  The contract of one of the three tables. \<open>sel\<close> is the type the pallet names, \<open>mk\<close>
  the entry built for a variant.
\<close>

locale variant_lookup =
  fixes sel :: "pallet_v14 \<Rightarrow> u32 option"
    and mk :: "pallet_v14 \<Rightarrow> variant \<Rightarrow> 'm"
    and table :: "metadata \<Rightarrow> (u8 \<times> u8, 'm) hashmap"
  assumes built: "try_from mr (mr, V14 md) = Ok m \<Longrightarrow>
    \<exists>pvs. pallet_variants sel md = Ok pvs \<and> table m = hm_collect (variant_table mk pvs)"
begin

lemma lookup_declared:
  assumes "try_from mr (mr, V14 md) = Ok m" and "hm_get (table m) (i, j) = Some e"
  shows "\<exists>p var. declared sel md p var \<and> p_index p = i \<and> v_index var = j \<and> e = mk p var"
proof -
  from built [OF assms(1)] obtain pvs
    where pvs: "pallet_variants sel md = Ok pvs" and t: "table m = hm_collect (variant_table mk pvs)"
    by blast
  with assms(2) have "((i, j), e) \<in> set (variant_table mk pvs)"
    by (auto dest: hm_get_collect_Some)
  then show ?thesis by (auto simp: variant_table_mem [OF pvs])
qed

lemma lookup_iff:
  assumes "try_from mr (mr, V14 md) = Ok m" and "unique_indices sel md"
  shows "hm_get (table m) (i, j) = Some e \<longleftrightarrow>
    (\<exists>p var. declared sel md p var \<and> p_index p = i \<and> v_index var = j \<and> e = mk p var)"
proof
  assume "\<exists>p var. declared sel md p var \<and> p_index p = i \<and> v_index var = j \<and> e = mk p var"
  moreover from built [OF assms(1)] obtain pvs
    where pvs: "pallet_variants sel md = Ok pvs" and t: "table m = hm_collect (variant_table mk pvs)"
    by blast
  ultimately have "((i, j), e) \<in> set (variant_table mk pvs)"
    by (auto simp: variant_table_mem [OF pvs])
  with variant_table_unique [OF pvs assms(2)] show "hm_get (table m) (i, j) = Some e"
    unfolding t by (rule hm_get_collect_distinct)
qed (rule lookup_declared [OF assms(1)])

lemma table_wf: "try_from mr (mr, V14 md) = Ok m \<Longrightarrow> hm_wf (table m)"
  by (auto dest!: built simp: hm_wf_collect)

lemma entries_iff:
  assumes "try_from mr (mr, V14 md) = Ok m" and "unique_indices sel md"
  shows "((i, j), e) \<in> set (table m) \<longleftrightarrow>
    (\<exists>p var. declared sel md p var \<and> p_index p = i \<and> v_index var = j \<and> e = mk p var)"
  using lookup_iff [OF assms] table_wf [OF assms(1)] by (simp add: hm_get_def hm_wf_def)

lemma entries_of_pallet:
  assumes "try_from mr (mr, V14 md) = Ok m" and "unique_indices sel md"
  shows "set (map snd (filter (\<lambda>(k, v). fst k = i) (table m))) =
    {mk p var | p var. declared sel md p var \<and> p_index p = i}"
  using entries_iff [OF assms] by (force simp: image_iff)

end

lemma try_from_Ok:
  "try_from mr (mr, V14 md) = Ok m \<longleftrightarrow>
     (\<exists>pallets pc pe pr.
        traverse (pallet_metadata_of md) (v14_pallets md) = Ok pallets \<and>
        pallet_variants p_calls md = Ok pc \<and> pallet_variants p_event md = Ok pe \<and>
        pallet_variants p_error md = Ok pr \<and>
        m = \<lparr>md_runtime = md, md_pallets = hm_collect pallets,
             md_calls = hm_collect (variant_table call_entry pc),
             md_events = hm_collect (variant_table event_entry pe),
             md_errors = hm_collect (variant_table error_entry pr)\<rparr>)"
  by (auto simp: try_from_def Let_def)

interpretation call_table: variant_lookup p_calls call_entry md_calls
  by unfold_locales (auto simp: try_from_Ok)

interpretation event_table: variant_lookup p_event event_entry md_events
  by unfold_locales (auto simp: try_from_Ok)

interpretation error_table: variant_lookup p_error error_entry md_errors
  by unfold_locales (auto simp: try_from_Ok)

lemma try_from_runtime: "try_from mr (mr, V14 md) = Ok m \<Longrightarrow> md_runtime m = md"
  by (auto simp: try_from_Ok)

lemma try_from_exists:
  "(\<exists>m. try_from mr (mr, V14 md) = Ok m) \<longleftrightarrow> well_typed_pallets md"
proof -
  have "(\<exists>m. try_from mr (mr, V14 md) = Ok m) \<longleftrightarrow>
      (\<exists>ps. traverse (pallet_metadata_of md) (v14_pallets md) = Ok ps) \<and>
      (\<exists>pc. pallet_variants p_calls md = Ok pc) \<and> (\<exists>pe. pallet_variants p_event md = Ok pe) \<and>
      (\<exists>pr. pallet_variants p_error md = Ok pr)"
    by (auto simp: try_from_Ok)
  then show ?thesis
    unfolding traverse_exists pallet_metadata_of_exists pallet_variants_exists well_typed_pallets_def
    by blast
qed

lemma traverse_Err: "traverse f xs = Err e \<Longrightarrow> \<exists>x \<in> set xs. f x = Err e"
  by (induction xs) (auto simp: and_then_Err_iff)

lemma traverse_Panic: "traverse f xs = Panic \<Longrightarrow> \<exists>x \<in> set xs. f x = Panic"
  by (induction xs) (auto simp: and_then_Panic_iff)

lemma get_type_def_variant_prefix: "get_type_def_variant md ty \<noteq> Err InvalidPrefix"
  by (auto simp: get_type_def_variant_def and_then_Err_iff ok_or_def split: type_def.splits option.splits)

lemma pallet_metadata_of_errors:
  "pallet_metadata_of md p \<noteq> Panic" "pallet_metadata_of md p \<noteq> Err InvalidPrefix"
  by (auto simp: pallet_metadata_of_def and_then_Panic_iff and_then_Err_iff Let_def
      get_type_def_variant_returns get_type_def_variant_prefix split: option.splits)

lemma pallet_variants_errors:
  "pallet_variants sel md \<noteq> Panic" "pallet_variants sel md \<noteq> Err InvalidPrefix"
  by (auto simp: pallet_variants_def and_then_Panic_iff and_then_Err_iff get_type_def_variant_returns
      get_type_def_variant_prefix dest!: traverse_Panic traverse_Err)

lemma try_from_errors:
  "try_from mr (mr, V14 md) \<noteq> Panic" "try_from mr (mr, V14 md) \<noteq> Err InvalidPrefix"
  by (auto simp: try_from_def Let_def and_then_Panic_iff and_then_Err_iff pallet_variants_errors
      pallet_metadata_of_errors dest!: traverse_Panic traverse_Err)

lemma pallet_from_v14:
  assumes "try_from mr (mr, V14 md) = Ok m" and "pallet m name = Ok pm"
  shows "\<exists>p \<in> set (v14_pallets md). pallet_metadata_of md p = Ok (name, pm)"
proof -
  from assms(1) obtain pallets where t: "traverse (pallet_metadata_of md) (v14_pallets md) = Ok pallets"
    and m: "md_pallets m = hm_collect pallets"
    by (auto simp: try_from_Ok)
  from assms(2) m have "(name, pm) \<in> set pallets"
    by (auto simp: pallet_def dest: hm_get_collect_Some)
  with t show ?thesis by (rule traverse_Ok_mem)
qed

lemma pallet_metadata_of_fields:
  "pallet_metadata_of md p = Ok (name, pm) \<Longrightarrow> p_name p = name \<and> pm_index pm = p_index p \<and> pm_name pm = name"
  by (auto simp: pallet_metadata_of_def Let_def split: option.splits)

lemma pallet_call_declared:
  assumes "pallet_metadata_of md p = Ok (name, pm)" and "hm_get (pm_calls pm) c = Some i"
    and "p \<in> set (v14_pallets md)"
  shows "\<exists>var. declared p_calls md p var \<and> v_name var = c \<and> v_index var = i"
  using assms
  by (auto simp: pallet_metadata_of_def Let_def declared_iff hm_get_empty split: option.splits
      dest!: hm_get_collect_Some) blast+

lemma pallet_storage_named:
  assumes "try_from mr (mr, V14 md) = Ok m" and "pallet m p = Ok pm" and "storage pm e = Ok se"
  shows "se_name se = e"
  using pallet_from_v14 [OF assms(1,2)] assms(3)
  by (auto simp: pallet_metadata_of_def storage_def Let_def hm_get_empty split: option.splits
      dest!: hm_get_collect_Some)

section \<open>Well-formed tables\<close>

text \<open>
  What the look-ups rely on: no key occurs twice, an entry is filed under its own name or index, and
  the pallet an entry names has metadata of its own.
\<close>

definition pallet_wf :: "string \<Rightarrow> pallet_metadata \<Rightarrow> bool" where
  "pallet_wf name pm \<longleftrightarrow>
     pm_name pm = name \<and> hm_wf (pm_calls pm) \<and> hm_wf (pm_storage pm) \<and> hm_wf (pm_constants pm) \<and>
     (\<forall>e se. storage pm e = Ok se \<longrightarrow> se_name se = e) \<and>
     (\<forall>c k. constant_of pm c = Ok k \<longrightarrow> k_name k = c)"

definition filed :: "metadata \<Rightarrow> u8 \<Rightarrow> string \<Rightarrow> string \<Rightarrow> variant \<Rightarrow> bool" where
  "filed m j pallet_name name var \<longleftrightarrow>
     v_index var = j \<and> v_name var = name \<and> (\<exists>pm. pallet m pallet_name = Ok pm)"

definition metadata_wf :: "metadata \<Rightarrow> bool" where
  "metadata_wf m \<longleftrightarrow>
     hm_wf (md_pallets m) \<and> hm_wf (md_calls m) \<and> hm_wf (md_events m) \<and> hm_wf (md_errors m) \<and>
     (\<forall>name pm. pallet m name = Ok pm \<longrightarrow> pallet_wf name pm) \<and>
     (\<forall>i j c. call m i j = Ok c \<longrightarrow> filed m j (cm_pallet c) (cm_call c) (cm_variant c)) \<and>
     (\<forall>i j e. event m i j = Ok e \<longrightarrow> filed m j (em_pallet e) (em_event e) (em_variant e)) \<and>
     (\<forall>i j e. error m i j = Ok e \<longrightarrow> filed m j (rm_pallet e) (rm_error e) (rm_variant e))"

lemma pallet_metadata_of_wf: "pallet_metadata_of md p = Ok (name, pm) \<Longrightarrow> pallet_wf name pm"
  by (auto simp: pallet_metadata_of_def pallet_wf_def Let_def hm_wf_collect storage_def constant_of_def hm_get_empty
      split: option.splits dest!: hm_get_collect_Some) (simp_all add: hm_wf_def)

lemma pallet_of_declared:
  assumes "try_from mr (mr, V14 md) = Ok m" and "declared sel md p var"
  shows "\<exists>pm. pallet m (p_name p) = Ok pm"
proof -
  from assms(1) obtain pallets where t: "traverse (pallet_metadata_of md) (v14_pallets md) = Ok pallets"
    and m: "md_pallets m = hm_collect pallets"
    by (auto simp: try_from_Ok)
  from assms(2) have p: "p \<in> set (v14_pallets md)" by (simp add: declared_def)
  from traverse_Ok_covers [OF t p] obtain e where e: "e \<in> set pallets" "pallet_metadata_of md p = Ok e"
    by blast
  with pallet_metadata_of_fields [of md p "fst e" "snd e"] have "p_name p \<in> fst ` set pallets" by force
  then have "map_of (rev pallets) (p_name p) \<noteq> None" by (simp add: map_of_eq_None_iff)
  then show ?thesis using m by (auto simp: pallet_def hm_get_collect)
qed

lemma try_from_wf:
  assumes "try_from mr (mr, V14 md) = Ok m"
  shows "metadata_wf m"
proof -
  note declared = call_table.lookup_declared [OF assms] event_table.lookup_declared [OF assms]
    error_table.lookup_declared [OF assms]
  have "pallet_wf name pm" if "pallet m name = Ok pm" for name pm
    using pallet_from_v14 [OF assms that] pallet_metadata_of_wf by blast
  moreover have "filed m j (cm_pallet c) (cm_call c) (cm_variant c)" if "call m i j = Ok c" for i j c
    using declared(1) [of i j c] that pallet_of_declared [OF assms] by (force simp: call_def filed_def call_entry_def)
  moreover have "filed m j (em_pallet e) (em_event e) (em_variant e)" if "event m i j = Ok e" for i j e
    using declared(2) [of i j e] that pallet_of_declared [OF assms] by (force simp: event_def filed_def event_entry_def)
  moreover have "filed m j (rm_pallet e) (rm_error e) (rm_variant e)" if "error m i j = Ok e" for i j e
    using declared(3) [of i j e] that pallet_of_declared [OF assms] by (force simp: error_def filed_def error_entry_def)
  moreover have "hm_wf (md_pallets m)" using assms by (auto simp: try_from_Ok hm_wf_collect)
  ultimately show ?thesis
    using call_table.table_wf [OF assms] event_table.table_wf [OF assms] error_table.table_wf [OF assms]
    by (simp add: metadata_wf_def)
qed

end
