(* ===== verification/Scale_Reference.thy ===== *)
theory Scale_Reference
  imports Scale_Codec
begin

text \<open>
  The SCALE format as its specification defines it, as one concrete value of the
  interface record \<open>scale\<close>: little-endian integers, compact integers in four modes
  with the shortest form only, length-prefixed vectors and strings, index bytes for
  enums. It interprets \<open>scale_laws\<close>, so that the hypotheses the components state of
  the codec crate are known to hold together, and it is the codec that the concrete
  examples of the development evaluate.
\<close>

section \<open>Little-endian integers\<close>

primrec nat_le :: "nat \<Rightarrow> nat \<Rightarrow> bytes" where
  "nat_le 0 n = []"
| "nat_le (Suc k) n = of_nat (n mod 256) # nat_le k (n div 256)"

primrec le_nat :: "bytes \<Rightarrow> nat" where
  "le_nat [] = 0"
| "le_nat (b # bs) = unat b + 256 * le_nat bs"

definition short_input :: codec_error where
  "short_input = CodecError ''Not enough data to fill buffer''"

definition take_buf :: "nat \<Rightarrow> bytes \<Rightarrow> codec_error + (bytes \<times> bytes)" where
  "take_buf n bs = (if n \<le> length bs then Inr (take n bs, drop n bs) else Inl short_input)"

definition take_byte :: "bytes \<Rightarrow> codec_error + (u8 \<times> bytes)" where
  "take_byte bs = (case bs of [] \<Rightarrow> Inl short_input | b # r \<Rightarrow> Inr (b, r))"

definition word_codec :: "nat \<Rightarrow> 'a::len word codec" where
  "word_codec k =
     \<lparr>decode = (\<lambda>bs. map_sum id (map_prod (\<lambda>x. of_nat (le_nat x)) id) (take_buf k bs)),
      encode = (\<lambda>w. nat_le k (unat w))\<rparr>"

lemma length_nat_le [simp]: "length (nat_le k n) = k"
  by (induction k arbitrary: n) auto

lemma nat_le_Nil_iff [simp]: "nat_le k n = [] \<longleftrightarrow> k = 0"
  by (cases k) auto

lemma le_nat_nat_le: "le_nat (nat_le k n) = n mod 256 ^ k"
proof (induction k arbitrary: n)
  case (Suc k)
  have "unat (of_nat (n mod 256) :: u8) = n mod 256"
    by (simp add: unat_of_nat)
  with Suc show ?case
    by (simp add: mod_mult2_eq)
qed simp

lemma le_nat_less: "le_nat bs < 256 ^ length bs"
proof (induction bs)
  case (Cons b bs)
  have "unat b < 256" using unsigned_less [of b] by simp
  with Cons show ?case by simp
qed simp

lemma nat_le_le_nat: "nat_le (length bs) (le_nat bs) = bs"
proof (induction bs)
  case (Cons b bs)
  have "unat b < 256" using unsigned_less [of b] by simp
  with Cons show ?case by simp
qed simp

lemma take_buf_Inr: "take_buf n bs = Inr (x, r) \<Longrightarrow> bs = x @ r \<and> length x = n"
  by (auto simp: take_buf_def split: if_splits)

lemma take_buf_append: "length x = n \<Longrightarrow> take_buf n (x @ r) = Inr (x, r)"
  by (simp add: take_buf_def)

lemma word_codec_lawful:
  assumes k: "256 ^ k = (2 :: nat) ^ LENGTH('a::len)"
  shows "lawful_codec (word_codec k :: 'a word codec) (\<lambda>_. True)"
proof unfold_locales
  fix bs r :: bytes and w :: "'a word"
  assume "decode (word_codec k) bs = Inr (w, r)"
  then obtain x where x: "take_buf k bs = Inr (x, r)" "w = of_nat (le_nat x)"
    by (cases "take_buf k bs") (auto simp: word_codec_def)
  then have b: "bs = x @ r" "length x = k" by (auto dest: take_buf_Inr)
  then have "unat w = le_nat x"
    using le_nat_less [of x] x(2) k by (simp add: unat_of_nat)
  then show "bs = encode (word_codec k) w @ r"
    using b nat_le_le_nat [of x] by (simp add: word_codec_def)
next
  fix w :: "'a word" and r :: bytes
  have "unat w mod 256 ^ k = unat w"
    using unsigned_less [of w] k by simp
  then show "decode (word_codec k) (encode (word_codec k) w @ r) = Inr (w, r)"
    by (simp add: word_codec_def take_buf_append le_nat_nat_le)
qed

section \<open>Compact integers\<close>

fun nbytes :: "nat \<Rightarrow> nat" where
  "nbytes n = (if n = 0 then 0 else Suc (nbytes (n div 256)))"

declare nbytes.simps [simp del]

definition enc_compact :: "nat \<Rightarrow> bytes" where
  "enc_compact n =
     (if n < 2 ^ 6 then nat_le 1 (4 * n)
      else if n < 2 ^ 14 then nat_le 2 (4 * n + 1)
      else if n < 2 ^ 30 then nat_le 4 (4 * n + 2)
      else nat_le 1 (4 * (nbytes n - 4) + 3) @ nat_le (nbytes n) n)"

text \<open>The number the prefix of the input denotes, and how many bytes denote it.\<close>

definition compact_value :: "bytes \<Rightarrow> nat \<times> nat" where
  "compact_value bs =
     (case bs of [] \<Rightarrow> (0, 0) | b # r \<Rightarrow>
       (if unat b mod 4 = 0 then (unat b div 4, 1)
        else if unat b mod 4 = 1 then (le_nat (take 2 bs) div 4, 2)
        else if unat b mod 4 = 2 then (le_nat (take 4 bs) div 4, 4)
        else (le_nat (take (unat b div 4 + 4) r), unat b div 4 + 5)))"

text \<open>Only the shortest form is accepted, and only in the range of the type.\<close>

definition dec_compact :: "nat \<Rightarrow> bytes \<Rightarrow> codec_error + (nat \<times> bytes)" where
  "dec_compact bound bs =
     (let (n, used) = compact_value bs in
      if used \<le> length bs \<and> n < bound \<and> enc_compact n = take used bs
      then Inr (n, drop used bs)
      else Inl (CodecError ''out of range decoding Compact''))"

definition compact_codec :: "'a::len word codec" where
  "compact_codec =
     \<lparr>decode = (\<lambda>bs. map_sum id (map_prod of_nat id) (dec_compact (2 ^ LENGTH('a)) bs)),
      encode = (\<lambda>w. enc_compact (unat w))\<rparr>"

lemma nbytes_bound: "n < 256 ^ nbytes n"
  by (induction n rule: nbytes.induct) (subst nbytes.simps, auto)

lemma nbytes_le: "n < 256 ^ k \<Longrightarrow> nbytes n \<le> k"
proof (induction k arbitrary: n)
  case 0
  then show ?case by (simp add: nbytes.simps)
next
  case (Suc k)
  then have "n div 256 < 256 ^ k" by (simp add: less_mult_imp_div_less mult.commute)
  then show ?case using Suc.IH [of "n div 256"] by (subst nbytes.simps) simp
qed

lemma nbytes_ge_4: "2 ^ 30 \<le> n \<Longrightarrow> 4 \<le> nbytes n"
proof (rule ccontr)
  assume n: "2 ^ 30 \<le> n" and "\<not> 4 \<le> nbytes n"
  then have "(256 :: nat) ^ nbytes n \<le> 256 ^ 3" by (intro power_increasing) auto
  with nbytes_bound [of n] n show False by simp
qed

lemma dec_compact_exact: "dec_compact bound bs = Inr (n, r) \<Longrightarrow> bs = enc_compact n @ r \<and> n < bound"
  by (auto simp: dec_compact_def split: prod.splits if_splits)

lemma unat_head_mod: "unat (of_nat (m mod 256) :: u8) = m mod 256"
  by (simp add: unat_of_nat)

lemma nat_le_Cons: "0 < k \<Longrightarrow> \<exists>t. nat_le k m = of_nat (m mod 256) # t"
  by (cases k) auto

lemma compact_value_short:
  assumes "k = 2 \<and> m mod 4 = 1 \<or> k = 4 \<and> m mod 4 = 2"
  shows "compact_value (nat_le k m @ r) = (m mod 256 ^ k div 4, k)"
proof -
  obtain t where t: "nat_le k m = of_nat (m mod 256) # t"
    using assms nat_le_Cons [of k m] by auto
  have head: "unat (of_nat (m mod 256) :: u8) mod 4 = m mod 4"
    unfolding unat_head_mod by (simp add: mod_mod_cancel)
  have "take k (of_nat (m mod 256) # t @ r) = nat_le k m"
    using t length_nat_le [of k m] by auto
  then have "le_nat (take k (of_nat (m mod 256) # t @ r)) = m mod 256 ^ k"
    by (simp only: le_nat_nat_le)
  then show ?thesis
    using assms head unfolding t compact_value_def append_Cons list.case by auto
qed

lemma compact_value_enc:
  assumes n: "n < 2 ^ 128"
  shows "compact_value (enc_compact n @ r) = (n, length (enc_compact n))"
proof -
  consider "n < 2 ^ 6" | "2 ^ 6 \<le> n" "n < 2 ^ 14" | "2 ^ 14 \<le> n" "n < 2 ^ 30" | "2 ^ 30 \<le> n"
    by linarith
  then show ?thesis
  proof cases
    case 1
    then have "unat (4 * of_nat n :: u8) = 4 * n"
      using unat_of_nat [of "4 * n", where 'a = 8] by simp
    with 1 show ?thesis
      by (simp add: enc_compact_def compact_value_def)
  next
    case 2
    then have "enc_compact n = nat_le 2 (4 * n + 1)" by (simp add: enc_compact_def)
    with 2 show ?thesis
      using compact_value_short [of 2 "4 * n + 1" r] by simp
  next
    case 3
    then have "enc_compact n = nat_le 4 (4 * n + 2)" by (simp add: enc_compact_def)
    moreover have "(4 * n + 2) mod 4 = 2" "(4 * n + 2) div 4 = n" by presburger+
    ultimately show ?thesis
      using 3 compact_value_short [of 4 "4 * n + 2" r] by simp
  next
    case 4
    have k: "4 \<le> nbytes n" "nbytes n \<le> 16"
      using nbytes_ge_4 [OF 4] nbytes_le [of n 16] n by auto
    let ?h = "4 * (nbytes n - 4) + 3"
    have h: "?h < 256" "?h mod 4 = 3" "?h div 4 = nbytes n - 4" using k by auto
    then have b: "unat (of_nat (?h mod 256) :: u8) = ?h" by (simp only: unat_head_mod) simp
    have e: "enc_compact n = of_nat (?h mod 256) # nat_le (nbytes n) n"
      using 4 by (simp add: enc_compact_def)
    have "le_nat (nat_le (nbytes n) n) = n"
      using nbytes_bound [of n] by (simp add: le_nat_nat_le)
    then show ?thesis
      unfolding e compact_value_def append_Cons list.case b h using k by simp
  qed
qed

lemma dec_compact_enc:
  "n < bound \<Longrightarrow> n < 2 ^ 128 \<Longrightarrow> dec_compact bound (enc_compact n @ r) = Inr (n, r)"
  by (simp add: dec_compact_def compact_value_enc)

lemma enc_compact_nonempty: "enc_compact n \<noteq> []"
  by (simp add: enc_compact_def)

lemma compact_codec_lawful:
  assumes "LENGTH('a::len) \<le> 128"
  shows "lawful_codec (compact_codec :: 'a word codec) (\<lambda>_. True)"
proof unfold_locales
  fix bs r :: bytes and w :: "'a word"
  assume "decode compact_codec bs = Inr (w, r)"
  then obtain n where n: "dec_compact (2 ^ LENGTH('a)) bs = Inr (n, r)" "w = of_nat n"
    by (cases "dec_compact (2 ^ LENGTH('a)) bs") (auto simp: compact_codec_def)
  then show "bs = encode compact_codec w @ r"
    using dec_compact_exact [OF n(1)] by (simp add: compact_codec_def unat_of_nat)
next
  fix w :: "'a word" and r :: bytes
  have "unat w < 2 ^ LENGTH('a)" by (rule unsigned_less)
  also have "(2 :: nat) ^ LENGTH('a) \<le> 2 ^ 128" using assms by (intro power_increasing) auto
  finally show "decode compact_codec (encode compact_codec w @ r) = Inr (w, r)"
    by (simp add: compact_codec_def dec_compact_enc)
qed

section \<open>Vectors, strings, enums\<close>

definition unit_vec_codec :: "nat codec" where
  "unit_vec_codec = \<lparr>decode = dec_compact (2 ^ 32), encode = enc_compact\<rparr>"

primrec dec_hashes :: "nat \<Rightarrow> bytes \<Rightarrow> codec_error + (hash list \<times> bytes)" where
  "dec_hashes 0 bs = Inr ([], bs)"
| "dec_hashes (Suc n) bs =
     (case take_buf 32 bs of Inl e \<Rightarrow> Inl e | Inr (h, r) \<Rightarrow>
       (case dec_hashes n r of Inl e \<Rightarrow> Inl e | Inr (hs, r') \<Rightarrow> Inr (h # hs, r')))"

definition hash_vec_codec :: "hash list codec" where
  "hash_vec_codec =
     \<lparr>decode = (\<lambda>bs. case dec_compact (2 ^ 32) bs of Inl e \<Rightarrow> Inl e
        | Inr (n, r) \<Rightarrow> dec_hashes n r),
      encode = (\<lambda>hs. enc_compact (length hs) @ concat hs)\<rparr>"

text \<open>Well-formed UTF-8, by the table of byte sequences of the Unicode standard.\<close>

definition cont :: "nat \<Rightarrow> bool" where
  "cont b \<longleftrightarrow> 128 \<le> b \<and> b < 192"

fun utf8 :: "nat list \<Rightarrow> bool" where
  "utf8 [] = True"
| "utf8 (a # r) =
     (if a < 128 then utf8 r
      else case r of [] \<Rightarrow> False | b # r1 \<Rightarrow>
       (if 194 \<le> a \<and> a < 224 then cont b \<and> utf8 r1
        else case r1 of [] \<Rightarrow> False | c # r2 \<Rightarrow>
         (if 224 \<le> a \<and> a < 240 then
            cont b \<and> cont c \<and> (a = 224 \<longrightarrow> 160 \<le> b) \<and> (a = 237 \<longrightarrow> b < 160) \<and> utf8 r2
          else case r2 of [] \<Rightarrow> False | d # r3 \<Rightarrow>
            240 \<le> a \<and> a < 245 \<and> cont b \<and> cont c \<and> cont d \<and>
            (a = 240 \<longrightarrow> 144 \<le> b) \<and> (a = 244 \<longrightarrow> b < 144) \<and> utf8 r3)))"

definition str_codec :: "string codec" where
  "str_codec =
     \<lparr>decode = (\<lambda>bs. case dec_compact (2 ^ 32) bs of Inl e \<Rightarrow> Inl e
        | Inr (n, r) \<Rightarrow> (case take_buf n r of Inl e \<Rightarrow> Inl e
        | Inr (x, r') \<Rightarrow> if utf8 (map unat x) then Inr (map (\<lambda>b. char_of (unat b)) x, r')
            else Inl (CodecError ''Invalid utf8 sequence''))),
      encode = (\<lambda>s. enc_compact (length s) @ as_bytes s)\<rparr>"

definition bool_codec :: "bool codec" where
  "bool_codec =
     \<lparr>decode = (\<lambda>bs. case take_byte bs of Inl e \<Rightarrow> Inl e | Inr (b, r) \<Rightarrow>
        (if b = 0 then Inr (False, r) else if b = 1 then Inr (True, r)
         else Inl (CodecError ''Invalid boolean representation''))),
      encode = (\<lambda>b. [if b then 1 else 0])\<rparr>"

definition bad_variant :: "string \<Rightarrow> codec_error" where
  "bad_variant t = CodecError (''Could not decode '' @ t @ '', variant does not exist'')"

text \<open>A nested enum without fields, of which \<open>k\<close> variants exist.\<close>

definition dec_inner ::
    "nat \<Rightarrow> (u8 \<Rightarrow> dispatch_error) \<Rightarrow> bytes \<Rightarrow> codec_error + (dispatch_error \<times> bytes)" where
  "dec_inner k mk bs =
     (case take_byte bs of Inl e \<Rightarrow> Inl e | Inr (b, r) \<Rightarrow>
       (if unat b < k then Inr (mk b, r) else Inl (bad_variant ''DispatchError'')))"

definition dec_dispatch :: "bytes \<Rightarrow> codec_error + (dispatch_error \<times> bytes)" where
  "dec_dispatch bs =
     (case take_byte bs of Inl e \<Rightarrow> Inl e | Inr (b, r) \<Rightarrow>
       (if b = 0 then Inr (Other [], r)
        else if b = 1 then Inr (CannotLookup, r)
        else if b = 2 then Inr (BadOrigin, r)
        else if b = 3 then
          (case take_byte r of Inl e \<Rightarrow> Inl e | Inr (i, r1) \<Rightarrow>
            (case take_buf 4 r1 of Inl e \<Rightarrow> Inl e | Inr (x, r2) \<Rightarrow> Inr (Module i x None, r2)))
        else if b = 4 then Inr (ConsumerRemaining, r)
        else if b = 5 then Inr (NoProviders, r)
        else if b = 6 then Inr (TooManyConsumers, r)
        else if b = 7 then dec_inner 7 Token r
        else if b = 8 then dec_inner 3 Arithmetic r
        else if b = 9 then dec_inner 2 Transactional r
        else Inl (bad_variant ''DispatchError'')))"

fun enc_dispatch :: "dispatch_error \<Rightarrow> bytes" where
  "enc_dispatch (Other s) = [0]"
| "enc_dispatch CannotLookup = [1]"
| "enc_dispatch BadOrigin = [2]"
| "enc_dispatch (Module i x m) = 3 # i # x"
| "enc_dispatch ConsumerRemaining = [4]"
| "enc_dispatch NoProviders = [5]"
| "enc_dispatch TooManyConsumers = [6]"
| "enc_dispatch (Token k) = [7, k]"
| "enc_dispatch (Arithmetic k) = [8, k]"
| "enc_dispatch (Transactional k) = [9, k]"

definition scale_ref :: scale where
  "scale_ref =
     \<lparr>c_bool = bool_codec, c_str = str_codec,
      c_u8 = word_codec 1, c_u16 = word_codec 2, c_u32 = word_codec 4,
      c_u64 = word_codec 8, c_u128 = word_codec 16,
      c_i8 = word_codec 1, c_i16 = word_codec 2, c_i32 = word_codec 4,
      c_i64 = word_codec 8, c_i128 = word_codec 16,
      c_compact_u8 = compact_codec, c_compact_u16 = compact_codec,
      c_compact_u32 = compact_codec, c_compact_u64 = compact_codec,
      c_compact_u128 = compact_codec,
      c_hash_vec = hash_vec_codec, c_unit_vec = unit_vec_codec,
      c_dispatch = \<lparr>decode = dec_dispatch, encode = enc_dispatch\<rparr>,
      read_byte = take_byte, read_buf = take_buf, no_variant = bad_variant\<rparr>"

lemma encode_word_codec: "encode (word_codec k) w = nat_le k (unat w)"
  by (simp add: word_codec_def)

lemma encode_compact_codec: "encode compact_codec w = enc_compact (unat w)"
  by (simp add: compact_codec_def)

lemma take_byte_Inr: "take_byte bs = Inr (b, r) \<longleftrightarrow> bs = b # r"
  by (auto simp: take_byte_def split: list.splits)

lemma unit_vec_codec_lawful: "lawful_codec unit_vec_codec (\<lambda>n. n < 2 ^ 32)"
  by unfold_locales (auto simp: unit_vec_codec_def dec_compact_enc dest: dec_compact_exact)

lemma dec_hashes_exact:
  "dec_hashes n bs = Inr (hs, r) \<Longrightarrow> bs = concat hs @ r \<and> length hs = n"
  by (induction n arbitrary: bs hs) (auto split: sum.splits dest!: take_buf_Inr)

lemma dec_hashes_concat:
  "\<forall>h \<in> set hs. length h = 32 \<Longrightarrow> dec_hashes (length hs) (concat hs @ r) = Inr (hs, r)"
  by (induction hs) (auto simp: take_buf_append)

lemma hash_vec_codec_lawful:
  "lawful_codec hash_vec_codec (\<lambda>hs. length hs < 2 ^ 32 \<and> (\<forall>h \<in> set hs. length h = 32))"
  by unfold_locales
    (auto simp: hash_vec_codec_def dec_compact_enc dec_hashes_concat split: sum.splits
      dest!: dec_compact_exact dec_hashes_exact)

lemma as_bytes_char_of: "as_bytes (map (\<lambda>b. char_of (unat b)) bs) = bs"
proof -
  have "(of_char (char_of (unat b)) :: u8) = b" for b :: u8
  proof -
    have "unat b < 256" using unsigned_less [of b] by simp
    then have "(of_nat (of_char (char_of (unat b))) :: u8) = of_nat (unat b)" by simp
    then show ?thesis by (simp only: of_nat_of_char) simp
  qed
  then show ?thesis by (simp add: as_bytes_def map_idI)
qed

lemma str_codec_exact: "exact_codec str_codec"
  by unfold_locales
    (auto simp: str_codec_def as_bytes_char_of split: sum.splits if_splits
      dest!: dec_compact_exact take_buf_Inr)

lemma bool_codec_exact: "exact_codec bool_codec"
  by unfold_locales (auto simp: bool_codec_def take_byte_Inr split: sum.splits if_splits)

lemma dec_inner_Inr: "dec_inner k mk bs = Inr (x, r) \<Longrightarrow> \<exists>b. bs = b # r \<and> x = mk b"
  by (auto simp: dec_inner_def take_byte_Inr split: sum.splits if_splits)

lemma dispatch_codec_exact: "exact_codec \<lparr>decode = dec_dispatch, encode = enc_dispatch\<rparr>"
  by unfold_locales
    (auto simp: dec_dispatch_def take_byte_Inr split: sum.splits if_splits
      dest!: dec_inner_Inr take_buf_Inr)

lemmas ref_lawful =
  word_codec_lawful [where 'a = 8 and k = 1, simplified]
  word_codec_lawful [where 'a = 16 and k = 2, simplified]
  word_codec_lawful [where 'a = 32 and k = 4, simplified]
  word_codec_lawful [where 'a = 64 and k = 8, simplified]
  word_codec_lawful [where 'a = 128 and k = 16, simplified]
  compact_codec_lawful [where 'a = 8, simplified]
  compact_codec_lawful [where 'a = 16, simplified]
  compact_codec_lawful [where 'a = 32, simplified]
  compact_codec_lawful [where 'a = 64, simplified]
  compact_codec_lawful [where 'a = 128, simplified]

lemmas ref_exact = ref_lawful [THEN lawful_codec.axioms(1)]

text \<open>Evaluation of the reference codecs on concrete bytes.\<close>

named_theorems ref_eval \<open>equations that evaluate the reference codecs\<close>

lemma nat_le_numeral [ref_eval]:
  "nat_le (numeral k) n = of_nat (n mod 256) # nat_le (pred_numeral k) (n div 256)"
  by (simp only: numeral_eq_Suc [of k] nat_le.simps)

lemma for_n_numeral [ref_eval]: "for_n f (numeral k) s = and_then (f s) (for_n f (pred_numeral k))"
  by (simp only: numeral_eq_Suc [of k] for_n.simps)

lemma scale_ref_sel [ref_eval]:
  "c_bool scale_ref = bool_codec" "c_str scale_ref = str_codec"
  "c_u8 scale_ref = word_codec 1" "c_u16 scale_ref = word_codec 2" "c_u32 scale_ref = word_codec 4"
  "c_u64 scale_ref = word_codec 8" "c_u128 scale_ref = word_codec 16"
  "c_compact_u32 scale_ref = compact_codec" "c_compact_u128 scale_ref = compact_codec"
  "c_hash_vec scale_ref = hash_vec_codec" "c_unit_vec scale_ref = unit_vec_codec"
  "c_dispatch scale_ref = \<lparr>decode = dec_dispatch, encode = enc_dispatch\<rparr>"
  "read_byte scale_ref = take_byte" "read_buf scale_ref = take_buf" "no_variant scale_ref = bad_variant"
  by (simp_all add: scale_ref_def)

lemmas [ref_eval] =
  word_codec_def compact_codec_def bool_codec_def unit_vec_codec_def hash_vec_codec_def
  take_byte_def take_buf_def dec_compact_def compact_value_def enc_compact_def
  dec_dispatch_def dec_inner_def

interpretation scale_fmt: scale_laws scale_ref
  by (unfold scale_laws_def)
    (simp add: scale_ref_def bool_codec_exact str_codec_exact dispatch_codec_exact ref_lawful
      ref_exact unit_vec_codec_lawful [simplified] hash_vec_codec_lawful [simplified] take_byte_def take_buf_def
      encode_word_codec encode_compact_codec enc_compact_nonempty)

interpretation bool_fmt: exact_codec bool_codec
  by (rule bool_codec_exact)

interpretation u32_fmt: lawful_codec "word_codec 4 :: u32 codec" "\<lambda>_. True"
  by (rule ref_lawful(3))

end
