(* ===== verification/Decoder.thy ===== *)
theory Decoder
  imports Metadata Scale_Reference
begin

text \<open>
  Model of \<^verbatim>\<open>node-api/src/decoder.rs\<close> and of \<^verbatim>\<open>RuntimeError::from_dispatch\<close>
  (\<^verbatim>\<open>error.rs\<close>), \<^verbatim>\<open>Phase\<close> (\<^verbatim>\<open>lib.rs\<close>).

  \<^verbatim>\<open>decode_type\<close> walks a type of the registry over the input, re-encodes every primitive
  it reads and appends it to the output. A registry may be cyclic, so the recursion need
  not end; the model takes fuel, one unit per level of recursion, and answers
  \<open>OutOfFuel\<close> where the recursion is deeper. The pair of input and output bytes is the
  state \<open>io\<close> of the walk. A failing call leaves no state behind: every caller returns
  the error at once.

  The lemmas show that the output is the consumed input (\<open>copies\<close>), that more fuel
  never changes an answer, and how much fuel is enough for a registry whose cycles all
  pass through an enum or a sequence.
\<close>

section \<open>Data\<close>

datatype phase = ApplyExtrinsic u32 | Finalization | Initialization

record raw_event =
  re_pallet :: string
  re_pallet_index :: u8
  re_variant :: string
  re_variant_index :: u8
  re_data :: bytes

datatype raw = Event raw_event | Error runtime_error

type_synonym io = "bytes \<times> bytes"

section \<open>Phases and dispatch errors\<close>

text \<open>\<^verbatim>\<open>derive(Decode)\<close> on the enum: an index byte in declaration order, then the fields.\<close>

definition decode_phase :: "scale \<Rightarrow> bytes \<Rightarrow> codec_error + (phase \<times> bytes)" where
  "decode_phase S input =
     (case read_byte S input of
        Inl e \<Rightarrow> Inl e
      | Inr (b, r) \<Rightarrow>
          (if b = 0 then map_sum id (map_prod ApplyExtrinsic id) (decode (c_u32 S) r)
           else if b = 1 then Inr (Finalization, r)
           else if b = 2 then Inr (Initialization, r)
           else Inl (no_variant S ''Phase'')))"

fun encode_phase :: "scale \<Rightarrow> phase \<Rightarrow> bytes" where
  "encode_phase S (ApplyExtrinsic n) = 0 # encode (c_u32 S) n"
| "encode_phase S Finalization = [1]"
| "encode_phase S Initialization = [2]"

definition from_dispatch :: "metadata \<Rightarrow> dispatch_error \<Rightarrow> (error, runtime_error) res" where
  "from_dispatch M e =
     (case e of
        dispatch_error.Module index err message \<Rightarrow>
          (case err of
             [] \<Rightarrow> Panic
           | err0 # _ \<Rightarrow>
               and_then (map_err error.Metadata (error M index err0)) (\<lambda>em.
               Ok (runtime_error.Module
                 \<lparr>pe_pallet = rm_pallet em, pe_error = rm_error em, pe_description = description em\<rparr>)))
      | dispatch_error.BadOrigin \<Rightarrow> Ok runtime_error.BadOrigin
      | dispatch_error.CannotLookup \<Rightarrow> Ok runtime_error.CannotLookup
      | dispatch_error.ConsumerRemaining \<Rightarrow> Ok runtime_error.ConsumerRemaining
      | dispatch_error.TooManyConsumers \<Rightarrow> Ok runtime_error.TooManyConsumers
      | dispatch_error.NoProviders \<Rightarrow> Ok runtime_error.NoProviders
      | dispatch_error.Arithmetic _ \<Rightarrow> Ok (runtime_error.Other ''math_error'')
      | dispatch_error.Token _ \<Rightarrow> Ok (runtime_error.Other ''token error'')
      | dispatch_error.Transactional _ \<Rightarrow> Ok (runtime_error.Other ''transactional error'')
      | dispatch_error.Other msg \<Rightarrow> Ok (runtime_error.Other msg))"

section \<open>Types\<close>

definition decode_raw :: "'a codec \<Rightarrow> io \<Rightarrow> (error, io) res" where
  "decode_raw T io =
     and_then (codec_try (decode T (fst io))) (\<lambda>(decoded, input). Ok (input, snd io @ encode T decoded))"

definition decode_primitive :: "scale \<Rightarrow> type_def_primitive \<Rightarrow> io \<Rightarrow> (error, io) res" where
  "decode_primitive S primitive =
     (case primitive of
        P_Bool \<Rightarrow> decode_raw (c_bool S)
      | P_Char \<Rightarrow> (\<lambda>_. Err (Decoding (UnsupportedPrimitive P_Char)))
      | P_Str \<Rightarrow> decode_raw (c_str S)
      | P_U8 \<Rightarrow> decode_raw (c_u8 S)
      | P_U16 \<Rightarrow> decode_raw (c_u16 S)
      | P_U32 \<Rightarrow> decode_raw (c_u32 S)
      | P_U64 \<Rightarrow> decode_raw (c_u64 S)
      | P_U128 \<Rightarrow> decode_raw (c_u128 S)
      | P_U256 \<Rightarrow> (\<lambda>_. Err (Decoding (UnsupportedPrimitive P_U256)))
      | P_I8 \<Rightarrow> decode_raw (c_i8 S)
      | P_I16 \<Rightarrow> decode_raw (c_i16 S)
      | P_I32 \<Rightarrow> decode_raw (c_i32 S)
      | P_I64 \<Rightarrow> decode_raw (c_i64 S)
      | P_I128 \<Rightarrow> decode_raw (c_i128 S)
      | P_I256 \<Rightarrow> (\<lambda>_. Err (Decoding (UnsupportedPrimitive P_I256))))"

definition decode_compact_primitive :: "scale \<Rightarrow> type_def_primitive \<Rightarrow> io \<Rightarrow> (error, io) res" where
  "decode_compact_primitive S primitive =
     (case primitive of
        P_U8 \<Rightarrow> decode_raw (c_compact_u8 S)
      | P_U16 \<Rightarrow> decode_raw (c_compact_u16 S)
      | P_U32 \<Rightarrow> decode_raw (c_compact_u32 S)
      | P_U64 \<Rightarrow> decode_raw (c_compact_u64 S)
      | P_U128 \<Rightarrow> decode_raw (c_compact_u128 S)
      | prim \<Rightarrow> (\<lambda>_. Err (Decoding (InvalidCompactPrimitive prim))))"

text \<open>\<^verbatim>\<open>self.metadata.resolve_type(id).ok_or(MetadataError::TypeNotFound(id))?\<close>\<close>

definition resolve_or_err :: "metadata \<Rightarrow> u32 \<Rightarrow> (error, type_info) res" where
  "resolve_or_err M type_id = ok_or (resolve_type M type_id) (error.Metadata (TypeNotFound type_id))"

text \<open>The arm of a compact type: it resolves the id of the compact type itself again.\<close>

definition decode_compact :: "scale \<Rightarrow> metadata \<Rightarrow> u32 \<Rightarrow> io \<Rightarrow> (error, io) res" where
  "decode_compact S M type_id io =
     and_then (resolve_or_err M type_id) (\<lambda>inner.
     case ty_def inner of
       Primitive primitive \<Rightarrow> decode_compact_primitive S primitive io
     | Composite fs \<Rightarrow>
         (case fs of
            [field] \<Rightarrow>
              and_then (resolve_or_err M field) (\<lambda>field_ty.
              case ty_def field_ty of
                Primitive primitive \<Rightarrow> decode_compact_primitive S primitive io
              | _ \<Rightarrow> Err (Decoding (InvalidCompactType ''Composite type must have a single primitive field'')))
          | _ \<Rightarrow> Err (Decoding (InvalidCompactType ''Composite type must have a single field'')))
     | _ \<Rightarrow> Err (Decoding (InvalidCompactType ''Compact type must be a primitive or a composite type'')))"

text \<open>\<^verbatim>\<open>variants().get(index as usize)\<close>: the variant at this position of the list.\<close>

definition variant_at :: "variant list \<Rightarrow> u8 \<Rightarrow> (error, variant) res" where
  "variant_at variants variant_index =
     ok_or (if unat variant_index < length variants then Some (variants ! unat variant_index) else None)
       (error.Other (''Variant '' @ show_nat (unat variant_index) @ '' not found''))"

text \<open>The body of \<^verbatim>\<open>decode_type\<close>; its recursive calls are calls of \<open>rec\<close>.\<close>

definition decode_type_body ::
    "scale \<Rightarrow> metadata \<Rightarrow> (u32 \<Rightarrow> io \<Rightarrow> (error, io) res) \<Rightarrow> u32 \<Rightarrow> io \<Rightarrow> (error, io) res" where
  "decode_type_body S M rec type_id io =
     and_then (resolve_or_err M type_id) (\<lambda>ty.
     case ty_def ty of
       Composite fs \<Rightarrow> for_each rec fs io
     | Variant variants \<Rightarrow>
         and_then (codec_try (decode (c_u8 S) (fst io))) (\<lambda>(variant_index, input).
         let output = snd io @ encode (c_u8 S) variant_index in
         and_then (variant_at variants variant_index) (\<lambda>variant.
         for_each rec (v_fields variant) (input, output)))
     | Sequence seq \<Rightarrow>
         and_then (codec_try (decode (c_compact_u32 S) (fst io))) (\<lambda>(len, input).
         let output = snd io @ encode (c_compact_u32 S) len in
         for_n (rec seq) (unat len) (input, output))
     | Array len elem \<Rightarrow> for_n (rec elem) (unat len) io
     | Tuple fs \<Rightarrow> for_each rec fs io
     | Primitive primitive \<Rightarrow> decode_primitive S primitive io
     | Compact _ \<Rightarrow> decode_compact S M type_id io
     | BitSequence \<Rightarrow> Panic)"

primrec decode_type :: "nat \<Rightarrow> scale \<Rightarrow> metadata \<Rightarrow> u32 \<Rightarrow> io \<Rightarrow> (error, io) res" where
  "decode_type 0 S M type_id io = OutOfFuel"
| "decode_type (Suc fuel) S M type_id io = decode_type_body S M (decode_type fuel S M) type_id io"

lemma decode_type_numeral [ref_eval]:
  "decode_type (numeral k) S M t io = decode_type_body S M (decode_type (pred_numeral k) S M) t io"
  by (simp only: numeral_eq_Suc [of k] decode_type.simps)

section \<open>Events and calls\<close>

text \<open>The state of \<^verbatim>\<open>decode_raw_event\<close>: input, output and the errors collected.\<close>

definition raw_event_arg ::
    "nat \<Rightarrow> scale \<Rightarrow> metadata \<Rightarrow> event_metadata \<Rightarrow> u32 \<Rightarrow> io \<times> runtime_error list \<Rightarrow>
       (error, io \<times> runtime_error list) res" where
  "raw_event_arg fuel S M em type_id st =
     (let decode_it = map_ok (\<lambda>io. (io, snd st)) (decode_type fuel S M type_id (fst st)) in
      if em_pallet em = ''System'' \<and> em_event em = ''ExtrinsicFailed'' then
        and_then (resolve_or_err M type_id) (\<lambda>ty.
        if ty_ident ty = Some ''DispatchError'' then
          and_then (codec_try (decode (c_dispatch S) (fst (fst st)))) (\<lambda>(dispatch_error, input).
          let output = snd (fst st) @ encode (c_dispatch S) dispatch_error in
          and_then (from_dispatch M dispatch_error) (\<lambda>runtime_error.
          Ok ((input, output), snd st @ [runtime_error])))
        else decode_it)
      else decode_it)"

definition decode_raw_event ::
    "nat \<Rightarrow> scale \<Rightarrow> metadata \<Rightarrow> event_metadata \<Rightarrow> io \<times> runtime_error list \<Rightarrow>
       (error, io \<times> runtime_error list) res" where
  "decode_raw_event fuel S M em st = for_each (raw_event_arg fuel S M em) (v_fields (em_variant em)) st"

text \<open>One iteration of the loop of \<^verbatim>\<open>decode_events\<close>, over the input and the results.\<close>

definition decode_event_record ::
    "nat \<Rightarrow> scale \<Rightarrow> metadata \<Rightarrow> bytes \<times> (phase \<times> raw) list \<Rightarrow> (error, bytes \<times> (phase \<times> raw) list) res" where
  "decode_event_record fuel S M st =
     and_then (codec_try (decode_phase S (fst st))) (\<lambda>(phase, input).
     and_then (codec_try (read_byte S input)) (\<lambda>(pallet_index, input).
     and_then (codec_try (read_byte S input)) (\<lambda>(variant_index, input).
     and_then (map_err error.Metadata (event M pallet_index variant_index)) (\<lambda>em.
     and_then (decode_raw_event fuel S M em ((input, []), [])) (\<lambda>((input, event_data), event_errors).
     let ev = \<lparr>re_pallet = em_pallet em, re_pallet_index = pallet_index, re_variant = em_event em,
               re_variant_index = variant_index, re_data = event_data\<rparr> in
     and_then (codec_try (decode (c_hash_vec S) input)) (\<lambda>(topics, input).
     let r = (if event_errors = [] then snd st @ [(phase, Event ev)] else snd st);
         r = r @ map (\<lambda>err. (phase, Error err)) event_errors
     in Ok (input, r)))))))"

definition decode_events ::
    "nat \<Rightarrow> scale \<Rightarrow> metadata \<Rightarrow> bytes \<Rightarrow> (error, (phase \<times> raw) list \<times> bytes) res" where
  "decode_events fuel S M input =
     and_then (codec_try (decode (c_compact_u32 S) input)) (\<lambda>(len, input).
     map_ok (\<lambda>(input, r). (r, input)) (for_n (decode_event_record fuel S M) (unat len) (input, [])))"

definition decode_call :: "nat \<Rightarrow> scale \<Rightarrow> metadata \<Rightarrow> bytes \<Rightarrow> (error, bytes) res" where
  "decode_call fuel S M input =
     and_then (codec_try (read_byte S input)) (\<lambda>(pallet_index, input).
     and_then (codec_try (read_byte S input)) (\<lambda>(variant_index, input).
     and_then (map_err error.Metadata (call M pallet_index variant_index)) (\<lambda>cm.
     map_ok fst (for_each (decode_type fuel S M) (v_fields (cm_variant cm)) (input, [])))))"

definition decode_raw_enum ::
    "scale \<Rightarrow> (u8 \<Rightarrow> bytes \<Rightarrow> codec_error + ('t \<times> bytes)) \<Rightarrow> bytes \<Rightarrow> (codec_error, 't \<times> bytes) res" where
  "decode_raw_enum S f input = and_then (lift (read_byte S input)) (\<lambda>(b, input). lift (f b input))"

section \<open>Keys\<close>

definition extract_identifier_from_concated_key ::
    "scale \<Rightarrow> storage_hasher \<Rightarrow> bytes \<Rightarrow> (codec_error, bytes) res" where
  "extract_identifier_from_concated_key S hasher input =
     (case hasher of
        Blake2_128Concat \<Rightarrow> map_ok snd (lift (read_buf S 16 input))
      | Twox64Concat \<Rightarrow> map_ok snd (lift (read_buf S 8 input))
      | _ \<Rightarrow> Err (CodecError ''Couldn't extract identifier from a non-concated storage key''))"

definition extract_map_identifier ::
    "scale \<Rightarrow> 't codec \<Rightarrow> storage_hasher \<Rightarrow> bytes \<Rightarrow> (error, 't \<times> bytes) res" where
  "extract_map_identifier S T hasher input =
     and_then (codec_try (read_buf S 32 input)) (\<lambda>(_, input).
     and_then (map_err Codec (extract_identifier_from_concated_key S hasher input)) (\<lambda>input.
     codec_try (decode T input)))"

definition extract_double_map_identifier ::
    "scale \<Rightarrow> 't codec \<Rightarrow> 'k codec \<Rightarrow> storage_hasher \<Rightarrow> storage_hasher \<Rightarrow> 'k \<Rightarrow> bytes \<Rightarrow>
       (error, 't \<times> bytes) res" where
  "extract_double_map_identifier S T K first_hasher second_hasher first_key input =
     and_then (codec_try (read_buf S 32 input)) (\<lambda>(_, input).
     and_then (map_err Codec (extract_identifier_from_concated_key S first_hasher input)) (\<lambda>input.
     and_then (codec_try (read_buf S (length (encode K first_key)) input)) (\<lambda>(_, input).
     and_then (map_err Codec (extract_identifier_from_concated_key S second_hasher input)) (\<lambda>input.
     codec_try (decode T input)))))"

section \<open>The output is the consumed input\<close>

definition copies :: "io \<Rightarrow> io \<Rightarrow> bool" where
  "copies io io' \<longleftrightarrow> (\<exists>c. fst io = c @ fst io' \<and> snd io' = snd io @ c)"

lemma copies_refl [intro]: "copies io io"
  by (simp add: copies_def)

lemma copies_trans: "copies a b \<Longrightarrow> copies b c \<Longrightarrow> copies a c"
  by (auto simp: copies_def)

lemma copies_shorter: "copies io io' \<Longrightarrow> length (fst io') \<le> length (fst io)"
  by (auto simp: copies_def)

lemma copies_encode:
  "exact_codec T \<Longrightarrow> decode T i = Inr (x, i') \<Longrightarrow> copies (i, out) (i', out @ encode T x)"
  by (auto simp: copies_def dest: exact_codec.decode_exact)

text \<open>
  The contract of one step of a walk over input and output: what it takes from the
  input it appends to the output. Loops over such steps keep it.
\<close>

locale copying =
  fixes f :: "'x \<Rightarrow> io \<Rightarrow> ('e, io) res"
  assumes step_copies: "f x io = Ok io' \<Longrightarrow> copies io io'"
begin

lemma for_each_copies: "for_each f xs io = Ok io' \<Longrightarrow> copies io io'"
  by (induction xs arbitrary: io) (auto dest: step_copies intro: copies_trans)

lemma for_n_copies: "for_n (f x) n io = Ok io' \<Longrightarrow> copies io io'"
  by (simp add: for_n_for_each for_each_copies)

lemma for_each_returns:
  assumes "\<And>x io. x \<in> set xs \<Longrightarrow> length (fst io) \<le> L \<Longrightarrow> f x io \<noteq> OutOfFuel"
    and "length (fst io) \<le> L"
  shows "for_each f xs io \<noteq> OutOfFuel"
  using assms
proof (induction xs arbitrary: io)
  case (Cons x xs)
  have "for_each f xs io' \<noteq> OutOfFuel" if "f x io = Ok io'" for io'
    using Cons.IH [of io'] Cons.prems copies_shorter [OF step_copies [OF that]] by simp
  with Cons.prems show ?case by (auto simp: and_then_OutOfFuel_iff)
qed simp

lemma for_n_returns:
  assumes "\<And>io. length (fst io) \<le> L \<Longrightarrow> f x io \<noteq> OutOfFuel" and "length (fst io) \<le> L"
  shows "for_n (f x) n io \<noteq> OutOfFuel"
  unfolding for_n_for_each by (rule for_each_returns [OF _ assms(2)]) (auto dest: assms(1))

end

context scale_laws
begin

lemma decode_raw_copies: "exact_codec T \<Longrightarrow> decode_raw T io = Ok io' \<Longrightarrow> copies io io'"
  by (cases io) (auto simp: decode_raw_def intro: copies_encode)

lemma decode_primitive_copies: "decode_primitive S p io = Ok io' \<Longrightarrow> copies io io'"
  by (cases p) (auto simp: decode_primitive_def elim: decode_raw_copies [rotated] intro: scale_exact)

lemma decode_compact_primitive_copies: "decode_compact_primitive S p io = Ok io' \<Longrightarrow> copies io io'"
  by (cases p) (auto simp: decode_compact_primitive_def elim: decode_raw_copies [rotated] intro: scale_exact)

lemma decode_compact_copies: "decode_compact S M t io = Ok io' \<Longrightarrow> copies io io'"
  by (auto simp: decode_compact_def simp del: and_then_Ok_iff elim!: res_dest
      split: type_def.splits list.splits) (erule decode_compact_primitive_copies)+

lemma decode_type_body_copies:
  assumes rec: "copying rec" and ok: "decode_type_body S M rec t io = Ok io'"
  shows "copies io io'"
proof -
  note loops = copying.for_each_copies [OF rec] copying.for_n_copies [OF rec]
  obtain i out where io: "io = (i, out)" by force
  from ok obtain ty where ty: "resolve_or_err M t = Ok ty" by (auto simp: decode_type_body_def)
  show ?thesis
  proof (cases "ty_def ty")
    case (Variant vs)
    with ok ty io obtain b i1 and v :: variant
      where b: "decode (c_u8 S) i = Inr (b, i1)"
      and rest: "for_each rec (v_fields v) (i1, out @ encode (c_u8 S) b) = Ok io'"
      by (auto simp: decode_type_body_def Let_def)
    from b have "copies io (i1, out @ encode (c_u8 S) b)"
      unfolding io by (intro copies_encode scale_exact)
    then show ?thesis using loops(1) [OF rest] by (rule copies_trans)
  next
    case (Sequence e)
    with ok ty io obtain k i1 where k: "decode (c_compact_u32 S) i = Inr (k, i1)"
      and rest: "for_n (rec e) (unat k) (i1, out @ encode (c_compact_u32 S) k) = Ok io'"
      by (auto simp: decode_type_body_def Let_def)
    from k have "copies io (i1, out @ encode (c_compact_u32 S) k)"
      unfolding io by (intro copies_encode scale_exact)
    then show ?thesis using loops(2) [OF rest] by (rule copies_trans)
  qed (use ok ty loops in \<open>auto simp: decode_type_body_def dest: decode_primitive_copies decode_compact_copies\<close>)
qed

lemma decode_type_copies: "decode_type n S M t io = Ok io' \<Longrightarrow> copies io io'"
proof (induction n arbitrary: t io io')
  case (Suc n)
  have "copying (decode_type n S M)" by unfold_locales (rule Suc.IH)
  then show ?case using Suc.prems by (auto intro: decode_type_body_copies)
qed simp

end

sublocale scale_laws \<subseteq> type_step: copying "decode_type n S M" for n M
  by unfold_locales (rule decode_type_copies)

interpretation ref_step: copying "decode_type n scale_ref M" for n M
  by unfold_locales (rule scale_fmt.decode_type_copies)

section \<open>Fuel\<close>

text \<open>More fuel never changes an answer.\<close>

lemma for_each_mono:
  assumes "\<And>x s. f x s \<noteq> OutOfFuel \<Longrightarrow> g x s = f x s" and "for_each f xs s \<noteq> OutOfFuel"
  shows "for_each g xs s = for_each f xs s"
  using assms(2)
proof (induction xs arbitrary: s)
  case (Cons x xs)
  then have "g x s = f x s" by (auto simp: and_then_OutOfFuel_iff intro!: assms(1))
  with Cons show ?case by (cases "f x s") auto
qed simp

lemma decode_type_body_mono:
  assumes "\<And>x s. f x s \<noteq> OutOfFuel \<Longrightarrow> g x s = f x s"
    and "decode_type_body S M f t io \<noteq> OutOfFuel"
  shows "decode_type_body S M g t io = decode_type_body S M f t io"
proof (cases "resolve_or_err M t")
  case (Ok ty)
  note loop = for_each_mono [where f = f and g = g, OF assms(1)]
  show ?thesis
    using assms(2) Ok unfolding decode_type_body_def for_n_for_each
    by (cases "ty_def ty")
      (auto simp: Let_def loop and_then_OutOfFuel_iff intro!: and_then_cong)
qed (simp_all add: decode_type_body_def)

lemma decode_type_more_fuel:
  "decode_type n S M t io \<noteq> OutOfFuel \<Longrightarrow> decode_type (Suc n) S M t io = decode_type n S M t io"
proof (induction n arbitrary: t io)
  case (Suc n)
  then show ?case
    using decode_type_body_mono [of "decode_type n S M" "decode_type (Suc n) S M"] by simp
qed simp

lemma decode_type_fuel_mono:
  assumes "decode_type n S M t io \<noteq> OutOfFuel" and "n \<le> k"
  shows "decode_type k S M t io = decode_type n S M t io"
  using assms(2)
proof (induction k rule: dec_induct)
  case (step k)
  with assms(1) show ?case using decode_type_more_fuel [of k S M t io] by simp
qed simp

text \<open>
  The types a walk enters without reading a byte first. A registry is guarded when
  these references alone have no cycle: \<open>rank\<close> falls along each of them.
\<close>

definition flat_children :: "type_def \<Rightarrow> u32 list" where
  "flat_children d =
     (case d of Composite fs \<Rightarrow> fs | Tuple fs \<Rightarrow> fs | Array _ elem \<Rightarrow> [elem] | _ \<Rightarrow> [])"

definition guarded :: "registry \<Rightarrow> (u32 \<Rightarrow> nat) \<Rightarrow> nat \<Rightarrow> bool" where
  "guarded R rank N \<longleftrightarrow>
     (\<forall>t. rank t < N) \<and>
     (\<forall>t ty. R t = Some ty \<longrightarrow> (\<forall>c \<in> set (flat_children (ty_def ty)). rank c < rank t))"

text \<open>Levels of recursion that are enough for an input of \<open>len\<close> bytes.\<close>

definition enough_fuel :: "nat \<Rightarrow> nat \<Rightarrow> nat" where
  "enough_fuel N len = Suc len * N"

lemma resolve_or_err_returns [simp]: "resolve_or_err M t \<noteq> OutOfFuel" "resolve_or_err M t \<noteq> Panic"
  by (simp_all add: resolve_or_err_def)

lemma decode_raw_returns [simp]: "decode_raw T io \<noteq> OutOfFuel"
  by (auto simp: decode_raw_def and_then_OutOfFuel_iff)

lemma decode_primitive_returns [simp]: "decode_primitive S p io \<noteq> OutOfFuel"
  by (cases p) (simp_all add: decode_primitive_def)

lemma decode_compact_primitive_returns [simp]: "decode_compact_primitive S p io \<noteq> OutOfFuel"
  by (cases p) (simp_all add: decode_compact_primitive_def)

lemma decode_compact_returns [simp]: "decode_compact S M t io \<noteq> OutOfFuel"
  by (auto simp: decode_compact_def and_then_OutOfFuel_iff split: type_def.splits list.splits)

lemma variant_at_returns [simp]: "variant_at vs b \<noteq> OutOfFuel"
  by (simp add: variant_at_def)

context scale_laws
begin

lemma decode_nonempty_shorter:
  assumes "exact_codec T" and "\<And>x. encode T x \<noteq> []" and "decode T i = Inr (x, i')"
  shows "length i' < length i"
  using exact_codec.decode_exact [OF assms(1,3)] assms(2) [of x] by simp

lemma decode_type_body_returns:
  assumes rec: "copying rec"
    and flat: "\<And>ty c io'. resolve_type M t = Some ty \<Longrightarrow> c \<in> set (flat_children (ty_def ty)) \<Longrightarrow>
      length (fst io') \<le> length (fst io) \<Longrightarrow> rec c io' \<noteq> OutOfFuel"
    and shorter: "\<And>c io'. length (fst io') < length (fst io) \<Longrightarrow> rec c io' \<noteq> OutOfFuel"
  shows "decode_type_body S M rec t io \<noteq> OutOfFuel"
proof (cases "resolve_type M t")
  case None
  then show ?thesis by (simp add: decode_type_body_def resolve_or_err_def)
next
  case (Some ty)
  have flat_each: "for_each rec (flat_children (ty_def ty)) io \<noteq> OutOfFuel"
    by (rule copying.for_each_returns [OF rec, where L = "length (fst io)"]) (simp_all add: flat [OF Some])
  have flat_repeat: "for_n (rec c) k io \<noteq> OutOfFuel" if "c \<in> set (flat_children (ty_def ty))" for c k
    by (rule copying.for_n_returns [OF rec, where L = "length (fst io)"]) (simp_all add: flat [OF Some that])
  have sub_each: "for_each rec xs io' \<noteq> OutOfFuel"
    and sub_repeat: "for_n (rec x) k io' \<noteq> OutOfFuel" if "length (fst io') < length (fst io)" for xs x k io'
    using copying.for_each_returns [OF rec, where L = "length (fst io')"]
      copying.for_n_returns [OF rec, where L = "length (fst io')"] shorter that by auto
  have u8: "length i' < length (fst io)" if "decode (c_u8 S) (fst io) = Inr (b, i')" for b i'
    using that by (rule decode_nonempty_shorter [rotated 2]) (auto intro: scale_exact simp: u8_nonempty)
  have u32: "length i' < length (fst io)" if "decode (c_compact_u32 S) (fst io) = Inr (k, i')" for k i'
    using that by (rule decode_nonempty_shorter [rotated 2]) (auto intro: scale_exact simp: compact_u32_nonempty)
  show ?thesis
  proof (cases "ty_def ty")
    case (Variant vs)
    with Some show ?thesis
      by (auto simp: decode_type_body_def resolve_or_err_def and_then_OutOfFuel_iff Let_def sub_each u8)
  next
    case (Sequence e)
    with Some show ?thesis
      by (auto simp: decode_type_body_def resolve_or_err_def and_then_OutOfFuel_iff Let_def sub_repeat u32)
  qed (use Some flat_each flat_repeat in
      \<open>auto simp: decode_type_body_def resolve_or_err_def flat_children_def\<close>)
qed

lemma decode_type_enough:
  assumes "guarded (types (md_runtime M)) rank N"
  shows "length (fst io) * N + rank t < n \<Longrightarrow> decode_type n S M t io \<noteq> OutOfFuel"
proof (induction n arbitrary: t io)
  case (Suc n)
  have N: "rank c < N" for c using assms by (simp add: guarded_def)
  have "decode_type_body S M (decode_type n S M) t io \<noteq> OutOfFuel"
  proof (rule decode_type_body_returns)
    show "copying (decode_type n S M)" by unfold_locales
  next
    fix ty c and io' :: io
    assume "resolve_type M t = Some ty" and "c \<in> set (flat_children (ty_def ty))"
      and len: "length (fst io') \<le> length (fst io)"
    then have "rank c < rank t"
      using assms by (auto simp: guarded_def resolve_type_def)
    moreover have "length (fst io') * N \<le> length (fst io) * N" using len by simp
    ultimately show "decode_type n S M c io' \<noteq> OutOfFuel"
      using Suc.prems by (intro Suc.IH) linarith
  next
    fix c and io' :: io
    assume "length (fst io') < length (fst io)"
    then have "Suc (length (fst io')) * N \<le> length (fst io) * N" by (intro mult_le_mono1) simp
    then show "decode_type n S M c io' \<noteq> OutOfFuel"
      using Suc.prems N [of c] by (intro Suc.IH) simp
  qed
  then show ?case by simp
qed simp

lemma decode_type_enough_fuel:
  assumes "guarded (types (md_runtime M)) rank N" and "enough_fuel N (length (fst io)) \<le> n"
  shows "decode_type n S M t io \<noteq> OutOfFuel"
proof (rule decode_type_enough [OF assms(1)])
  have "rank t < N" using assms(1) by (simp add: guarded_def)
  then show "length (fst io) * N + rank t < n" using assms(2) by (simp add: enough_fuel_def)
qed

end

section \<open>Event records\<close>

text \<open>One record of the event log of a block, with what its data decodes to.\<close>

record event_record =
  er_phase :: phase
  er_pallet :: u8
  er_variant :: u8
  er_meta :: event_metadata
  er_data :: bytes
  er_errors :: "runtime_error list"
  er_topics :: "hash list"

definition event_wire :: "scale \<Rightarrow> event_record \<Rightarrow> bytes" where
  "event_wire S e =
     encode_phase S (er_phase e) @ [er_pallet e, er_variant e] @ er_data e @
     encode (c_hash_vec S) (er_topics e)"

text \<open>What the client reports: the event, or in its place the errors it carries.\<close>

definition event_report :: "event_record \<Rightarrow> (phase \<times> raw) list" where
  "event_report e =
     (if er_errors e = [] then
        [(er_phase e, Event \<lparr>re_pallet = em_pallet (er_meta e), re_pallet_index = er_pallet e,
            re_variant = em_event (er_meta e), re_variant_index = er_variant e, re_data = er_data e\<rparr>)]
      else map (\<lambda>err. (er_phase e, Error err)) (er_errors e))"

definition event_decodes :: "nat \<Rightarrow> scale \<Rightarrow> metadata \<Rightarrow> event_record \<Rightarrow> bool" where
  "event_decodes n S M e \<longleftrightarrow>
     event M (er_pallet e) (er_variant e) = Ok (er_meta e) \<and>
     (\<forall>rest. decode_raw_event n S M (er_meta e) ((er_data e @ rest, []), []) =
        Ok ((rest, er_data e), er_errors e)) \<and>
     length (er_topics e) < 2 ^ 32 \<and> (\<forall>h \<in> set (er_topics e). length h = 32)"

context scale_laws
begin

lemma decode_phase_encode: "decode_phase S (encode_phase S p @ r) = Inr (p, r)"
  by (cases p)
    (simp_all add: decode_phase_def read_byte_Cons roundtrip_codec.decode_encode [OF scale_roundtrip(2)])

lemma decode_event_record_wire:
  assumes "event_decodes n S M e"
  shows "decode_event_record n S M (event_wire S e @ rest, r) = Ok (rest, r @ event_report e)"
  using assms
  by (simp add: event_decodes_def decode_event_record_def event_wire_def event_report_def Let_def
      decode_phase_encode read_byte_Cons roundtrip_codec.decode_encode [OF scale_roundtrip(6)])

lemma decode_event_records:
  assumes "\<forall>e \<in> set es. event_decodes n S M e"
  shows "for_n (decode_event_record n S M) (length es) (concat (map (event_wire S) es) @ rest, r) =
    Ok (rest, r @ concat (map event_report es))"
  using assms by (induction es arbitrary: r) (simp_all add: decode_event_record_wire)

lemma decode_events_wire:
  assumes "\<forall>e \<in> set es. event_decodes n S M e" and "length es < 2 ^ 32"
  shows "decode_events n S M
      (encode (c_compact_u32 S) (of_nat (length es)) @ concat (map (event_wire S) es) @ rest) =
    Ok (concat (map event_report es), rest)"
  using assms
  by (simp add: decode_events_def roundtrip_codec.decode_encode [OF scale_roundtrip(4)]
      decode_event_records unat_of_nat)

section \<open>Identifiers in storage keys\<close>

lemma extract_identifier_append:
  "concat_hasher h \<Longrightarrow> length x = hash_part_size h \<Longrightarrow>
     extract_identifier_from_concated_key S h (x @ r) = Ok r"
  by (auto simp: concat_hasher_def hash_part_size_def extract_identifier_from_concated_key_def
      read_buf_append)

lemma extract_identifier_key_hash:
  assumes "concat_hasher h" and "hash_sizes H"
  shows "extract_identifier_from_concated_key S h (key_hash H K key h @ r) = Ok (encode K key @ r)"
  using assms by (simp add: key_hash_concat extract_identifier_append length_hash_part)

lemma extract_map_identifier_key:
  assumes "concat_hasher h" and "hash_sizes H" and "roundtrip_codec K ok" and "ok key"
  shows "extract_map_identifier S K h (key_prefix H p e @ key_hash H K key h @ r) = Ok (key, r)"
  using assms
  by (simp add: extract_map_identifier_def read_buf_append length_key_prefix
      extract_identifier_key_hash roundtrip_codec.decode_encode)

lemma extract_double_map_identifier_key:
  assumes "concat_hasher h1" and "concat_hasher h2" and "hash_sizes H"
    and "roundtrip_codec T ok" and "ok key2"
  shows "extract_double_map_identifier S T K h1 h2 key1
      (key_prefix H p e @ key_hash H K key1 h1 @ key_hash H T key2 h2 @ r) = Ok (key2, r)"
  using assms
  by (simp add: extract_double_map_identifier_def read_buf_append length_key_prefix
      extract_identifier_key_hash roundtrip_codec.decode_encode)

lemma extract_identifier_other_hasher:
  "\<not> concat_hasher h \<Longrightarrow> extract_identifier_from_concated_key S h input =
     Err (CodecError ''Couldn't extract identifier from a non-concated storage key'')"
  by (cases h) (auto simp: concat_hasher_def extract_identifier_from_concated_key_def)

end

end
