(* ===== verification/Wire.thy ===== *)
theory Wire
  imports Decoder
begin

text \<open>
  The abstract specification of the type decoder: the grammar of the encodings of a type,
  read off the registry (\<open>wire\<close>), and the proof that \<^verbatim>\<open>decode_type\<close> accepts exactly the
  inputs that start with a word of the grammar and takes that word
  (\<open>decode_type_iff_wire\<close>). The grammar has no word for the types the decoder refuses
  (\<^verbatim>\<open>Char\<close>, the 256-bit integers, compact types and bit sequences).
\<close>

section \<open>The grammar\<close>

definition valid :: "'a codec \<Rightarrow> bytes \<Rightarrow> bool" where
  "valid T c \<longleftrightarrow> (\<exists>x. decode T c = Inr (x, []))"

definition prim_wire :: "scale \<Rightarrow> type_def_primitive \<Rightarrow> bytes \<Rightarrow> bool" where
  "prim_wire S p =
     (case p of
        P_Bool \<Rightarrow> valid (c_bool S) | P_Str \<Rightarrow> valid (c_str S)
      | P_U8 \<Rightarrow> valid (c_u8 S) | P_U16 \<Rightarrow> valid (c_u16 S) | P_U32 \<Rightarrow> valid (c_u32 S)
      | P_U64 \<Rightarrow> valid (c_u64 S) | P_U128 \<Rightarrow> valid (c_u128 S)
      | P_I8 \<Rightarrow> valid (c_i8 S) | P_I16 \<Rightarrow> valid (c_i16 S) | P_I32 \<Rightarrow> valid (c_i32 S)
      | P_I64 \<Rightarrow> valid (c_i64 S) | P_I128 \<Rightarrow> valid (c_i128 S)
      | _ \<Rightarrow> (\<lambda>_. False))"

inductive wire :: "scale \<Rightarrow> registry \<Rightarrow> u32 \<Rightarrow> bytes \<Rightarrow> bool"
  and wires :: "scale \<Rightarrow> registry \<Rightarrow> u32 list \<Rightarrow> bytes \<Rightarrow> bool" for S R where
  composite: "R t = Some ty \<Longrightarrow> ty_def ty = Composite fs \<Longrightarrow> wires S R fs c \<Longrightarrow> wire S R t c"
| tuple: "R t = Some ty \<Longrightarrow> ty_def ty = Tuple fs \<Longrightarrow> wires S R fs c \<Longrightarrow> wire S R t c"
| array: "R t = Some ty \<Longrightarrow> ty_def ty = Array k e \<Longrightarrow> wires S R (replicate (unat k) e) c \<Longrightarrow> wire S R t c"
| sequence: "R t = Some ty \<Longrightarrow> ty_def ty = Sequence e \<Longrightarrow> wires S R (replicate (unat k) e) c \<Longrightarrow>
    wire S R t (encode (c_compact_u32 S) k @ c)"
| enum: "R t = Some ty \<Longrightarrow> ty_def ty = Variant vs \<Longrightarrow> unat b < length vs \<Longrightarrow>
    wires S R (v_fields (vs ! unat b)) c \<Longrightarrow> wire S R t (encode (c_u8 S) b @ c)"
| primitive: "R t = Some ty \<Longrightarrow> ty_def ty = Primitive p \<Longrightarrow> prim_wire S p c \<Longrightarrow> wire S R t c"
| wires_nil: "wires S R [] []"
| wires_cons: "wire S R t c \<Longrightarrow> wires S R ts d \<Longrightarrow> wires S R (t # ts) (c @ d)"

inductive_simps wires_simps: "wires S R [] c" "wires S R (t # ts) c"
inductive_cases wireE: "wire S R t c"

text \<open>
  A codec whose answer depends on the bytes it reads only. The codecs of the primitive
  types are such.
\<close>

locale local_codec = exact_codec c for c :: "'a codec" +
  assumes decode_local: "decode c bs = Inr (x, r) \<Longrightarrow> decode c (encode c x @ r') = Inr (x, r')"
begin

lemma decode_valid:
  assumes "decode c bs = Inr (x, r)"
  shows "valid c (encode c x)"
  using decode_local [OF assms, of "[]"] by (auto simp: valid_def)

lemma valid_decode:
  assumes "valid c w"
  shows "\<exists>x. w = encode c x \<and> (\<forall>r. decode c (w @ r) = Inr (x, r))"
proof -
  from assms obtain x where x: "decode c w = Inr (x, [])" by (auto simp: valid_def)
  with decode_exact [OF x] decode_local [OF x] show ?thesis by auto
qed

end

lemma local_of_lawful: "lawful_codec c (\<lambda>_. True) \<Longrightarrow> local_codec c"
  by (simp add: lawful_codec_def local_codec_def local_codec_axioms_def roundtrip_codec_def)

locale scale_grammar = scale_laws +
  assumes bool_local: "local_codec (c_bool S)"
    and str_local: "local_codec (c_str S)"
    and u16_local: "local_codec (c_u16 S)"
    and u64_local: "local_codec (c_u64 S)"
    and i8_local: "local_codec (c_i8 S)"
    and i16_local: "local_codec (c_i16 S)"
    and i32_local: "local_codec (c_i32 S)"
    and i64_local: "local_codec (c_i64 S)"
    and i128_local: "local_codec (c_i128 S)"
begin

lemmas prim_local =
  bool_local str_local u16_local u64_local i8_local i16_local i32_local i64_local i128_local
  u8_lawful [THEN local_of_lawful] u32_lawful [THEN local_of_lawful] u128_lawful [THEN local_of_lawful]

lemma decode_raw_sound:
  assumes "local_codec T" and "decode_raw T (input, out) = Ok (input', out')"
  shows "\<exists>c. input = c @ input' \<and> valid T c"
proof -
  from assms(2) obtain x where x: "decode T input = Inr (x, input')"
    by (auto simp: decode_raw_def)
  have "exact_codec T" using assms(1) by (rule local_codec.axioms)
  from exact_codec.decode_exact [OF this x] local_codec.decode_valid [OF assms(1) x]
  show ?thesis by auto
qed

lemma decode_raw_complete:
  assumes "local_codec T" and "valid T c"
  shows "decode_raw T (c @ rest, out) = Ok (rest, out @ c)"
  using local_codec.valid_decode [OF assms] by (auto simp: decode_raw_def)

lemma decode_primitive_sound:
  "decode_primitive S p (input, out) = Ok (input', out') \<Longrightarrow> \<exists>c. input = c @ input' \<and> prim_wire S p c"
  by (cases p) (auto simp: decode_primitive_def prim_wire_def prim_local dest!: decode_raw_sound [rotated])

lemma decode_primitive_complete:
  "prim_wire S p c \<Longrightarrow> decode_primitive S p (c @ rest, out) = Ok (rest, out @ c)"
  by (cases p) (auto simp: decode_primitive_def prim_wire_def prim_local decode_raw_complete)

end

section \<open>The decoder accepts the grammar\<close>

lemma decode_compact_never_Ok:
  assumes "resolve_type M t = Some ty" and "ty_def ty = Compact p"
  shows "decode_compact S M t io \<noteq> Ok io'"
  using assms by (simp add: decode_compact_def resolve_or_err_def)

text \<open>What a step that reads words of a grammar does over a list.\<close>

lemma for_each_sound:
  assumes "\<And>t i out i' out'. f t (i, out) = Ok (i', out') \<Longrightarrow> \<exists>c. i = c @ i' \<and> wire S R t c"
  shows "for_each f ts (i, out) = Ok (i', out') \<Longrightarrow> \<exists>c. i = c @ i' \<and> wires S R ts c"
proof (induction ts arbitrary: i out)
  case Nil
  then show ?case by (simp add: wires_simps)
next
  case (Cons t ts)
  then obtain i1 out1 where f: "f t (i, out) = Ok (i1, out1)" and fs: "for_each f ts (i1, out1) = Ok (i', out')"
    by auto
  from assms [OF f] Cons.IH [OF fs] show ?case by (auto simp: wires_simps) blast
qed

context scale_grammar
begin

lemma decode_type_body_sound:
  assumes rec: "\<And>t i out i' out'. rec t (i, out) = Ok (i', out') \<Longrightarrow>
      \<exists>c. i = c @ i' \<and> wire S (types (md_runtime M)) t c"
    and ok: "decode_type_body S M rec t (i, out) = Ok (i', out')"
  shows "\<exists>c. i = c @ i' \<and> wire S (types (md_runtime M)) t c"
proof -
  have each: "\<exists>c. j = c @ j' \<and> wires S (types (md_runtime M)) ts c"
    if "for_each rec ts (j, out) = Ok (j', out')" for ts j j' out out'
    using rec that by (rule for_each_sound)
  from ok obtain ty where r: "resolve_type M t = Some ty"
    by (auto simp: decode_type_body_def resolve_or_err_def)
  then have R: "types (md_runtime M) t = Some ty" by (simp add: resolve_type_def)
  note body = ok [unfolded decode_type_body_def for_n_for_each]
  show ?thesis
  proof (cases "ty_def ty")
    case (Variant vs)
    with body r obtain b i1 where b: "decode (c_u8 S) i = Inr (b, i1)" and lt: "unat b < length vs"
      and rest: "for_each rec (v_fields (vs ! unat b)) (i1, out @ encode (c_u8 S) b) = Ok (i', out')"
      by (auto simp: resolve_or_err_def Let_def variant_at_def split: if_splits)
    from b have "i = encode (c_u8 S) b @ i1"
      by (intro exact_codec.decode_exact scale_exact)
    with each [OF rest] enum [where R = "types (md_runtime M)", OF R Variant lt] show ?thesis by fastforce
  next
    case (Sequence e)
    with body r obtain k i1 where k: "decode (c_compact_u32 S) i = Inr (k, i1)"
      and rest: "for_each rec (replicate (unat k) e) (i1, out @ encode (c_compact_u32 S) k) = Ok (i', out')"
      by (auto simp: resolve_or_err_def Let_def)
    from k have "i = encode (c_compact_u32 S) k @ i1"
      by (intro exact_codec.decode_exact scale_exact)
    with each [OF rest] sequence [where R = "types (md_runtime M)", OF R Sequence] show ?thesis by fastforce
  next
    case (Compact p)
    with body r decode_compact_never_Ok [OF r Compact, of S "(i, out)"] show ?thesis
      by (simp add: resolve_or_err_def)
  next
    case (Composite fs)
    with body r have "for_each rec fs (i, out) = Ok (i', out')" by (simp add: resolve_or_err_def)
    from each [OF this] composite [where R = "types (md_runtime M)", OF R Composite] show ?thesis by blast
  next
    case (Tuple fs)
    with body r have "for_each rec fs (i, out) = Ok (i', out')" by (simp add: resolve_or_err_def)
    from each [OF this] tuple [where R = "types (md_runtime M)", OF R Tuple] show ?thesis by blast
  next
    case (Array k e)
    with body r have "for_each rec (replicate (unat k) e) (i, out) = Ok (i', out')"
      by (simp add: resolve_or_err_def)
    from each [OF this] array [where R = "types (md_runtime M)", OF R Array] show ?thesis by blast
  next
    case (Primitive p)
    with body r have "decode_primitive S p (i, out) = Ok (i', out')" by (simp add: resolve_or_err_def)
    from decode_primitive_sound [OF this] primitive [where R = "types (md_runtime M)", OF R Primitive] show ?thesis by blast
  qed (use body r in \<open>simp add: resolve_or_err_def\<close>)
qed

lemma decode_type_sound:
  "decode_type n S M t (i, out) = Ok (i', out') \<Longrightarrow> \<exists>c. i = c @ i' \<and> wire S (types (md_runtime M)) t c"
proof (induction n arbitrary: t i out i' out')
  case (Suc n)
  show ?case
    by (rule decode_type_body_sound [where rec = "decode_type n S M"])
      (use Suc in \<open>simp_all del: decode_type.simps(1)\<close>)
qed simp

text \<open>Fuel that is enough for two parts is enough for both.\<close>

lemma decode_type_max:
  assumes "decode_type n S M t io = Ok io'"
  shows "decode_type (max n k) S M t io = Ok io'"
  using decode_type_fuel_mono [of n S M t io "max n k"] assms by simp

lemma for_each_max:
  assumes "for_each (decode_type k S M) ts io = Ok io'"
  shows "for_each (decode_type (max n k) S M) ts io = Ok io'"
proof -
  have "for_each (decode_type (max n k) S M) ts io = for_each (decode_type k S M) ts io"
  proof (rule for_each_mono)
    show "decode_type (max n k) S M t s = decode_type k S M t s"
      if "decode_type k S M t s \<noteq> OutOfFuel" for t s
      using that by (rule decode_type_fuel_mono) simp
  qed (simp add: assms)
  with assms show ?thesis by simp
qed

lemma decode_type_complete:
  "wire S (types (md_runtime M)) t c \<Longrightarrow>
     \<exists>n. \<forall>rest out. decode_type n S M t (c @ rest, out) = Ok (rest, out @ c)"
  "wires S (types (md_runtime M)) ts c \<Longrightarrow>
     \<exists>n. \<forall>rest out. for_each (decode_type n S M) ts (c @ rest, out) = Ok (rest, out @ c)"
proof (induction rule: wire_wires.inducts)
  case (sequence t ty e k c)
  from sequence.IH obtain n where "\<forall>rest out.
      for_each (decode_type n S M) (replicate (unat k) e) (c @ rest, out) = Ok (rest, out @ c)" by blast
  with sequence have "\<forall>rest out. decode_type (Suc n) S M t ((encode (c_compact_u32 S) k @ c) @ rest, out) =
      Ok (rest, out @ encode (c_compact_u32 S) k @ c)"
    by (simp add: decode_type_body_def resolve_or_err_def resolve_type_def for_n_for_each
        roundtrip_codec.decode_encode [OF scale_roundtrip(4)])
  then show ?case by blast
next
  case (enum t ty vs b c)
  from enum.IH obtain n where "\<forall>rest out.
      for_each (decode_type n S M) (v_fields (vs ! unat b)) (c @ rest, out) = Ok (rest, out @ c)" by blast
  with enum have "\<forall>rest out. decode_type (Suc n) S M t ((encode (c_u8 S) b @ c) @ rest, out) =
      Ok (rest, out @ encode (c_u8 S) b @ c)"
    by (simp add: decode_type_body_def resolve_or_err_def resolve_type_def variant_at_def
        roundtrip_codec.decode_encode [OF scale_roundtrip(1)])
  then show ?case by blast
next
  case (primitive t ty p c)
  then have "\<forall>rest out. decode_type (Suc 0) S M t (c @ rest, out) = Ok (rest, out @ c)"
    by (simp add: decode_type_body_def resolve_or_err_def resolve_type_def decode_primitive_complete)
  then show ?case by blast
next
  case wires_nil
  then show ?case by simp
next
  case (wires_cons t c ts d)
  from wires_cons.IH obtain n k where "\<forall>rest out. decode_type n S M t (c @ rest, out) = Ok (rest, out @ c)"
    and "\<forall>rest out. for_each (decode_type k S M) ts (d @ rest, out) = Ok (rest, out @ d)" by blast
  then have "\<forall>rest out. for_each (decode_type (max n k) S M) (t # ts) ((c @ d) @ rest, out) =
      Ok (rest, out @ c @ d)"
    by (simp add: decode_type_max for_each_max)
  then show ?case by blast
next
  case (composite t ty fs c)
  from composite.IH obtain n where "\<forall>rest out. for_each (decode_type n S M) fs (c @ rest, out) = Ok (rest, out @ c)"
    by blast
  with composite have "\<forall>rest out. decode_type (Suc n) S M t (c @ rest, out) = Ok (rest, out @ c)"
    by (simp add: decode_type_body_def resolve_or_err_def resolve_type_def)
  then show ?case by blast
next
  case (tuple t ty fs c)
  from tuple.IH obtain n where "\<forall>rest out. for_each (decode_type n S M) fs (c @ rest, out) = Ok (rest, out @ c)"
    by blast
  with tuple have "\<forall>rest out. decode_type (Suc n) S M t (c @ rest, out) = Ok (rest, out @ c)"
    by (simp add: decode_type_body_def resolve_or_err_def resolve_type_def)
  then show ?case by blast
next
  case (array t ty k e c)
  from array.IH obtain n where "\<forall>rest out.
      for_each (decode_type n S M) (replicate (unat k) e) (c @ rest, out) = Ok (rest, out @ c)" by blast
  with array have "\<forall>rest out. decode_type (Suc n) S M t (c @ rest, out) = Ok (rest, out @ c)"
    by (simp add: decode_type_body_def resolve_or_err_def resolve_type_def for_n_for_each)
  then show ?case by blast
qed

lemma decode_type_iff_wire:
  "(\<exists>n. decode_type n S M t (i, out) = Ok (i', out')) \<longleftrightarrow>
     (\<exists>c. i = c @ i' \<and> out' = out @ c \<and> wire S (types (md_runtime M)) t c)"
proof
  assume "\<exists>n. decode_type n S M t (i, out) = Ok (i', out')"
  then obtain n where n: "decode_type n S M t (i, out) = Ok (i', out')" ..
  from decode_type_sound [OF n] decode_type_copies [OF n]
  show "\<exists>c. i = c @ i' \<and> out' = out @ c \<and> wire S (types (md_runtime M)) t c"
    by (auto simp: copies_def)
qed (use decode_type_complete(1) in blast)

end

section \<open>The SCALE format\<close>

lemma str_codec_local: "local_codec str_codec"
proof (intro local_codec.intro local_codec_axioms.intro str_codec_exact)
  fix bs x r r'
  assume d: "decode str_codec bs = Inr (x, r)"
  then obtain n rest w where n: "dec_compact (2 ^ 32) bs = Inr (n, rest)" and w: "take_buf n rest = Inr (w, r)"
    and u: "utf8 (map unat w)" and x: "x = map (\<lambda>b. char_of (unat b)) w"
    by (auto simp: str_codec_def split: sum.splits if_splits)
  have "length w = n" and "n < 2 ^ 32"
    using take_buf_Inr [OF w] dec_compact_exact [OF n] by auto
  then show "decode str_codec (encode str_codec x @ r') = Inr (x, r')"
    using u x by (simp add: str_codec_def as_bytes_char_of dec_compact_enc take_buf_append)
qed

lemma bool_codec_local: "local_codec bool_codec"
  by (intro local_codec.intro local_codec_axioms.intro bool_codec_exact)
    (auto simp: bool_codec_def take_byte_def)

interpretation scale_gram: scale_grammar scale_ref
  by (intro scale_grammar.intro scale_grammar_axioms.intro scale_fmt.scale_laws_axioms)
    (simp_all add: scale_ref_def bool_codec_local str_codec_local ref_lawful [THEN local_of_lawful])

interpretation str_fmt: local_codec str_codec
  by (rule str_codec_local)

end
