(* ===== verification/Sample.thy ===== *)
theory Sample
  imports Wire
begin

text \<open>
  A small runtime, for the examples that apply the theorems: two pallets with calls,
  events, errors, storage entries and a constant, and a type registry with a struct, an
  array, a compact integer and a recursive enum. The hash functions of the examples
  pad or cut their input to the documented size.
\<close>

definition sample_registry :: registry where
  "sample_registry = map_of
     [(0, \<lparr>ty_ident = None, ty_def = Primitive P_U8\<rparr>),
      (1, \<lparr>ty_ident = None, ty_def = Primitive P_U32\<rparr>),
      (2, \<lparr>ty_ident = Some ''DispatchError'', ty_def = Variant []\<rparr>),
      (3, \<lparr>ty_ident = Some ''DispatchInfo'', ty_def = Composite [1, 0]\<rparr>),
      (4, \<lparr>ty_ident = None, ty_def = Sequence 0\<rparr>),
      (5, \<lparr>ty_ident = None, ty_def = Compact 1\<rparr>),
      (6, \<lparr>ty_ident = Some ''Tree'', ty_def = Variant
        [\<lparr>v_name = ''Leaf'', v_fields = [0], v_index = 0, v_docs = []\<rparr>,
         \<lparr>v_name = ''Node'', v_fields = [7], v_index = 1, v_docs = []\<rparr>]\<rparr>),
      (7, \<lparr>ty_ident = None, ty_def = Sequence 6\<rparr>),
      (8, \<lparr>ty_ident = None, ty_def = Array 2 0\<rparr>),
      (9, \<lparr>ty_ident = Some ''Gap'', ty_def = Variant
        [\<lparr>v_name = ''Only'', v_fields = [], v_index = 5, v_docs = []\<rparr>]\<rparr>),
      (20, \<lparr>ty_ident = Some ''Call'', ty_def = Variant
        [\<lparr>v_name = ''remark'', v_fields = [4], v_index = 1, v_docs = []\<rparr>,
         \<lparr>v_name = ''set_pair'', v_fields = [3], v_index = 2, v_docs = []\<rparr>]\<rparr>),
      (21, \<lparr>ty_ident = Some ''Event'', ty_def = Variant
        [\<lparr>v_name = ''ExtrinsicSuccess'', v_fields = [3], v_index = 0, v_docs = []\<rparr>,
         \<lparr>v_name = ''ExtrinsicFailed'', v_fields = [2, 3], v_index = 1, v_docs = []\<rparr>]\<rparr>),
      (22, \<lparr>ty_ident = Some ''Error'', ty_def = Variant
        [\<lparr>v_name = ''InvalidSpecName'', v_fields = [], v_index = 0,
          v_docs = [''The name of specification does not match'']\<rparr>]\<rparr>)]"

definition sample_account :: storage_entry where
  "sample_account = \<lparr>se_name = ''Account'', se_modifier = Default, se_ty = MapEntry [Blake2_128Concat] 1 3, se_default = []\<rparr>"

definition sample_number :: storage_entry where
  "sample_number = \<lparr>se_name = ''Number'', se_modifier = Default, se_ty = Plain 1, se_default = [0, 0, 0, 0]\<rparr>"

definition sample_nested :: storage_entry where
  "sample_nested =
     \<lparr>se_name = ''Nested'', se_modifier = Default, se_ty = MapEntry [Twox64Concat, Blake2_128Concat] 1 1, se_default = []\<rparr>"

definition sample_const :: pallet_constant where
  "sample_const = \<lparr>k_name = ''BlockHashCount'', k_ty = 1, k_value = [96, 9, 0, 0]\<rparr>"

definition sample_system :: pallet_v14 where
  "sample_system =
     \<lparr>p_name = ''System'', p_index = 0, p_calls = Some 20, p_event = Some 21, p_error = Some 22,
      p_storage = Some [sample_account, sample_number, sample_nested], p_constants = [sample_const]\<rparr>"

definition sample_timestamp :: pallet_v14 where
  "sample_timestamp =
     \<lparr>p_name = ''Timestamp'', p_index = 3, p_calls = None, p_event = None, p_error = None,
      p_storage = None, p_constants = []\<rparr>"

definition sample_v14 :: metadata_v14 where
  "sample_v14 = \<lparr>types = sample_registry, v14_pallets = [sample_system, sample_timestamp]\<rparr>"

definition sample_metadata :: metadata where
  "sample_metadata =
     \<lparr>md_runtime = sample_v14,
      md_pallets =
        [(''System'', \<lparr>pm_index = 0, pm_name = ''System'', pm_calls = [(''remark'', 1), (''set_pair'', 2)],
           pm_storage = [(''Account'', sample_account), (''Number'', sample_number), (''Nested'', sample_nested)],
           pm_constants = [(''BlockHashCount'', sample_const)]\<rparr>),
         (''Timestamp'', \<lparr>pm_index = 3, pm_name = ''Timestamp'', pm_calls = [], pm_storage = [],
           pm_constants = []\<rparr>)],
      md_calls =
        [((0, 1), \<lparr>cm_pallet = ''System'', cm_call = ''remark'',
           cm_variant = \<lparr>v_name = ''remark'', v_fields = [4], v_index = 1, v_docs = []\<rparr>\<rparr>),
         ((0, 2), \<lparr>cm_pallet = ''System'', cm_call = ''set_pair'',
           cm_variant = \<lparr>v_name = ''set_pair'', v_fields = [3], v_index = 2, v_docs = []\<rparr>\<rparr>)],
      md_events =
        [((0, 0), \<lparr>em_pallet = ''System'', em_event = ''ExtrinsicSuccess'',
           em_variant = \<lparr>v_name = ''ExtrinsicSuccess'', v_fields = [3], v_index = 0, v_docs = []\<rparr>\<rparr>),
         ((0, 1), \<lparr>em_pallet = ''System'', em_event = ''ExtrinsicFailed'',
           em_variant = \<lparr>v_name = ''ExtrinsicFailed'', v_fields = [2, 3], v_index = 1, v_docs = []\<rparr>\<rparr>)],
      md_errors =
        [((0, 0), \<lparr>rm_pallet = ''System'', rm_error = ''InvalidSpecName'',
           rm_variant = \<lparr>v_name = ''InvalidSpecName'', v_fields = [], v_index = 0,
             v_docs = [''The name of specification does not match'']\<rparr>\<rparr>)]\<rparr>"

text \<open>\<^verbatim>\<open>META_RESERVED\<close>, the bytes of \<^verbatim>\<open>meta\<close>.\<close>

definition sample_magic :: u32 where
  "sample_magic = 1635018093"

definition fit :: "nat \<Rightarrow> bytes \<Rightarrow> bytes" where
  "fit n x = take n (x @ replicate n 0)"

definition sample_hashers :: hashers where
  "sample_hashers =
     \<lparr>twox_64 = fit 8, twox_128 = fit 16, twox_256 = fit 32, blake2_128 = fit 16, blake2_256 = fit 32\<rparr>"

definition sample_rank :: "u32 \<Rightarrow> nat" where
  "sample_rank t = (if t = 3 \<or> t = 8 then 1 else 0)"

lemma length_fit: "length (fit n x) = n"
  by (auto simp: fit_def min_def)

lemma sample_hash_sizes: "hash_sizes sample_hashers"
  by (simp add: hash_sizes_def sample_hashers_def length_fit)

lemma sample_registry_simps [simp]:
  "sample_registry 0 = Some \<lparr>ty_ident = None, ty_def = Primitive P_U8\<rparr>"
  "sample_registry 1 = Some \<lparr>ty_ident = None, ty_def = Primitive P_U32\<rparr>"
  "sample_registry 2 = Some \<lparr>ty_ident = Some ''DispatchError'', ty_def = Variant []\<rparr>"
  "sample_registry 3 = Some \<lparr>ty_ident = Some ''DispatchInfo'', ty_def = Composite [1, 0]\<rparr>"
  "sample_registry 4 = Some \<lparr>ty_ident = None, ty_def = Sequence 0\<rparr>"
  "sample_registry 5 = Some \<lparr>ty_ident = None, ty_def = Compact 1\<rparr>"
  "sample_registry 7 = Some \<lparr>ty_ident = None, ty_def = Sequence 6\<rparr>"
  "sample_registry 8 = Some \<lparr>ty_ident = None, ty_def = Array 2 0\<rparr>"
  by (simp_all add: sample_registry_def)

lemma sample_try_from: "try_from sample_magic (sample_magic, V14 sample_v14) = Ok sample_metadata"
  by (simp add: try_from_def sample_v14_def sample_system_def sample_timestamp_def
      sample_metadata_def pallet_metadata_of_def pallet_variants_def variant_table_def
      get_type_def_variant_def sample_registry_def call_entry_def event_entry_def error_entry_def
      hm_collect_def hm_insert_def List.map_filter_simps sample_account_def sample_number_def
      sample_nested_def sample_const_def)

lemma sample_resolve: "resolve_type sample_metadata = sample_registry"
  by (simp add: resolve_type_def sample_metadata_def sample_v14_def fun_eq_iff)

lemma sample_guarded: "guarded (types (md_runtime sample_metadata)) sample_rank 2"
  by (auto simp: guarded_def sample_metadata_def sample_v14_def sample_rank_def sample_registry_def
      flat_children_def split: if_splits)

lemma sample_unique:
  "unique_indices p_calls sample_v14" "unique_indices p_event sample_v14" "unique_indices p_error sample_v14"
  by (simp_all add: unique_indices_def sample_v14_def sample_system_def sample_timestamp_def
      get_type_def_variant_def sample_registry_def)

lemmas sample_eval =
  ref_eval decode_type_body_def resolve_or_err_def sample_resolve decode_primitive_def decode_raw_def
  variant_at_def sample_registry_def decode_raw_event_def raw_event_arg_def

definition sample_system_meta :: pallet_metadata where
  "sample_system_meta =
     \<lparr>pm_index = 0, pm_name = ''System'', pm_calls = [(''remark'', 1), (''set_pair'', 2)],
      pm_storage = [(''Account'', sample_account), (''Number'', sample_number), (''Nested'', sample_nested)],
      pm_constants = [(''BlockHashCount'', sample_const)]\<rparr>"

lemma sample_lookups:
  "pallet sample_metadata ''System'' = Ok sample_system_meta"
  "event sample_metadata 0 0 = Ok \<lparr>em_pallet = ''System'', em_event = ''ExtrinsicSuccess'',
     em_variant = \<lparr>v_name = ''ExtrinsicSuccess'', v_fields = [3], v_index = 0, v_docs = []\<rparr>\<rparr>"
  "event sample_metadata 0 1 = Ok \<lparr>em_pallet = ''System'', em_event = ''ExtrinsicFailed'',
     em_variant = \<lparr>v_name = ''ExtrinsicFailed'', v_fields = [2, 3], v_index = 1, v_docs = []\<rparr>\<rparr>"
  "error sample_metadata 0 0 = Ok \<lparr>rm_pallet = ''System'', rm_error = ''InvalidSpecName'',
     rm_variant = \<lparr>v_name = ''InvalidSpecName'', v_fields = [], v_index = 0,
       v_docs = [''The name of specification does not match'']\<rparr>\<rparr>"
  "storage sample_system_meta ''Account'' = Ok sample_account"
  "storage sample_system_meta ''Number'' = Ok sample_number"
  "storage sample_system_meta ''Nested'' = Ok sample_nested"
  by (simp_all add: pallet_def event_def error_def storage_def sample_metadata_def sample_system_meta_def
      hm_get_def)

end
