(* ===== verification/Endless.thy ===== *)
theory Endless
  imports Decoder
begin

text \<open>
  The types on which \<^verbatim>\<open>decode_type\<close> (\<^verbatim>\<open>node-api/src/decoder.rs\<close>) recurses for ever. A composite, a tuple and an array
  hand the input on to their parts without reading a byte. Some types read none at all and succeed (\<open>weightless\<close>), such as
  the empty tuple. A type has no end when one of its parts, after none but such parts, has none (\<open>endless\<close>): the recursion
  comes to it before any byte is read. The lemmas show that no other type is like that: on the empty input
  \<^verbatim>\<open>decode_type\<close> returns for each type that is not \<open>endless\<close>, if only because there is no byte to read.
\<close>

section \<open>Types that read nothing\<close>

definition parts :: "type_def \<Rightarrow> u32 list option" where
  "parts d =
     (case d of
        Composite fs \<Rightarrow> Some fs
      | Tuple fs \<Rightarrow> Some fs
      | Array len elem \<Rightarrow> Some (replicate (unat len) elem)
      | _ \<Rightarrow> None)"

inductive weightless :: "metadata \<Rightarrow> u32 \<Rightarrow> bool" for M where
  product: "\<lbrakk>resolve_type M t = Some ty; parts (ty_def ty) = Some us; \<forall>u \<in> set us. weightless M u\<rbrakk> \<Longrightarrow> weightless M t"

coinductive endless :: "metadata \<Rightarrow> u32 \<Rightarrow> bool" for M where
  enters: "\<lbrakk>resolve_type M t = Some ty; parts (ty_def ty) = Some (us @ u # fs); \<forall>w \<in> set us. weightless M w; endless M u\<rbrakk>
    \<Longrightarrow> endless M t"

inductive_cases weightlessE: "weightless M t"

lemma decode_type_parts:
  "resolve_type M t = Some ty \<Longrightarrow> parts (ty_def ty) = Some us \<Longrightarrow>
    decode_type (Suc n) S M t io = for_each (decode_type n S M) us io"
  by (simp add: decode_type_body_def resolve_or_err_def parts_def for_n_for_each split: type_def.splits)

lemma for_each_still:
  assumes "\<forall>u \<in> set us. f u io = Ok io \<or> f u io = OutOfFuel"
  shows "for_each f us io = Ok io \<or> for_each f us io = OutOfFuel"
  using assms by (induction us) auto

lemma weightless_decode: "weightless M t \<Longrightarrow> decode_type n S M t io = Ok io \<or> decode_type n S M t io = OutOfFuel"
proof (induction arbitrary: n rule: weightless.induct)
  case (product t ty us)
  show ?case
  proof (cases n)
    case (Suc k)
    then show ?thesis
      using for_each_still [of us "decode_type k S M" io] product(3) decode_type_parts [OF product(1,2)] by simp
  qed simp
qed

lemma endless_decode: "endless M t \<Longrightarrow> decode_type n S M t io = OutOfFuel"
proof (induction n arbitrary: t io)
  case (Suc n)
  from Suc.prems obtain ty us u fs where t: "resolve_type M t = Some ty" "parts (ty_def ty) = Some (us @ u # fs)"
    "\<forall>w \<in> set us. weightless M w" "endless M u"
    by (auto elim: endless.cases)
  from t(3) have "for_each (decode_type n S M) us io = Ok io \<or> for_each (decode_type n S M) us io = OutOfFuel"
    by (intro for_each_still) (simp add: weightless_decode)
  moreover have "decode_type n S M u io = OutOfFuel" by (rule Suc.IH [OF t(4)])
  ultimately show ?case unfolding decode_type_parts [OF t(1,2)] for_each_append by auto
qed simp

section \<open>The empty input\<close>

text \<open>No primitive is read from nothing.\<close>

definition reads_bytes :: "scale \<Rightarrow> bool" where
  "reads_bytes S \<longleftrightarrow> (\<forall>p out io. decode_primitive S p ([], out) \<noteq> Ok io)"

context scale_laws
begin

lemma decode_type_empty_parts:
  assumes "reads_bytes S" and "\<nexists>ty us. resolve_type M t = Some ty \<and> parts (ty_def ty) = Some us"
  shows "decode_type (Suc n) S M t ([], out) \<noteq> Ok io \<and> decode_type (Suc n) S M t ([], out) \<noteq> OutOfFuel"
proof (cases "resolve_type M t")
  case (Some ty)
  have u8: "decode (c_u8 S) [] \<noteq> Inr (b, i)" for b i
    using decode_nonempty_shorter [of "c_u8 S" "[]" b i] by (auto intro: scale_exact simp: u8_nonempty)
  have u32: "decode (c_compact_u32 S) [] \<noteq> Inr (k, i)" for k i
    using decode_nonempty_shorter [of "c_compact_u32 S" "[]" k i] by (auto intro: scale_exact simp: compact_u32_nonempty)
  have prim: "decode_primitive S p ([], out) \<noteq> Ok io" for p using assms(1) unfolding reads_bytes_def by blast
  have "parts (ty_def ty) = None" using assms(2) Some by (cases "parts (ty_def ty)") auto
  then show ?thesis
    using Some u8 u32 prim
    by (cases "ty_def ty")
      (auto simp: parts_def decode_type_body_def resolve_or_err_def and_then_OutOfFuel_iff decode_compact_def)
qed (simp add: decode_type_body_def resolve_or_err_def)

lemma decode_type_empty_Ok:
  assumes "reads_bytes S"
  shows "decode_type n S M t ([], out) = Ok io \<Longrightarrow> weightless M t \<and> io = ([], out)"
proof (induction n arbitrary: t io)
  case (Suc n)
  then obtain ty us where t: "resolve_type M t = Some ty" "parts (ty_def ty) = Some us"
    using decode_type_empty_parts [OF assms] by blast
  have "for_each (decode_type n S M) us ([], out) = Ok io \<Longrightarrow> (\<forall>u \<in> set us. weightless M u) \<and> io = ([], out)"
    by (induction us) (auto dest: Suc.IH)
  moreover have "for_each (decode_type n S M) us ([], out) = Ok io"
    using Suc.prems(1) unfolding decode_type_parts [OF t] .
  ultimately show ?case using weightless.product [OF t] by blast
qed simp

text \<open>A walk over parts that never returns has a first part that does not.\<close>

lemma for_each_endless:
  assumes "reads_bytes S" and "\<forall>n. for_each (decode_type n S M) us ([], out) = OutOfFuel"
  shows "\<exists>ws u fs. us = ws @ u # fs \<and> (\<forall>w \<in> set ws. weightless M w) \<and> (\<forall>n. decode_type n S M u ([], out) = OutOfFuel)"
  using assms(2)
proof (induction us)
  case (Cons x us)
  show ?case
  proof (cases "\<forall>n. decode_type n S M x ([], out) = OutOfFuel")
    case True
    then show ?thesis by (intro exI [of _ "[]"]) auto
  next
    case False
    then obtain k where k: "decode_type k S M x ([], out) \<noteq> OutOfFuel" by blast
    from Cons.prems have "for_each (decode_type k S M) (x # us) ([], out) = OutOfFuel" by blast
    with k obtain io where ok: "decode_type k S M x ([], out) = Ok io" by (cases "decode_type k S M x ([], out)") auto
    with decode_type_empty_Ok [OF assms(1)] have x: "weightless M x" "io = ([], out)" by auto
    have "for_each (decode_type n S M) us ([], out) = OutOfFuel" for n
    proof (rule ccontr)
      assume ends: "for_each (decode_type n S M) us ([], out) \<noteq> OutOfFuel"
      have "for_each (decode_type (max n k) S M) us ([], out) = for_each (decode_type n S M) us ([], out)"
        by (rule for_each_mono [OF decode_type_fuel_mono ends]) simp_all
      moreover have "decode_type (max n k) S M x ([], out) = Ok ([], out)"
        using decode_type_fuel_mono [OF k, of "max n k"] ok x(2) by simp
      ultimately have "for_each (decode_type (max n k) S M) (x # us) ([], out) \<noteq> OutOfFuel" using ends by simp
      with Cons.prems show False by blast
    qed
    then obtain ws u fs where "us = ws @ u # fs" "\<forall>w \<in> set ws. weightless M w"
      "\<forall>n. decode_type n S M u ([], out) = OutOfFuel"
      using Cons.IH by blast
    with x(1) show ?thesis by (intro exI [of _ "x # ws"]) auto
  qed
qed simp

lemma never_returns_endless:
  assumes "reads_bytes S" and "\<forall>n. decode_type n S M t ([], out) = OutOfFuel"
  shows "endless M t"
proof (rule endless.coinduct [where X = "\<lambda>t. \<forall>n. decode_type n S M t ([], out) = OutOfFuel", OF assms(2)])
  fix t
  assume never: "\<forall>n. decode_type n S M t ([], out) = OutOfFuel"
  then have "decode_type (Suc 0) S M t ([], out) = OutOfFuel" ..
  then obtain ty us where t: "resolve_type M t = Some ty" "parts (ty_def ty) = Some us"
    using decode_type_empty_parts [OF assms(1), of M t 0 out "([], out)"] by blast
  have "for_each (decode_type n S M) us ([], out) = OutOfFuel" for n
    using spec [OF never, of "Suc n"] unfolding decode_type_parts [OF t] .
  then obtain ws u fs where split: "us = ws @ u # fs" "\<forall>w \<in> set ws. weightless M w"
    "\<forall>n. decode_type n S M u ([], out) = OutOfFuel"
    using for_each_endless [OF assms(1)] by blast
  show "\<exists>x ty ws u fs. t = x \<and> resolve_type M x = Some ty \<and> parts (ty_def ty) = Some (ws @ u # fs) \<and>
      (\<forall>w \<in> set ws. weightless M w) \<and> ((\<forall>n. decode_type n S M u ([], out) = OutOfFuel) \<or> endless M u)"
    by (intro exI conjI) (use t split in auto)
qed

end

end
