(* ===== verification/Node_Api.thy ===== *)
theory Node_Api
  imports Sample Endless
begin

text \<open>
  The properties of the crate \<^verbatim>\<open>node-api\<close>: the type and event decoder, the tables built
  from the runtime metadata, and the storage keys. Each is stated over the model's
  definitions, with the laws of the codec crate as the hypothesis \<open>scale_laws S\<close>, and is
  followed by an instance on the small runtime of \<open>Sample\<close> and the SCALE format itself.
\<close>

section \<open>The type decoder\<close>

text \<open>C1: \<^verbatim>\<open>decode_type\<close> accepts exactly the inputs that start with an encoding of the type,
  as the grammar \<open>wire\<close> of the registry defines it; it takes that encoding from the input,
  appends it to the output byte for byte, and leaves the rest of the input.\<close>

theorem decode_type_accepts_wire:
  assumes "scale_grammar S"
  shows "(\<exists>n. decode_type n S M t (input, output) = Ok (input', output')) \<longleftrightarrow>
    (\<exists>consumed. input = consumed @ input' \<and> output' = output @ consumed \<and>
       wire S (types (md_runtime M)) t consumed)"
  by (rule scale_grammar.decode_type_iff_wire [OF assms])

theorem decode_type_accepts_wire_witness:
  "decode_type 6 scale_ref sample_metadata 6 ([1, 8, 0, 3, 0, 4, 9], [7]) = Ok ([9], [7, 1, 8, 0, 3, 0, 4]) \<and>
   wire scale_ref (types (md_runtime sample_metadata)) 6 [1, 8, 0, 3, 0, 4]"
proof -
  have run: "decode_type 6 scale_ref sample_metadata 6 ([1, 8, 0, 3, 0, 4, 9], [7]) =
      Ok ([9], [7, 1, 8, 0, 3, 0, 4])"
    by (simp add: sample_eval)
  from decode_type_accepts_wire [OF scale_gram.scale_grammar_axioms, THEN iffD1, OF exI, OF run]
  obtain c where "[1, 8, 0, 3, 0, 4, 9] = c @ [9 :: u8]"
    and "wire scale_ref (types (md_runtime sample_metadata)) 6 c" by blast
  moreover from this(1) have "c = [1, 8, 0, 3, 0, 4]" by (metis append1_eq_conv append_Cons append_Nil)
  ultimately show ?thesis using run by simp
qed

text \<open>C10: the recursion of \<^verbatim>\<open>decode_type\<close> ends on every registry in which each cycle of
  type references passes through an enum or a sequence (a byte is read on the way), as in
  any metadata of real types: \<open>(len + 1) * N\<close> levels are enough for an input of \<open>len\<close>
  bytes, where \<open>N\<close> bounds the ranks of the registry, and more levels give the same
  answer.\<close>

theorem decode_type_terminates:
  assumes "scale_laws S" and "guarded (types (md_runtime M)) rank N"
    and "enough_fuel N (length (fst io)) \<le> n"
  shows "decode_type n S M t io \<noteq> OutOfFuel \<and>
    decode_type n S M t io = decode_type (enough_fuel N (length (fst io))) S M t io"
proof -
  have "decode_type (enough_fuel N (length (fst io))) S M t io \<noteq> OutOfFuel"
    by (rule scale_laws.decode_type_enough_fuel [OF assms(1,2)]) simp
  with decode_type_fuel_mono [OF this assms(3)] show ?thesis by simp
qed

theorem decode_type_terminates_witness:
  "enough_fuel 2 2 \<le> 10 \<and>
   decode_type 10 scale_ref sample_metadata 6 ([1, 200], []) \<noteq> OutOfFuel \<and>
   decode_type 10 scale_ref sample_metadata 6 ([1, 200], []) =
     decode_type (enough_fuel 2 2) scale_ref sample_metadata 6 ([1, 200], [])"
  using decode_type_terminates [OF scale_fmt.scale_laws_axioms sample_guarded,
      where io = "([1, 200], [])" and n = 10 and t = 6]
  by (auto simp: enough_fuel_def)

text \<open>C30: \<^verbatim>\<open>decode_type\<close> recurses without end, whatever the input, exactly on the types that lead into a cycle
  before a byte is read: a composite, a tuple or an array that has such a part with none but parts before it that read
  nothing, without end (\<open>endless\<close>). The decoder has no guard against such metadata. On every other type it returns when
  there is no input. (A composite that contains itself after a field that reads a byte is not of this kind.)\<close>

theorem decode_type_never_returns_iff:
  assumes "scale_laws S" and "reads_bytes S"
  shows "((\<forall>n io. decode_type n S M t io = OutOfFuel) \<longleftrightarrow> endless M t) \<and>
    ((\<forall>n. decode_type n S M t ([], out) = OutOfFuel) \<longleftrightarrow> endless M t)"
  using scale_laws.never_returns_endless [OF assms] endless_decode [of M t] by blast

text \<open>A composite whose second field is itself, after the empty tuple; and one with a byte before itself.\<close>

definition sample_cyclic :: metadata where
  "sample_cyclic = sample_metadata\<lparr>md_runtime := \<lparr>types =
     [30 \<mapsto> \<lparr>ty_ident = None, ty_def = Composite [31, 30]\<rparr>, 31 \<mapsto> \<lparr>ty_ident = None, ty_def = Tuple []\<rparr>,
      32 \<mapsto> \<lparr>ty_ident = None, ty_def = Composite [33, 32]\<rparr>, 33 \<mapsto> \<lparr>ty_ident = None, ty_def = Primitive P_U8\<rparr>],
     v14_pallets = []\<rparr>\<rparr>"

lemma sample_cyclic_types:
  "resolve_type sample_cyclic 30 = Some \<lparr>ty_ident = None, ty_def = Composite [31, 30]\<rparr>"
  "resolve_type sample_cyclic 31 = Some \<lparr>ty_ident = None, ty_def = Tuple []\<rparr>"
  "resolve_type sample_cyclic 32 = Some \<lparr>ty_ident = None, ty_def = Composite [33, 32]\<rparr>"
  "resolve_type sample_cyclic 33 = Some \<lparr>ty_ident = None, ty_def = Primitive P_U8\<rparr>"
  by (simp_all add: sample_cyclic_def resolve_type_def)

lemma sample_endless: "endless sample_cyclic 30" "\<not> endless sample_cyclic 32"
proof -
  have "weightless sample_cyclic 31" by (rule weightless.product [OF sample_cyclic_types(2), where us = "[]"]) (simp_all add: parts_def)
  then show "endless sample_cyclic 30"
    by (coinduction) (use sample_cyclic_types(1) in \<open>auto simp: parts_def intro!: exI [of _ "[31]"]\<close>)
  have none: "\<not> endless sample_cyclic 33" "\<not> weightless sample_cyclic 33"
    by (force elim: endless.cases simp: sample_cyclic_types parts_def)
      (force elim: weightlessE simp: sample_cyclic_types parts_def)
  show "\<not> endless sample_cyclic 32"
  proof
    assume "endless sample_cyclic 32"
    then obtain us u fs where "parts (Composite [33, 32]) = Some (us @ u # fs)" "\<forall>w \<in> set us. weightless sample_cyclic w"
      "endless sample_cyclic u"
      by cases (auto simp: sample_cyclic_types)
    then show False using none by (cases us) (auto simp: parts_def)
  qed
qed

lemma ref_reads_bytes: "reads_bytes scale_ref"
  unfolding reads_bytes_def
proof (intro allI)
  fix p out io
  show "decode_primitive scale_ref p ([], out) \<noteq> Ok io" by (cases p) (simp_all add: decode_primitive_def decode_raw_def scale_ref_def word_codec_def take_buf_def bool_codec_def
        take_byte_def str_codec_def dec_compact_def compact_value_def enc_compact_nonempty)
qed

theorem decode_type_never_returns_iff_witness:
  "(\<forall>n io. decode_type n scale_ref sample_cyclic 30 io = OutOfFuel) \<and>
   (\<exists>n. decode_type n scale_ref sample_cyclic 32 ([], []) \<noteq> OutOfFuel)"
  using decode_type_never_returns_iff [OF scale_fmt.scale_laws_axioms ref_reads_bytes, of sample_cyclic] sample_endless by blast

text \<open>C28: every compact type is refused. The arm for \<^verbatim>\<open>TypeDef::Compact\<close> resolves the id of
  the compact type again instead of the id of its parameter, finds the compact type, and
  answers \<^verbatim>\<open>InvalidCompactType\<close> for each input, although the parameter is an integer.\<close>

theorem decode_type_refuses_compact:
  assumes "resolve_type M t = Some ty" and "ty_def ty = Compact param"
  shows "decode_type (Suc n) S M t io =
    Err (Decoding (InvalidCompactType ''Compact type must be a primitive or a composite type''))"
  using assms by (simp add: decode_type_body_def resolve_or_err_def decode_compact_def)

theorem decode_type_refuses_compact_witness:
  "resolve_type sample_metadata 1 = Some \<lparr>ty_ident = None, ty_def = Primitive P_U32\<rparr> \<and>
   decode_type (Suc 9) scale_ref sample_metadata 5 ([4], []) =
    Err (Decoding (InvalidCompactType ''Compact type must be a primitive or a composite type''))"
  using decode_type_refuses_compact [of sample_metadata 5 "\<lparr>ty_ident = None, ty_def = Compact 1\<rparr>" 1
      9 scale_ref "([4], [])"]
  by (simp add: sample_resolve)

text \<open>C29: the variant of an enum value is taken by its position in the list and not by the
  index the metadata gives it: a value whose index byte is declared by a variant, but is
  not below the number of variants, is refused as not found.\<close>

theorem decode_type_enum_by_position:
  assumes "scale_laws S" and "resolve_type M t = Some ty" and "ty_def ty = Variant vs"
    and "v \<in> set vs" and "length vs \<le> unat (v_index v)"
  shows "decode_type (Suc n) S M t (encode (c_u8 S) (v_index v) @ rest, output) =
    Err (error.Other (''Variant '' @ show_nat (unat (v_index v)) @ '' not found''))"
  using assms
  by (simp add: decode_type_body_def resolve_or_err_def variant_at_def Let_def
      roundtrip_codec.decode_encode [OF scale_laws.scale_roundtrip(1)])

theorem decode_type_enum_by_position_witness:
  "decode_type (Suc 3) scale_ref sample_metadata 9 ([5], []) = Err (error.Other ''Variant 5 not found'')"
  using decode_type_enum_by_position [OF scale_fmt.scale_laws_axioms,
      of sample_metadata 9 "\<lparr>ty_ident = Some ''Gap'', ty_def = Variant
        [\<lparr>v_name = ''Only'', v_fields = [], v_index = 5, v_docs = []\<rparr>]\<rparr>"
        "[\<lparr>v_name = ''Only'', v_fields = [], v_index = 5, v_docs = []\<rparr>]"
        "\<lparr>v_name = ''Only'', v_fields = [], v_index = 5, v_docs = []\<rparr>" 3 "[]" "[]"]
  by (simp add: sample_resolve sample_registry_def ref_eval show_nat.simps
      del: decode_type.simps)

section \<open>The event log\<close>

text \<open>C4: \<^verbatim>\<open>decode_events\<close> reads an encoded event log record by record, keeps the order, and
  reports each record with its phase: the event with its raw data, or in its place the
  runtime errors an \<^verbatim>\<open>ExtrinsicFailed\<close> record carries. Bytes after the log are returned
  unread.\<close>

theorem decode_events_reads_log:
  assumes "scale_laws S" and "\<forall>e \<in> set es. event_decodes n S M e" and "length es < 2 ^ 32"
  shows "decode_events n S M
      (encode (c_compact_u32 S) (of_nat (length es)) @ concat (map (event_wire S) es) @ rest) =
    Ok (concat (map event_report es), rest)"
  using scale_laws.decode_events_wire [OF assms] .

theorem decode_events_reads_log_witness:
  "decode_events 3 scale_ref sample_metadata
     ([8, 0, 1, 0, 0, 0, 0, 0, 7, 0, 0, 0, 1, 0] @ [0, 2, 0, 0, 0, 0, 1, 3, 0, 0, 0, 0, 0, 8, 0, 0, 0, 1, 0] @ [99]) =
   Ok ([(ApplyExtrinsic 1, Event \<lparr>re_pallet = ''System'', re_pallet_index = 0,
          re_variant = ''ExtrinsicSuccess'', re_variant_index = 0, re_data = [7, 0, 0, 0, 1]\<rparr>),
        (ApplyExtrinsic 2, Error (runtime_error.Module \<lparr>pe_pallet = ''System'', pe_error = ''InvalidSpecName'',
          pe_description = [''The name of specification does not match'']\<rparr>))], [99])"
proof -
  define ok :: event_record where "ok =
    \<lparr>er_phase = ApplyExtrinsic 1, er_pallet = 0, er_variant = 0,
     er_meta = \<lparr>em_pallet = ''System'', em_event = ''ExtrinsicSuccess'',
       em_variant = \<lparr>v_name = ''ExtrinsicSuccess'', v_fields = [3], v_index = 0, v_docs = []\<rparr>\<rparr>,
     er_data = [7, 0, 0, 0, 1], er_errors = [], er_topics = []\<rparr>"
  define failed :: event_record where "failed =
    \<lparr>er_phase = ApplyExtrinsic 2, er_pallet = 0, er_variant = 1,
     er_meta = \<lparr>em_pallet = ''System'', em_event = ''ExtrinsicFailed'',
       em_variant = \<lparr>v_name = ''ExtrinsicFailed'', v_fields = [2, 3], v_index = 1, v_docs = []\<rparr>\<rparr>,
     er_data = [3, 0, 0, 0, 0, 0, 8, 0, 0, 0, 1],
     er_errors = [runtime_error.Module \<lparr>pe_pallet = ''System'', pe_error = ''InvalidSpecName'',
       pe_description = [''The name of specification does not match'']\<rparr>], er_topics = []\<rparr>"
  have "event_decodes 3 scale_ref sample_metadata ok"
    by (simp add: ok_def event_decodes_def sample_lookups sample_eval)
  moreover have "event_decodes 3 scale_ref sample_metadata failed"
    by (simp add: failed_def event_decodes_def sample_lookups sample_eval from_dispatch_def description_def)
  ultimately show ?thesis
    using decode_events_reads_log [OF scale_fmt.scale_laws_axioms, of "[ok, failed]" 3 sample_metadata "[99]"]
    by (simp add: ok_def failed_def event_wire_def event_report_def ref_eval)
qed

section \<open>Storage keys\<close>

text \<open>C15: the key of a map entry, for a map with a concatenating hasher, gives the map key
  back: \<^verbatim>\<open>extract_map_identifier\<close> on the key built by \<^verbatim>\<open>storage_map_key\<close> returns it and
  leaves nothing.\<close>

theorem map_key_identifier_roundtrip:
  assumes "scale_laws S" and "hash_sizes H" and "roundtrip_codec K ok" and "ok key"
    and "pallet M p = Ok pm" and "storage pm e = Ok se" and "get_map se p = Ok sm"
    and "concat_hasher (sm_hasher sm)"
  shows "\<exists>k. storage_map_key H K M p e key = Ok k \<and>
    extract_map_identifier S K (sm_hasher sm) k = Ok (key, [])"
  using assms scale_laws.extract_map_identifier_key [OF assms(1,8,2,3,4), of p "se_name se" "[]"]
  by (simp add: storage_map_key_def get_map_key)

theorem map_key_identifier_roundtrip_witness:
  "\<exists>k. storage_map_key sample_hashers (word_codec 4) sample_metadata ''System'' ''Account'' (77 :: u32) = Ok k \<and>
    extract_map_identifier scale_ref (word_codec 4) Blake2_128Concat k = Ok (77 :: u32, [])"
  using map_key_identifier_roundtrip [OF scale_fmt.scale_laws_axioms sample_hash_sizes
      scale_fmt.scale_roundtrip(2) TrueI sample_lookups(1,5), of "\<lparr>sm_module_prefix = as_bytes ''System'',
        sm_storage_prefix = as_bytes ''Account'', sm_hasher = Blake2_128Concat\<rparr>" 77]
  by (simp add: get_map_def sample_account_def hasher_at_def concat_hasher_def scale_ref_sel)

text \<open>The same for a double map: the key built by \<^verbatim>\<open>storage_double_map_key\<close> gives the second
  key back to a client that knows the first.\<close>

theorem double_map_key_identifier_roundtrip:
  assumes "scale_laws S" and "hash_sizes H" and "roundtrip_codec Q ok" and "ok key2"
    and "pallet M p = Ok pm" and "storage pm e = Ok se" and "get_double_map se p = Ok sd"
    and "concat_hasher (sd_hasher sd)" and "concat_hasher (sd_key2_hasher sd)"
  shows "\<exists>k. storage_double_map_key H K Q M p e key1 key2 = Ok k \<and>
    extract_double_map_identifier S Q K (sd_hasher sd) (sd_key2_hasher sd) key1 k = Ok (key2, [])"
  using assms
    scale_laws.extract_double_map_identifier_key [OF assms(1,8,9,2,3,4), of K key1 p "se_name se" "[]"]
  by (simp add: storage_double_map_key_def get_double_map_key)

theorem double_map_key_identifier_roundtrip_witness:
  "\<exists>k. storage_double_map_key sample_hashers (word_codec 2) (word_codec 4) sample_metadata
      ''System'' ''Nested'' (5 :: u16) (77 :: u32) = Ok k \<and>
    extract_double_map_identifier scale_ref (word_codec 4) (word_codec 2) Twox64Concat Blake2_128Concat (5 :: u16) k =
      Ok (77 :: u32, [])"
  using double_map_key_identifier_roundtrip [OF scale_fmt.scale_laws_axioms sample_hash_sizes
      scale_fmt.scale_roundtrip(2) TrueI sample_lookups(1,7), of "\<lparr>sd_module_prefix = as_bytes ''System'',
        sd_storage_prefix = as_bytes ''Nested'', sd_hasher = Twox64Concat, sd_key2_hasher = Blake2_128Concat\<rparr>"
        "word_codec 2" 5 77]
  by (simp add: get_double_map_def sample_nested_def hasher_at_def concat_hasher_def scale_ref_sel)

text \<open>Two keys of a map with a concatenating hasher are stored under different storage keys,
  whatever the hash function does: the encoded key itself is a part of the storage key.\<close>

theorem storage_map_key_injective:
  assumes "hash_sizes H" and "roundtrip_codec K ok" and "ok x" and "ok y"
    and "pallet M p = Ok pm" and "storage pm e = Ok se" and "get_map se p = Ok sm"
    and "concat_hasher (sm_hasher sm)"
  shows "storage_map_key H K M p e x = storage_map_key H K M p e y \<longleftrightarrow> x = y"
  using assms concat_key_hash_inject [OF assms(2-4,8,1), of "[]" "[]"]
  by (auto simp: storage_map_key_def get_map_key)

theorem storage_map_key_injective_witness:
  "storage_map_key sample_hashers (word_codec 4) sample_metadata ''System'' ''Account'' (77 :: u32) \<noteq>
   storage_map_key sample_hashers (word_codec 4) sample_metadata ''System'' ''Account'' (78 :: u32)"
  using storage_map_key_injective [OF sample_hash_sizes scale_fmt.scale_roundtrip(2) TrueI TrueI
      sample_lookups(1,5), of "\<lparr>sm_module_prefix = as_bytes ''System'',
        sm_storage_prefix = as_bytes ''Account'', sm_hasher = Blake2_128Concat\<rparr>" 77 78]
  by (simp add: get_map_def sample_account_def hasher_at_def concat_hasher_def scale_ref_sel)

text \<open>The keys of a double map extend each other: the prefix of the whole map, the partial
  key of a first key, the full key. Iterating over a prefix finds every key below it.\<close>

theorem double_map_keys_extend:
  assumes "storage_double_map_key H K Q M p e key1 key2 = Ok k"
  shows "\<exists>part pre. storage_double_map_partial_key H K M p e key1 = Ok part \<and>
    storage_map_key_prefix H M p e = Ok pre \<and> prefix pre part \<and> prefix part k"
proof -
  from assms obtain pm se sd where l: "pallet M p = Ok pm" "storage pm e = Ok se"
    and sd: "get_double_map se p = Ok sd" and k: "k = double_map_key H K Q sd key1 key2"
    by (auto simp: storage_double_map_key_def)
  have "\<exists>hs a b. se_ty se = MapEntry hs a b"
    using sd by (auto simp: get_double_map_def split: storage_entry_type.splits)
  then have "storage_map_key_prefix H M p e = Ok (key_prefix H p (se_name se))"
    using l by (simp add: storage_map_key_prefix_def get_map_prefix_Ok_iff)
  moreover have "double_map_partial_key H K sd key1 = key_prefix H p (se_name se) @ key_hash H K key1 (sd_hasher sd)"
    using sd by (auto simp: get_double_map_def double_map_partial_key_def key_prefix_def Let_def
        split: storage_entry_type.splits)
  ultimately show ?thesis
    using l partial_key_agrees [OF sd, of H K key1] get_double_map_key [OF sd, of H K Q key1 key2]
    by (simp add: storage_double_map_partial_key_def k prefix_def)
qed

theorem double_map_keys_extend_witness:
  "\<exists>part pre. storage_double_map_partial_key sample_hashers (word_codec 2) sample_metadata
      ''System'' ''Nested'' (5 :: u16) = Ok part \<and>
    storage_map_key_prefix sample_hashers sample_metadata ''System'' ''Nested'' = Ok pre \<and> prefix pre part \<and>
    prefix part (double_map_key sample_hashers (word_codec 2) (word_codec 4)
      \<lparr>sd_module_prefix = as_bytes ''System'', sd_storage_prefix = as_bytes ''Nested'',
       sd_hasher = Twox64Concat, sd_key2_hasher = Blake2_128Concat\<rparr> (5 :: u16) (77 :: u32))"
  by (rule double_map_keys_extend [where Q = "word_codec 4" and ?key2.0 = "77 :: u32"])
    (simp add: storage_double_map_key_def sample_lookups get_double_map_def sample_nested_def hasher_at_def)

section \<open>The tables of the metadata\<close>

text \<open>C13: \<^verbatim>\<open>Metadata::try_from\<close> accepts a metadata blob exactly when its prefix is the reserved
  one, its version is 14, and every type a pallet names for its calls, events or errors
  resolves to an enum; a wrong prefix is reported before a wrong version, and no input
  makes it panic.\<close>

theorem try_from_accepts_iff:
  "((\<exists>m. try_from reserved blob = Ok m) \<longleftrightarrow>
      fst blob = reserved \<and> (\<exists>md. snd blob = V14 md \<and> well_typed_pallets md)) \<and>
   (try_from reserved blob = Err InvalidPrefix \<longleftrightarrow> fst blob \<noteq> reserved) \<and>
   try_from reserved blob \<noteq> Panic"
proof (cases blob)
  case (Pair pre v)
  show ?thesis
    using try_from_exists [of reserved] try_from_errors [of reserved]
    by (cases v; cases "pre = reserved") (auto simp: Pair try_from_def)
qed

text \<open>C22: the event table of an accepted metadata blob holds exactly the declared events: the
  look-up by pallet and event index finds an event if and only if some pallet with this
  index declares a variant with this index, and reports the names of both; the listing of
  a pallet is its set of declared events.\<close>

theorem event_lookup_iff_declared:
  assumes "try_from reserved (reserved, V14 md) = Ok m" and "unique_indices p_event md"
  shows "(event m i j = Ok em \<longleftrightarrow>
      (\<exists>p var. declared p_event md p var \<and> p_index p = i \<and> v_index var = j \<and> em = event_entry p var)) \<and>
    set (events m i) = {event_entry p var | p var. declared p_event md p var \<and> p_index p = i}"
  using event_table.lookup_iff [OF assms] event_table.entries_of_pallet [OF assms]
  by (simp add: event_def events_def)

theorem event_lookup_iff_declared_witness:
  "(\<exists>p var. declared p_event sample_v14 p var \<and> p_index p = 0 \<and> v_index var = 1 \<and>
      v_name var = ''ExtrinsicFailed'') \<and>
   set (events sample_metadata 3) = {event_entry p var | p var. declared p_event sample_v14 p var \<and> p_index p = 3}"
  using event_lookup_iff_declared [OF sample_try_from sample_unique(2), of 0 1,
      THEN conjunct1, THEN iffD1, OF sample_lookups(3)]
    event_lookup_iff_declared [OF sample_try_from sample_unique(2), of 3 0 _ , THEN conjunct2]
  by (metis (no_types, lifting) event_entry_def event_metadata.ext_inject variant.select_convs(1))

text \<open>C14: what \<^verbatim>\<open>PalletMetadata::encode_call\<close> builds is a call of the runtime: its first two bytes
  are found in the call table under the pallet and call name asked for, the arguments
  follow, and \<^verbatim>\<open>decode_call\<close> takes the whole call when the arguments are encodings of the
  parameter types the runtime declares.\<close>

theorem encode_call_is_runtime_call:
  assumes "scale_grammar S" and "try_from reserved (reserved, V14 md) = Ok m"
    and "unique_indices p_calls md" and "pallet m pn = Ok pm" and "encode_call pm c C args = Ok bytes"
  shows "\<exists>i j cm. bytes = i # j # encode C args \<and> call m i j = Ok cm \<and> cm_pallet cm = pn \<and> cm_call cm = c \<and>
    (wires S (types md) (v_fields (cm_variant cm)) (encode C args) \<longrightarrow>
      (\<exists>n. decode_call n S m (bytes @ rest) = Ok rest))"
proof -
  from assms(5) obtain j where j: "hm_get (pm_calls pm) c = Some j"
    and b: "bytes = pm_index pm # j # encode C args"
    by (auto simp: encode_call_def)
  from pallet_from_v14 [OF assms(2,4)] obtain p where p: "p \<in> set (v14_pallets md)"
    and pm: "pallet_metadata_of md p = Ok (pn, pm)" by blast
  from pallet_call_declared [OF pm j p] obtain var where var: "declared p_calls md p var"
    "v_name var = c" "v_index var = j" by blast
  with call_table.lookup_iff [OF assms(2,3), of "pm_index pm" j "call_entry p var"]
    pallet_metadata_of_fields [OF pm]
  have call: "call m (pm_index pm) j = Ok (call_entry p var)" by (auto simp: call_def)
  have "\<exists>n. decode_call n S m (bytes @ rest) = Ok rest"
    if "wires S (types md) (v_fields var) (encode C args)"
  proof -
    from scale_grammar.decode_type_complete(2) [OF assms(1), of m "v_fields var" "encode C args"]
      that try_from_runtime [OF assms(2)]
    obtain n where n: "\<forall>rest out. for_each (decode_type n S m) (v_fields var) (encode C args @ rest, out) =
        Ok (rest, out @ encode C args)"
      by blast
    show ?thesis
      using scale_laws.read_byte_Cons [OF scale_grammar.axioms(1) [OF assms(1)]]
      by (intro exI [of _ n]) (simp add: n decode_call_def b call call_entry_def)
  qed
  then show ?thesis
    using b call var(2) pallet_metadata_of_fields [OF pm] by (auto simp: call_entry_def)
qed

theorem encode_call_is_runtime_call_witness:
  "encode_call sample_system_meta ''remark'' str_codec ''abc'' = Ok [0, 1, 12, 97, 98, 99] \<and>
   (\<exists>cm. call sample_metadata 0 1 = Ok cm \<and> cm_call cm = ''remark'')"
proof -
  have enc: "encode_call sample_system_meta ''remark'' str_codec ''abc'' = Ok [0, 1, 12, 97, 98, 99]"
    by (simp add: encode_call_def sample_system_meta_def hm_get_def str_codec_def ref_eval as_bytes_def)
  from encode_call_is_runtime_call [OF scale_gram.scale_grammar_axioms sample_try_from sample_unique(1)
      sample_lookups(1) enc, of "[]"] enc
  show ?thesis by auto
qed

text \<open>C25: the error the client reports for a module error of the runtime carries the names and
  the documentation of an error variant that the pallet with this index declares; a module
  error that no pallet declares is reported as not found, and every other dispatch error
  is mapped without consulting the metadata.\<close>

theorem module_error_is_declared:
  assumes "try_from reserved (reserved, V14 md) = Ok m" and "unique_indices p_error md"
  shows "(from_dispatch m (dispatch_error.Module i (b # bs) msg) = Ok r \<longleftrightarrow>
      (\<exists>p var. declared p_error md p var \<and> p_index p = i \<and> v_index var = b \<and>
        r = runtime_error.Module
          \<lparr>pe_pallet = p_name p, pe_error = v_name var, pe_description = v_docs var\<rparr>)) \<and>
    (from_dispatch m (dispatch_error.Module i (b # bs) msg) = Err (error.Metadata (ErrorNotFound i b)) \<longleftrightarrow>
      (\<nexists>p var. declared p_error md p var \<and> p_index p = i \<and> v_index var = b))"
proof -
  note lookup = error_table.lookup_iff [OF assms, of i b]
  show ?thesis
  proof (cases "hm_get (md_errors m) (i, b)")
    case None
    with lookup show ?thesis by (auto simp: from_dispatch_def Metadata.error_def)
  next
    case (Some e)
    then have "e = error_entry q w" if "declared p_error md q w" "p_index q = i" "v_index w = b" for q w
      using lookup [of "error_entry q w"] that by auto
    moreover from Some lookup obtain p and var :: variant where "declared p_error md p var"
      "p_index p = i" "v_index var = b" by auto
    ultimately show ?thesis
      using Some by (auto simp: from_dispatch_def Metadata.error_def error_entry_def description_def)
  qed
qed

theorem module_error_is_declared_witness:
  "from_dispatch sample_metadata (dispatch_error.Module 0 [0, 0, 0, 0] None) =
     Ok (runtime_error.Module \<lparr>pe_pallet = ''System'', pe_error = ''InvalidSpecName'',
       pe_description = [''The name of specification does not match'']\<rparr>) \<and>
   (\<exists>p var. declared p_error sample_v14 p var \<and> p_index p = 0 \<and> v_index var = 0 \<and>
      runtime_error.Module \<lparr>pe_pallet = ''System'', pe_error = ''InvalidSpecName'',
        pe_description = [''The name of specification does not match'']\<rparr> =
      runtime_error.Module \<lparr>pe_pallet = p_name p, pe_error = v_name var, pe_description = v_docs var\<rparr>)"
proof -
  have run: "from_dispatch sample_metadata (dispatch_error.Module 0 [0, 0, 0, 0] None) =
     Ok (runtime_error.Module \<lparr>pe_pallet = ''System'', pe_error = ''InvalidSpecName'',
       pe_description = [''The name of specification does not match'']\<rparr>)"
    by (simp add: from_dispatch_def sample_lookups description_def)
  show ?thesis
    using run module_error_is_declared [OF sample_try_from sample_unique(3), THEN conjunct1, THEN iffD1, OF run]
    by blast
qed

end
