(* ===== verification/Node_Events.thy ===== *)
theory Node_Events
  imports Decoder
begin

text \<open>
  Model of \<^verbatim>\<open>node-api/src/events.rs\<close>, the event decoder the crate had before \<^verbatim>\<open>decoder.rs\<close> took over its
  work: it is no longer part of the build (\<^verbatim>\<open>//pub mod events\<close> in \<^verbatim>\<open>lib.rs\<close>), while
  \<^verbatim>\<open>rpsee-client/mod.rs\<close>, which is not part of it either, still imports it. Its loops are written
  as recursions here. The lemmas show that it reports what \<open>decode_events\<close> of \<open>Decoder\<close> does.
\<close>

section \<open>Data\<close>

record events_raw_event =
  ev_pallet :: string
  ev_pallet_index :: u8
  ev_variant :: string
  ev_variant_index :: u8
  ev_data :: bytes

datatype events_raw = EvEvent events_raw_event | EvError runtime_error

datatype events_decoding_error =
    EvUnsupportedPrimitive type_def_primitive
  | EvInvalidCompactPrimitive type_def_primitive
  | EvInvalidCompactType string

text \<open>The decoder holds a \<^verbatim>\<open>RuntimeDecoder\<close>, which is its metadata.\<close>

record events_decoder =
  ed_decoder :: metadata

definition events_decoder_new :: "metadata \<Rightarrow> events_decoder" where
  "events_decoder_new M = \<lparr>ed_decoder = M\<rparr>"

section \<open>Operations\<close>

text \<open>\<^verbatim>\<open>decode_raw_event\<close>, over the fields that are left: the input, and what is in \<^verbatim>\<open>output\<close> and \<^verbatim>\<open>errors\<close>.\<close>

primrec events_decode_fields ::
    "nat \<Rightarrow> scale \<Rightarrow> events_decoder \<Rightarrow> event_metadata \<Rightarrow> u32 list \<Rightarrow> bytes \<Rightarrow> bytes \<Rightarrow> runtime_error list \<Rightarrow>
       (error, bytes \<times> bytes \<times> runtime_error list) res" where
  "events_decode_fields fuel S D em [] input output errs = Ok (input, output, errs)"
| "events_decode_fields fuel S D em (type_id # ids) input output errs =
     (let otherwise =
            and_then (decode_type fuel S (ed_decoder D) type_id (input, output)) (\<lambda>(input, output).
            events_decode_fields fuel S D em ids input output errs)
      in if em_pallet em = ''System'' \<and> em_event em = ''ExtrinsicFailed'' then
           (case resolve_type (ed_decoder D) type_id of
              None \<Rightarrow> Err (error.Metadata (TypeNotFound type_id))
            | Some ty \<Rightarrow>
                if ty_ident ty = Some ''DispatchError'' then
                  and_then (codec_try (decode (c_dispatch S) input)) (\<lambda>(dispatch_error, input).
                  and_then (from_dispatch (ed_decoder D) dispatch_error) (\<lambda>runtime_error.
                  events_decode_fields fuel S D em ids input (output @ encode (c_dispatch S) dispatch_error)
                    (errs @ [runtime_error])))
                else otherwise)
         else otherwise)"

definition events_decode_raw_event ::
    "nat \<Rightarrow> scale \<Rightarrow> events_decoder \<Rightarrow> event_metadata \<Rightarrow> bytes \<Rightarrow> (error, bytes \<times> bytes \<times> runtime_error list) res" where
  "events_decode_raw_event fuel S D em input =
     events_decode_fields fuel S D em (v_fields (em_variant em)) input [] []"

text \<open>The loop of \<^verbatim>\<open>decode_events\<close>: the number of records left, the input, and the results so far.\<close>

primrec events_decode_records ::
    "nat \<Rightarrow> scale \<Rightarrow> events_decoder \<Rightarrow> nat \<Rightarrow> bytes \<Rightarrow> (phase \<times> events_raw) list \<Rightarrow>
       (error, (phase \<times> events_raw) list \<times> bytes) res" where
  "events_decode_records fuel S D 0 input r = Ok (r, input)"
| "events_decode_records fuel S D (Suc left) input r =
     and_then (codec_try (decode_phase S input)) (\<lambda>(phase, input).
     and_then (codec_try (read_byte S input)) (\<lambda>(pallet_index, input).
     and_then (codec_try (read_byte S input)) (\<lambda>(variant_index, input).
     and_then (map_err error.Metadata (event (ed_decoder D) pallet_index variant_index)) (\<lambda>event_metadata.
     and_then (events_decode_raw_event fuel S D event_metadata input) (\<lambda>(input, event_data, event_errors).
     and_then (codec_try (decode (c_hash_vec S) input)) (\<lambda>(topics, input).
     events_decode_records fuel S D left input
       (if event_errors = []
        then r @ [(phase, EvEvent
               \<lparr>ev_pallet = em_pallet event_metadata, ev_pallet_index = pallet_index, ev_variant = em_event event_metadata,
                ev_variant_index = variant_index, ev_data = event_data\<rparr>)]
        else r @ map (\<lambda>err. (phase, EvError err)) event_errors)))))))"

definition events_decode_events ::
    "nat \<Rightarrow> scale \<Rightarrow> events_decoder \<Rightarrow> bytes \<Rightarrow> (error, (phase \<times> events_raw) list \<times> bytes) res" where
  "events_decode_events fuel S D input =
     and_then (codec_try (decode (c_compact_u32 S) input)) (\<lambda>(len, input).
     events_decode_records fuel S D (unat len) input [])"

section \<open>Agreement with decoder.rs\<close>

text \<open>An event of \<^verbatim>\<open>decoder.rs\<close> as one of \<^verbatim>\<open>events.rs\<close>.\<close>

fun as_events_raw :: "raw \<Rightarrow> events_raw" where
  "as_events_raw (Event e) =
     EvEvent \<lparr>ev_pallet = re_pallet e, ev_pallet_index = re_pallet_index e, ev_variant = re_variant e,
              ev_variant_index = re_variant_index e, ev_data = re_data e\<rparr>"
| "as_events_raw (Error err) = EvError err"

lemma events_decode_fields_eq:
  "events_decode_fields fuel S (events_decoder_new M) em ids i out errs =
     map_ok (\<lambda>((input, output), errs). (input, output, errs))
       (for_each (raw_event_arg fuel S M em) ids ((i, out), errs))"
proof (induction ids arbitrary: i out errs)
  case (Cons type_id ids)
  note arg = raw_event_arg_def [of fuel S M em type_id "((i, out), errs)"]
  have walk: "and_then (decode_type fuel S M type_id (i, out)) (\<lambda>(input, output).
        events_decode_fields fuel S (events_decoder_new M) em ids input output errs) =
      map_ok (\<lambda>((input, output), errs). (input, output, errs))
        (and_then (map_ok (\<lambda>io. (io, errs)) (decode_type fuel S M type_id (i, out)))
          (for_each (raw_event_arg fuel S M em) ids))"
    using Cons.IH by (cases "decode_type fuel S M type_id (i, out)") auto
  show ?case
  proof (cases "em_pallet em = ''System'' \<and> em_event em = ''ExtrinsicFailed''")
    case False
    then show ?thesis using walk by (auto simp: arg events_decoder_new_def Let_def)
  next
    case True
    show ?thesis
    proof (cases "resolve_type M type_id")
      case None
      with True show ?thesis by (simp add: arg events_decoder_new_def resolve_or_err_def ok_or_def Let_def)
    next
      case (Some ty)
      have meta: "ed_decoder (events_decoder_new M) = M" by (simp add: events_decoder_new_def)
      show ?thesis
      proof (cases "ty_ident ty = Some ''DispatchError''")
        case False
        with True Some walk show ?thesis by (simp add: arg meta resolve_or_err_def ok_or_def Let_def)
      next
        case dispatch: True
        with True Some show ?thesis
          by (auto simp: arg meta Cons.IH resolve_or_err_def ok_or_def Let_def map_ok_def and_then_assoc
              intro!: and_then_cong)
      qed
    qed
  qed
qed simp

lemma events_decode_records_eq:
  "events_decode_records fuel S (events_decoder_new M) n i (map (map_prod id as_events_raw) r) =
     map_ok (\<lambda>(input, r). (map (map_prod id as_events_raw) r, input)) (for_n (decode_event_record fuel S M) n (i, r))"
proof (induction n arbitrary: i r)
  case (Suc n)
  note record_def = decode_event_record_def [of fuel S M "(i, r)"]
  have ih: "events_decode_records fuel S (events_decoder_new M) n j (map (map_prod (\<lambda>a. a) as_events_raw) r @ tail) =
      and_then (for_n (decode_event_record fuel S M) n (j, r @ tail'))
        (\<lambda>x. Ok (case x of (input, r) \<Rightarrow> (map (map_prod (\<lambda>a. a) as_events_raw) r, input)))"
    if "tail = map (map_prod id as_events_raw) tail'" for j tail tail'
    using Suc.IH [of j "r @ tail'"] that by (simp add: map_ok_def id_def)
  have meta: "ed_decoder (events_decoder_new M) = M" by (simp add: events_decoder_new_def)
  have fields: "events_decode_raw_event fuel S (events_decoder_new M) em j =
      map_ok (\<lambda>((input, output), errs). (input, output, errs)) (decode_raw_event fuel S M em ((j, []), []))" for em j
    by (simp add: events_decode_raw_event_def decode_raw_event_def events_decode_fields_eq)
  show ?case
    by (auto simp: record_def meta fields map_ok_def and_then_assoc Let_def id_def
        intro!: and_then_cong ih split: prod.splits)
qed simp

text \<open>C26: the event decoder of \<^verbatim>\<open>events.rs\<close> is that of \<^verbatim>\<open>decoder.rs\<close>: on every input, with every metadata, it reports
  the same events and runtime errors in the same order, leaves the same rest, and fails with the same error.\<close>

theorem events_decoder_agrees:
  "events_decode_events fuel S (events_decoder_new M) input =
     map_ok (\<lambda>(raws, rest). (map (map_prod id as_events_raw) raws, rest)) (decode_events fuel S M input)"
  using events_decode_records_eq [of fuel S M _ _ "[]"]
  by (auto simp: events_decode_events_def decode_events_def map_ok_def and_then_assoc intro!: and_then_cong)

end
