(* ===== verification/Metadata_Print.thy ===== *)
theory Metadata_Print
  imports Sample
begin

text \<open>
  Model of the functions of \<^verbatim>\<open>node-api/src/metadata.rs\<close> that print: each returns the text it writes to
  the standard output. A hash map is walked in the order of its list. The forms \<^verbatim>\<open>{:?}\<close> gives the
  types of \<^verbatim>\<open>scale-info\<close> and \<^verbatim>\<open>frame-metadata\<close> and a list of doc strings are parameters (record \<open>debug_forms\<close>),
  and so is the serializer of \<^verbatim>\<open>serde_json\<close> behind \<^verbatim>\<open>pretty_format\<close>.

  The lemmas read the text of \<open>print_overview\<close> back.
\<close>

section \<open>Formatting\<close>

definition newline :: char where
  "newline = CHR 0x0A"

definition println :: "string \<Rightarrow> string" where
  "println s = s @ [newline]"

text \<open>\<^verbatim>\<open>{:?}\<close> of a \<^verbatim>\<open>Vec<u8>\<close>: the numbers in brackets.\<close>

fun comma_separated :: "string list \<Rightarrow> string" where
  "comma_separated [] = []"
| "comma_separated [s] = s"
| "comma_separated (s # ss) = s @ '', '' @ comma_separated ss"

definition debug_bytes :: "bytes \<Rightarrow> string" where
  "debug_bytes b = ''['' @ comma_separated (map (\<lambda>x. show_int (uint x)) b) @ '']''"

record debug_forms =
  dbg_type_id :: "u32 \<Rightarrow> string"
  dbg_entry_type :: "storage_entry_type \<Rightarrow> string"
  dbg_modifier :: "storage_entry_modifier \<Rightarrow> string"
  dbg_variant :: "variant \<Rightarrow> string"
  dbg_docs :: "string list \<Rightarrow> string"

section \<open>One entry\<close>

definition pallet_print :: "pallet_metadata \<Rightarrow> string" where
  "pallet_print self =
     println (''----------------- Pallet: '' @ [CHR 0x27] @ pm_name self @ [CHR 0x27] @ '' -----------------'' @ [newline]) @
     println (''Pallet id: '' @ show_int (uint (pm_index self)))"

definition print_calls :: "pallet_metadata \<Rightarrow> string" where
  "print_calls self =
     println (''----------------- Calls for Pallet: '' @ pm_name self @ '' -----------------'' @ [newline]) @
     concat (map (\<lambda>(name, index). println (''Name: '' @ name @ '', index '' @ show_int (uint index))) (pm_calls self)) @
     println []"

definition print_constants :: "debug_forms \<Rightarrow> pallet_metadata \<Rightarrow> string" where
  "print_constants D self =
     println (''----------------- Constants for Pallet: '' @ pm_name self @ '' -----------------'' @ [newline]) @
     concat (map (\<lambda>(name, c).
       println (''Name: '' @ name @ '', Type '' @ dbg_type_id D (k_ty c) @
         '', Value '' @ debug_bytes (k_value c))) (pm_constants self)) @
     println []"

definition print_storages :: "debug_forms \<Rightarrow> pallet_metadata \<Rightarrow> string" where
  "print_storages D self =
     println (''----------------- Storages for Pallet: '' @ pm_name self @ '' -----------------'' @ [newline]) @
     concat (map (\<lambda>(name, entry).
       println (''Name: '' @ name @ '', Modifier: '' @ dbg_modifier D (se_modifier entry) @
         '', Type '' @ dbg_entry_type D (se_ty entry) @ '', Default '' @ debug_bytes (se_default entry)))
       (pm_storage self)) @
     println []"

definition call_print :: "debug_forms \<Rightarrow> call_metadata \<Rightarrow> string" where
  "call_print D self =
     println (''Name: '' @ cm_call self) @ println (''Variant: '' @ dbg_variant D (cm_variant self)) @ println []"

definition event_print :: "debug_forms \<Rightarrow> event_metadata \<Rightarrow> string" where
  "event_print D self =
     println (''Name: '' @ em_event self) @ println (''Variant: '' @ dbg_variant D (em_variant self)) @ println []"

definition error_print :: "debug_forms \<Rightarrow> error_metadata \<Rightarrow> string" where
  "error_print D self =
     println (''Name: '' @ rm_error self) @ println (''Description: '' @ dbg_docs D (description self)) @ println []"

section \<open>The whole metadata\<close>

definition pretty_format ::
    "(runtime_metadata_prefixed \<Rightarrow> string + bytes) \<Rightarrow> runtime_metadata_prefixed \<Rightarrow> ('e, string option) res" where
  "pretty_format serialize m =
     and_then (unwrap_res (lift (serialize m))) (\<lambda>buf.
     Ok (if utf8 (map unat buf) then Some (map (\<lambda>b. char_of (unat b)) buf) else None))"

text \<open>The lines of one pallet, and the text.\<close>

definition overview_of :: "metadata \<Rightarrow> string \<Rightarrow> pallet_metadata \<Rightarrow> string" where
  "overview_of self name p =
     (let push = (\<lambda>tag s. tag @ s @ [newline]) in
      name @ [newline] @
      concat (map (\<lambda>(entry, _). push '' s  '' entry) (pm_storage p)) @
      concat (map (\<lambda>(c, _). push '' c  '' c) (pm_calls p)) @
      concat (map (\<lambda>(c, _). push '' cst  '' c) (pm_constants p)) @
      concat (map (\<lambda>ev. push '' e  '' (em_event ev)) (events self (pm_index p))) @
      concat (map (\<lambda>er. push '' err  '' (rm_error er)) (errors self (pm_index p))))"

definition print_overview :: "metadata \<Rightarrow> string" where
  "print_overview self = println (concat (map (\<lambda>(name, p). overview_of self name p) (md_pallets self)))"

definition print_pallets :: "metadata \<Rightarrow> string" where
  "print_pallets self = concat (map (\<lambda>(_, m). pallet_print m) (md_pallets self))"

definition print_pallets_with_calls :: "metadata \<Rightarrow> string" where
  "print_pallets_with_calls self =
     concat (map (\<lambda>(_, m). if pm_calls m \<noteq> [] then print_calls m else []) (md_pallets self))"

definition print_pallets_with_constants :: "debug_forms \<Rightarrow> metadata \<Rightarrow> string" where
  "print_pallets_with_constants D self =
     concat (map (\<lambda>(_, m). if pm_constants m \<noteq> [] then print_constants D m else []) (md_pallets self))"

definition print_pallet_with_storages :: "debug_forms \<Rightarrow> metadata \<Rightarrow> string" where
  "print_pallet_with_storages D self =
     concat (map (\<lambda>(_, m). if pm_storage m \<noteq> [] then print_storages D m else []) (md_pallets self))"

definition print_pallets_with_events :: "debug_forms \<Rightarrow> metadata \<Rightarrow> string" where
  "print_pallets_with_events D self =
     concat (map (\<lambda>(_, p).
       println (''----------------- Events for Pallet: '' @ pm_name p @ '' -----------------'' @ [newline]) @
       concat (map (event_print D) (events self (pm_index p))) @ println []) (md_pallets self))"

definition print_pallets_with_errors :: "debug_forms \<Rightarrow> metadata \<Rightarrow> string" where
  "print_pallets_with_errors D self =
     concat (map (\<lambda>(_, p).
       println (''----------------- Errors for Pallet: '' @ pm_name p @ '' -----------------'' @ [newline]) @
       concat (map (error_print D) (errors self (pm_index p))) @ println []) (md_pallets self))"

section \<open>Reading the overview\<close>

text \<open>A line that begins with a space belongs to the pallet of the last line that does not.\<close>

fun split_lines :: "string \<Rightarrow> string list" where
  "split_lines [] = []"
| "split_lines (c # cs) =
     (if c = newline then [] # split_lines cs
      else case split_lines cs of [] \<Rightarrow> [[c]] | l # ls \<Rightarrow> (c # l) # ls)"

definition indented :: "string \<Rightarrow> bool" where
  "indented l \<longleftrightarrow> take 1 l = '' ''"

primrec group_lines :: "string list \<Rightarrow> string list \<times> (string \<times> string list) list" where
  "group_lines [] = ([], [])"
| "group_lines (l # ls) =
     (case group_lines ls of (entries, sections) \<Rightarrow>
       if indented l then (l # entries, sections) else ([], if l = [] then sections else (l, entries) # sections))"

definition read_overview :: "string \<Rightarrow> (string \<times> string list) list" where
  "read_overview s = snd (group_lines (split_lines s))"

text \<open>What stands below the name of a pallet.\<close>

definition overview_entries :: "metadata \<Rightarrow> pallet_metadata \<Rightarrow> string list" where
  "overview_entries m p =
     map (\<lambda>e. '' s  '' @ fst e) (pm_storage p) @ map (\<lambda>e. '' c  '' @ fst e) (pm_calls p) @
     map (\<lambda>e. '' cst  '' @ fst e) (pm_constants p) @ map (\<lambda>e. '' e  '' @ em_event e) (events m (pm_index p)) @
     map (\<lambda>e. '' err  '' @ rm_error e) (errors m (pm_index p))"

text \<open>Names of one line; that of a pallet is not empty and does not begin with a space.\<close>

definition plain_names :: "metadata \<Rightarrow> bool" where
  "plain_names m \<longleftrightarrow>
     (\<forall>(name, p) \<in> set (md_pallets m). newline \<notin> set name \<and> name \<noteq> [] \<and> hd name \<noteq> CHR '' '' \<and>
       (\<forall>e \<in> set (overview_entries m p). newline \<notin> set e))"

lemma split_lines_line: "newline \<notin> set l \<Longrightarrow> split_lines (l @ newline # rest) = l # split_lines rest"
  by (induction l) auto

lemma split_lines_lines:
  "\<forall>l \<in> set ls. newline \<notin> set l \<Longrightarrow> split_lines (concat (map (\<lambda>l. l @ [newline]) ls) @ rest) = ls @ split_lines rest"
  by (induction ls) (simp_all add: split_lines_line)

lemma group_indented:
  "\<forall>l \<in> set ls. indented l \<Longrightarrow> group_lines (ls @ rest) = (ls @ fst (group_lines rest), snd (group_lines rest))"
  by (induction ls) (simp_all split: prod.splits)

lemma overview_of_lines:
  "overview_of m name p = concat (map (\<lambda>l. l @ [newline]) (name # overview_entries m p))"
  by (simp add: overview_of_def overview_entries_def o_def case_prod_unfold)

lemma overview_entries_indented: "e \<in> set (overview_entries m p) \<Longrightarrow> indented e"
  by (auto simp: overview_entries_def indented_def)

lemma read_overview_pallets:
  assumes "\<forall>(name, p) \<in> set ps. newline \<notin> set name \<and> name \<noteq> [] \<and> hd name \<noteq> CHR '' '' \<and>
    (\<forall>e \<in> set (overview_entries m p). newline \<notin> set e)"
  shows "group_lines (split_lines (concat (map (\<lambda>(name, p). overview_of m name p) ps) @ [newline])) =
    ([], map (\<lambda>(name, p). (name, overview_entries m p)) ps)"
  using assms
proof (induction ps)
  case (Cons q ps)
  obtain name p where q: "q = (name, p)" by force
  have "\<not> indented name" using Cons.prems q by (cases name) (auto simp: indented_def)
  moreover have "split_lines (overview_of m name p @ rest) = (name # overview_entries m p) @ split_lines rest" for rest
    unfolding overview_of_lines by (rule split_lines_lines) (use Cons.prems q in auto)
  moreover have "group_lines (overview_entries m p @ rest) =
      (overview_entries m p @ fst (group_lines rest), snd (group_lines rest))" for rest
    by (rule group_indented) (blast intro: overview_entries_indented)
  ultimately show ?case using Cons q by simp
qed (simp add: indented_def)

lemma read_print_overview:
  "plain_names m \<Longrightarrow> read_overview (print_overview m) = map (\<lambda>(name, p). (name, overview_entries m p)) (md_pallets m)"
  using read_overview_pallets [of "md_pallets m" m]
  by (simp add: read_overview_def print_overview_def println_def plain_names_def)

section \<open>What the overview lists\<close>

lemma listed_entries:
  "{n. '' c  '' @ n \<in> set (overview_entries m p)} = fst ` set (pm_calls p)"
  "{n. '' e  '' @ n \<in> set (overview_entries m p)} = em_event ` set (events m (pm_index p))"
  "{n. '' err  '' @ n \<in> set (overview_entries m p)} = rm_error ` set (errors m (pm_index p))"
  by (auto simp: overview_entries_def)

lemma hm_collect_keys: "fst ` set (hm_collect ps) = fst ` set ps"
proof -
  have "k \<in> fst ` set (hm_collect ps) \<longleftrightarrow> k \<in> fst ` set ps" for k
    using hm_get_collect [of ps k] map_of_eq_None_iff [of "rev ps" k] map_of_eq_None_iff [of "hm_collect ps" k]
    by (auto simp: hm_get_def)
  then show ?thesis by blast
qed

lemma pallet_call_names:
  assumes "pallet_metadata_of md p = Ok (name, pm)" and "p \<in> set (v14_pallets md)"
  shows "fst ` set (pm_calls pm) = {v_name var | var. declared p_calls md p var}"
proof (cases "p_calls p")
  case None
  with assms show ?thesis by (auto simp: pallet_metadata_of_def declared_def Let_def)
next
  case (Some ty)
  with assms(1) obtain vars where vars: "get_type_def_variant md ty = Ok vars"
      and "pm_calls pm = hm_collect (map (\<lambda>v. (v_name v, v_index v)) vars)"
    by (auto simp: pallet_metadata_of_def Let_def)
  then have "fst ` set (pm_calls pm) = v_name ` set vars" by (simp add: hm_collect_keys image_image)
  then show ?thesis using assms(2) Some vars by (auto simp: declared_def)
qed

lemma declared_index:
  assumes "unique_indices sel md" and "declared sel md p var" and "q \<in> set (v14_pallets md)" and "p_index q = p_index p"
  shows "q = p"
  using assms by (auto simp: unique_indices_def declared_def distinct_map inj_on_def)

lemma names_of_pallet:
  assumes "set es = {mk p var | p var. declared sel md p var \<and> p_index p = p_index q}"
    and "unique_indices sel md" and "q \<in> set (v14_pallets md)" and "\<And>p var. name_of (mk p var) = v_name var"
  shows "name_of ` set es = {v_name var | var. declared sel md q var}"
proof -
  have "set es = {mk q var | var. declared sel md q var}"
    unfolding assms(1) using declared_index [OF assms(2) _ assms(3)] by metis
  then show ?thesis using assms(4) by (simp add: image_Collect) metis
qed

text \<open>C27: the text \<^verbatim>\<open>print_overview\<close> writes can be read back, a line that begins with a space belonging to the pallet
  named before it: it has one section for each pallet, and below the name of a pallet it lists
  exactly the calls, the events and the errors the metadata of the node declares for it.\<close>

theorem overview_lists_declared:
  assumes "try_from mr (mr, V14 md) = Ok m" and "plain_names m"
    and "unique_indices p_event md" and "unique_indices p_error md"
  shows "map fst (read_overview (print_overview m)) = map fst (md_pallets m) \<and>
    (\<forall>(name, entries) \<in> set (read_overview (print_overview m)). \<exists>p \<in> set (v14_pallets md). p_name p = name \<and>
      {n. '' c  '' @ n \<in> set entries} = {v_name var | var. declared p_calls md p var} \<and>
      {n. '' e  '' @ n \<in> set entries} = {v_name var | var. declared p_event md p var} \<and>
      {n. '' err  '' @ n \<in> set entries} = {v_name var | var. declared p_error md p var})"
proof -
  have "\<exists>p \<in> set (v14_pallets md). p_name p = name \<and>
      fst ` set (pm_calls pm) = {v_name var | var. declared p_calls md p var} \<and>
      em_event ` set (events m (pm_index pm)) = {v_name var | var. declared p_event md p var} \<and>
      rm_error ` set (errors m (pm_index pm)) = {v_name var | var. declared p_error md p var}"
    if "(name, pm) \<in> set (md_pallets m)" for name pm
  proof -
    have "hm_wf (md_pallets m)" using assms(1) by (auto simp: try_from_Ok hm_wf_collect)
    with that have "pallet m name = Ok pm" by (simp add: pallet_def hm_get_def hm_wf_def)
    from pallet_from_v14 [OF assms(1) this] obtain p
      where p: "p \<in> set (v14_pallets md)" "pallet_metadata_of md p = Ok (name, pm)" by blast
    from pallet_metadata_of_fields [OF p(2)] have pm: "p_name p = name" "pm_index pm = p_index p" by simp_all
    have "em_event ` set (events m (pm_index pm)) = {v_name var | var. declared p_event md p var}"
      unfolding events_def pm(2)
      by (rule names_of_pallet [OF event_table.entries_of_pallet [OF assms(1,3)] assms(3) p(1)]) (simp add: event_entry_def)
    moreover have "rm_error ` set (errors m (pm_index pm)) = {v_name var | var. declared p_error md p var}"
      unfolding errors_def pm(2)
      by (rule names_of_pallet [OF error_table.entries_of_pallet [OF assms(1,4)] assms(4) p(1)]) (simp add: error_entry_def)
    ultimately show ?thesis using p(1) pm(1) pallet_call_names [OF p(2,1)] by blast
  qed
  then have "\<forall>(name, pm) \<in> set (md_pallets m). \<exists>p \<in> set (v14_pallets md). p_name p = name \<and>
      {n. '' c  '' @ n \<in> set (overview_entries m pm)} = {v_name var | var. declared p_calls md p var} \<and>
      {n. '' e  '' @ n \<in> set (overview_entries m pm)} = {v_name var | var. declared p_event md p var} \<and>
      {n. '' err  '' @ n \<in> set (overview_entries m pm)} = {v_name var | var. declared p_error md p var}"
    unfolding listed_entries by blast
  then show ?thesis
    unfolding read_print_overview [OF assms(2)] map_map o_def case_prod_unfold set_map ball_simps fst_conv snd_conv
    by blast
qed

lemma sample_plain_names: "plain_names sample_metadata"
  by (simp add: plain_names_def overview_entries_def newline_def events_def errors_def sample_metadata_def)

theorem overview_lists_declared_witness:
  "map fst (read_overview (print_overview sample_metadata)) = [''System'', ''Timestamp''] \<and>
   (\<exists>p entries. (''System'', entries) \<in> set (read_overview (print_overview sample_metadata)) \<and> p_name p = ''System'' \<and>
     {n. '' err  '' @ n \<in> set entries} = {v_name var | var. declared p_error sample_v14 p var})"
proof -
  have names: "map fst (md_pallets sample_metadata) = [''System'', ''Timestamp'']" by (simp add: sample_metadata_def)
  note listed = overview_lists_declared [OF sample_try_from sample_plain_names sample_unique(2,3)]
  have "''System'' \<in> set (map fst (read_overview (print_overview sample_metadata)))"
    unfolding listed [THEN conjunct1] names by simp
  then obtain entries where e: "(''System'', entries) \<in> set (read_overview (print_overview sample_metadata))" by auto
  from bspec [OF listed [THEN conjunct2] e] show ?thesis using listed [THEN conjunct1] names e by auto
qed

end
