(* ===== verification/Extrinsics.thy ===== *)
theory Extrinsics
  imports Scale_Reference Storage
begin

text \<open>
  Model of \<^verbatim>\<open>primitives/src/extrinsics.rs\<close> and \<^verbatim>\<open>primitives/src/lib.rs\<close>: the signed
  extension data, the payload that is signed, and the version 4 extrinsic with its
  encoding behind a length prefix.

  \<^verbatim>\<open>Era\<close>, \<^verbatim>\<open>MultiAddress\<close> and \<^verbatim>\<open>MultiSignature\<close> are types of \<^verbatim>\<open>sp_runtime\<close>: type variables
  here, with their codecs in the record \<open>xt_codecs\<close>. The memory size of the extrinsic
  type, which \<^verbatim>\<open>encode_with_vec_prefix\<close> asks for to reserve room, is a parameter too.

  The lemmas show that the reserved room does not show in the result, that encoding and
  decoding are inverse, and what the decoder ignores and refuses.
\<close>

unbundle bit_operations_syntax

section \<open>Codecs of the types of sp_runtime and sp_core\<close>

record ('era, 'addr, 'sig) xt_codecs =
  c_era :: "'era codec"
  c_address :: "'addr codec"
  c_signature :: "'sig codec"
  c_h256 :: "hash codec"

definition unit_codec :: "unit codec" where
  "unit_codec = \<lparr>decode = (\<lambda>bs. Inr ((), bs)), encode = (\<lambda>_. [])\<rparr>"

section \<open>GenericExtra and SignedPayload\<close>

record 'era generic_extra =
  ge_era :: 'era
  ge_nonce :: u32
  ge_tip :: u128

definition generic_extra_new :: "'era \<Rightarrow> u32 \<Rightarrow> 'era generic_extra" where
  "generic_extra_new era nonce = \<lparr>ge_era = era, ge_nonce = nonce, ge_tip = 0\<rparr>"

definition generic_extra_default :: "'era \<Rightarrow> 'era generic_extra" where
  "generic_extra_default immortal = generic_extra_new immortal 0"

text \<open>\<^verbatim>\<open>derive(Decode, Encode)\<close> on the three fields.\<close>

definition generic_extra_codec :: "scale \<Rightarrow> 'era codec \<Rightarrow> 'era generic_extra codec" where
  "generic_extra_codec S E =
     wrap_codec (\<lambda>(era, nonce, tip). \<lparr>ge_era = era, ge_nonce = nonce, ge_tip = tip\<rparr>)
       (\<lambda>x. (ge_era x, ge_nonce x, ge_tip x))
       (pair_codec E (pair_codec (c_compact_u32 S) (c_compact_u128 S)))"

type_synonym additional_signed = "u32 \<times> u32 \<times> hash \<times> hash \<times> unit \<times> unit \<times> unit"

definition additional_signed_codec :: "scale \<Rightarrow> hash codec \<Rightarrow> additional_signed codec" where
  "additional_signed_codec S H256 =
     pair_codec (c_u32 S) (pair_codec (c_u32 S) (pair_codec H256 (pair_codec H256
       (pair_codec unit_codec (pair_codec unit_codec unit_codec)))))"

datatype ('call, 'era) signed_payload =
  SignedPayload (sp_tuple: "'call \<times> 'era generic_extra \<times> additional_signed")

definition from_raw ::
    "'call \<Rightarrow> 'era generic_extra \<Rightarrow> additional_signed \<Rightarrow> ('call, 'era) signed_payload" where
  "from_raw call extra additional_signed = SignedPayload (call, extra, additional_signed)"

definition payload_codec ::
    "scale \<Rightarrow> ('era, 'addr, 'sig) xt_codecs \<Rightarrow> 'call codec \<Rightarrow> ('call \<times> 'era generic_extra \<times> additional_signed) codec" where
  "payload_codec S X C =
     pair_codec C (pair_codec (generic_extra_codec S (c_era X)) (additional_signed_codec S (c_h256 X)))"

definition using_encoded ::
    "scale \<Rightarrow> hashers \<Rightarrow> ('era, 'addr, 'sig) xt_codecs \<Rightarrow> 'call codec \<Rightarrow> ('call, 'era) signed_payload \<Rightarrow>
       (bytes \<Rightarrow> 'r) \<Rightarrow> 'r" where
  "using_encoded S H X C self f =
     (let payload = encode (payload_codec S X C) (sp_tuple self) in
      if 256 < length payload then f (blake2_256 H payload) else f payload)"

section \<open>UncheckedExtrinsicV4\<close>

record ('call, 'addr, 'sig, 'era) unchecked_extrinsic =
  x_signature :: "('addr \<times> 'sig \<times> 'era generic_extra) option"
  x_function :: 'call

definition new_signed ::
    "'call \<Rightarrow> 'addr \<Rightarrow> 'sig \<Rightarrow> 'era generic_extra \<Rightarrow> ('call, 'addr, 'sig, 'era) unchecked_extrinsic" where
  "new_signed function address signature extra =
     \<lparr>x_signature = Some (address, signature, extra), x_function = function\<rparr>"

definition V4 :: u8 where
  "V4 = 4"

text \<open>
  \<open>sz\<close> is \<^verbatim>\<open>size_of::<T>()\<close>. The encoder appends to the vector it is given; the first
  \<open>reserve\<close> bytes are then replaced by the encoded length (\<^verbatim>\<open>splice\<close>).
\<close>

definition encode_with_vec_prefix :: "scale \<Rightarrow> nat \<Rightarrow> (bytes \<Rightarrow> bytes) \<Rightarrow> bytes" where
  "encode_with_vec_prefix S sz encoder =
     (let reserve = (if sz \<le> 63 then 1 else if sz \<le> 16383 then 2 else 4);
          v = replicate reserve 0;
          v = encoder v;
          len = length v - reserve
      in encode (c_unit_vec S) len @ drop reserve v)"

definition signature_codec ::
    "scale \<Rightarrow> ('era, 'addr, 'sig) xt_codecs \<Rightarrow> ('addr \<times> 'sig \<times> 'era generic_extra) codec" where
  "signature_codec S X =
     pair_codec (c_address X) (pair_codec (c_signature X) (generic_extra_codec S (c_era X)))"

definition encode_extrinsic ::
    "scale \<Rightarrow> nat \<Rightarrow> ('era, 'addr, 'sig) xt_codecs \<Rightarrow> 'call codec \<Rightarrow>
       ('call, 'addr, 'sig, 'era) unchecked_extrinsic \<Rightarrow> bytes" where
  "encode_extrinsic S sz X C self =
     encode_with_vec_prefix S sz (\<lambda>v.
       let v = (case x_signature self of
                  Some s \<Rightarrow> (let v = v @ [V4 OR 0b10000000] in v @ encode (signature_codec S X) s)
                | None \<Rightarrow> v @ [V4 AND 0b01111111])
       in v @ encode C (x_function self))"

definition decode_extrinsic ::
    "scale \<Rightarrow> ('era, 'addr, 'sig) xt_codecs \<Rightarrow> 'call codec \<Rightarrow> bytes \<Rightarrow>
       codec_error + (('call, 'addr, 'sig, 'era) unchecked_extrinsic \<times> bytes)" where
  "decode_extrinsic S X C input =
     (case decode (c_unit_vec S) input of Inl e \<Rightarrow> Inl e | Inr (_, input) \<Rightarrow>
     (case read_byte S input of Inl e \<Rightarrow> Inl e | Inr (version, input) \<Rightarrow>
     (let is_signed = (version AND 0b10000000 \<noteq> 0);
          version = version AND 0b01111111
      in if version \<noteq> V4 then Inl (CodecError ''Invalid transaction version'')
         else
           (case (if is_signed then map_sum id (map_prod Some id) (decode (signature_codec S X) input)
                  else Inr (None, input)) of
              Inl e \<Rightarrow> Inl e
            | Inr (signature, input) \<Rightarrow>
                (case decode C input of Inl e \<Rightarrow> Inl e | Inr (function, input) \<Rightarrow>
                  Inr (\<lparr>x_signature = signature, x_function = function\<rparr>, input))))))"

definition extrinsic_codec ::
    "scale \<Rightarrow> nat \<Rightarrow> ('era, 'addr, 'sig) xt_codecs \<Rightarrow> 'call codec \<Rightarrow>
       ('call, 'addr, 'sig, 'era) unchecked_extrinsic codec" where
  "extrinsic_codec S sz X C =
     \<lparr>decode = decode_extrinsic S X C, encode = encode_extrinsic S sz X C\<rparr>"

section \<open>Accounts\<close>

record 'balance account_data =
  ad_free :: 'balance
  ad_reserved :: 'balance
  ad_misc_frozen :: 'balance
  ad_fee_frozen :: 'balance

definition account_data_codec :: "'balance codec \<Rightarrow> 'balance account_data codec" where
  "account_data_codec B =
     wrap_codec
       (\<lambda>(free, reserved, misc_frozen, fee_frozen).
          \<lparr>ad_free = free, ad_reserved = reserved, ad_misc_frozen = misc_frozen, ad_fee_frozen = fee_frozen\<rparr>)
       (\<lambda>d. (ad_free d, ad_reserved d, ad_misc_frozen d, ad_fee_frozen d))
       (pair_codec B (pair_codec B (pair_codec B B)))"

record ('index, 'data) account_info =
  ai_nonce :: 'index
  ai_consumers :: u32
  ai_providers :: u32
  ai_sufficients :: u32
  ai_data :: 'data

definition account_info_codec ::
    "scale \<Rightarrow> 'index codec \<Rightarrow> 'data codec \<Rightarrow> ('index, 'data) account_info codec" where
  "account_info_codec S I D =
     wrap_codec
       (\<lambda>(nonce, consumers, providers, sufficients, data).
          \<lparr>ai_nonce = nonce, ai_consumers = consumers, ai_providers = providers,
           ai_sufficients = sufficients, ai_data = data\<rparr>)
       (\<lambda>a. (ai_nonce a, ai_consumers a, ai_providers a, ai_sufficients a, ai_data a))
       (pair_codec I (pair_codec (c_u32 S) (pair_codec (c_u32 S) (pair_codec (c_u32 S) D))))"

section \<open>The length prefix\<close>

text \<open>An encoder that only appends: the reserved bytes are gone from the result.\<close>

lemma encode_with_vec_prefix_append:
  "encode_with_vec_prefix S sz (\<lambda>v. v @ body) = encode (c_unit_vec S) (length body) @ body"
  by (simp add: encode_with_vec_prefix_def Let_def)

definition extrinsic_body ::
    "scale \<Rightarrow> ('era, 'addr, 'sig) xt_codecs \<Rightarrow> 'call codec \<Rightarrow>
       ('call, 'addr, 'sig, 'era) unchecked_extrinsic \<Rightarrow> bytes" where
  "extrinsic_body S X C xt =
     (case x_signature xt of None \<Rightarrow> [4] | Some s \<Rightarrow> 132 # encode (signature_codec S X) s) @
     encode C (x_function xt)"

lemma version_bytes: "V4 OR 128 = 132" "V4 AND 127 = 4"
  by (simp_all add: V4_def)

lemma encode_extrinsic_eq:
  "encode_extrinsic S sz X C xt =
     encode (c_unit_vec S) (length (extrinsic_body S X C xt)) @ extrinsic_body S X C xt"
proof -
  have "encode_extrinsic S sz X C xt = encode_with_vec_prefix S sz (\<lambda>v. v @ extrinsic_body S X C xt)"
    by (simp add: encode_extrinsic_def extrinsic_body_def version_bytes Let_def split: option.splits)
  then show ?thesis by (simp add: encode_with_vec_prefix_append)
qed

section \<open>Laws of the derived codecs\<close>

lemma unit_codec_lawful: "lawful_codec unit_codec (\<lambda>_. True)"
  by unfold_locales (simp_all add: unit_codec_def)

lemma account_data_lawful:
  assumes "lawful_codec B (\<lambda>_. True)"
  shows "lawful_codec (account_data_codec B) (\<lambda>_. True)"
  using lawful_wrap [OF lawful_pair [OF assms lawful_pair [OF assms lawful_pair [OF assms assms]]],
      where un = "\<lambda>d. (ad_free d, ad_reserved d, ad_misc_frozen d, ad_fee_frozen d)" and
        mk = "\<lambda>(free, reserved, misc_frozen, fee_frozen). \<lparr>ad_free = free, ad_reserved = reserved,
          ad_misc_frozen = misc_frozen, ad_fee_frozen = fee_frozen\<rparr>"]
  by (simp add: account_data_codec_def case_prod_beta)

context scale_laws
begin

lemma account_info_codec_lawful:
  assumes "lawful_codec I (\<lambda>_. True)" and "lawful_codec D (\<lambda>_. True)"
  shows "lawful_codec (account_info_codec S I D) (\<lambda>_. True)"
  using lawful_wrap [OF lawful_pair [OF assms(1) lawful_pair [OF u32_lawful lawful_pair [OF u32_lawful
      lawful_pair [OF u32_lawful assms(2)]]]],
      where un = "\<lambda>a. (ai_nonce a, ai_consumers a, ai_providers a, ai_sufficients a, ai_data a)" and
        mk = "\<lambda>(nonce, consumers, providers, sufficients, data).
          \<lparr>ai_nonce = nonce, ai_consumers = consumers, ai_providers = providers,
           ai_sufficients = sufficients, ai_data = data\<rparr>"]
  by (simp add: account_info_codec_def case_prod_beta)

end

text \<open>Values whose parts the codecs of the other crates can represent.\<close>

definition ok_signature ::
    "('era \<Rightarrow> bool) \<Rightarrow> ('addr \<Rightarrow> bool) \<Rightarrow> ('sig \<Rightarrow> bool) \<Rightarrow> 'addr \<times> 'sig \<times> 'era generic_extra \<Rightarrow> bool" where
  "ok_signature ok_era ok_addr ok_sig s \<longleftrightarrow>
     ok_addr (fst s) \<and> ok_sig (fst (snd s)) \<and> ok_era (ge_era (snd (snd s)))"

definition ok_xt ::
    "('era \<Rightarrow> bool) \<Rightarrow> ('addr \<Rightarrow> bool) \<Rightarrow> ('sig \<Rightarrow> bool) \<Rightarrow> ('call \<Rightarrow> bool) \<Rightarrow>
       ('call, 'addr, 'sig, 'era) unchecked_extrinsic \<Rightarrow> bool" where
  "ok_xt ok_era ok_addr ok_sig ok_call xt \<longleftrightarrow>
     (case x_signature xt of None \<Rightarrow> True | Some s \<Rightarrow> ok_signature ok_era ok_addr ok_sig s) \<and>
     ok_call (x_function xt)"

definition ok_additional :: "additional_signed \<Rightarrow> bool" where
  "ok_additional a \<longleftrightarrow> (case a of (_, _, g, h, _) \<Rightarrow> length g = 32 \<and> length h = 32)"

definition ok_payload ::
    "('era \<Rightarrow> bool) \<Rightarrow> ('call \<Rightarrow> bool) \<Rightarrow> 'call \<times> 'era generic_extra \<times> additional_signed \<Rightarrow> bool" where
  "ok_payload ok_era ok_call = (\<lambda>(c, x, a). ok_call c \<and> ok_era (ge_era x) \<and> ok_additional a)"

text \<open>What the encoding of an extrinsic relies on.\<close>

locale xt_laws = scale_laws S
  for S :: scale and X :: "('era, 'addr, 'sig) xt_codecs" and C :: "'call codec"
    and ok_era ok_addr ok_sig ok_call +
  assumes era_roundtrip: "roundtrip_codec (c_era X) ok_era"
    and address_roundtrip: "roundtrip_codec (c_address X) ok_addr"
    and signature_roundtrip: "roundtrip_codec (c_signature X) ok_sig"
    and h256_roundtrip: "roundtrip_codec (c_h256 X) (\<lambda>h. length h = 32)"
    and call_roundtrip: "roundtrip_codec C ok_call"
begin

lemma extra_roundtrip: "roundtrip_codec (generic_extra_codec S (c_era X)) (\<lambda>x. ok_era (ge_era x))"
  using roundtrip_wrap [OF roundtrip_pair [OF era_roundtrip roundtrip_pair [OF scale_roundtrip(4,5)]],
      where un = "\<lambda>x. (ge_era x, ge_nonce x, ge_tip x)" and
        mk = "\<lambda>(era, nonce, tip). \<lparr>ge_era = era, ge_nonce = nonce, ge_tip = tip\<rparr>"]
  by (simp add: generic_extra_codec_def)

lemma signature_codec_roundtrip: "roundtrip_codec (signature_codec S X) (ok_signature ok_era ok_addr ok_sig)"
  using roundtrip_pair [OF address_roundtrip roundtrip_pair [OF signature_roundtrip extra_roundtrip]]
  by (simp add: signature_codec_def ok_signature_def [abs_def] case_prod_beta')

lemma decode_body:
  assumes "ok_xt ok_era ok_addr ok_sig ok_call xt" and "n < 2 ^ 32"
  shows "decode_extrinsic S X C (encode (c_unit_vec S) n @ extrinsic_body S X C xt @ rest) = Inr (xt, rest)"
  using assms
  by (cases xt; cases "x_signature xt")
    (simp_all add: decode_extrinsic_def extrinsic_body_def ok_xt_def Let_def version_bytes read_byte_Cons V4_def
      roundtrip_codec.decode_encode [OF scale_roundtrip(7)]
      roundtrip_codec.decode_encode [OF signature_codec_roundtrip]
      roundtrip_codec.decode_encode [OF call_roundtrip])

lemma decode_bad_version:
  assumes "n < 2 ^ 32" and "version AND 127 \<noteq> 4"
  shows "decode_extrinsic S X C (encode (c_unit_vec S) n @ version # rest) =
    Inl (CodecError ''Invalid transaction version'')"
  using assms
  by (simp add: decode_extrinsic_def Let_def read_byte_Cons V4_def
      roundtrip_codec.decode_encode [OF scale_roundtrip(7)])

lemma additional_roundtrip: "roundtrip_codec (additional_signed_codec S (c_h256 X)) ok_additional"
proof -
  have unit: "roundtrip_codec unit_codec (\<lambda>_. True)"
    using unit_codec_lawful by (simp add: lawful_codec_def)
  show ?thesis
    using roundtrip_pair [OF scale_roundtrip(2) roundtrip_pair [OF scale_roundtrip(2)
        roundtrip_pair [OF h256_roundtrip roundtrip_pair [OF h256_roundtrip
          roundtrip_pair [OF unit roundtrip_pair [OF unit unit]]]]]]
    by (simp add: additional_signed_codec_def ok_additional_def [abs_def] case_prod_beta')
qed

lemma payload_roundtrip:
  "roundtrip_codec (payload_codec S X C) (ok_payload ok_era ok_call)"
  using roundtrip_pair [OF call_roundtrip roundtrip_pair [OF extra_roundtrip additional_roundtrip]]
  by (simp add: payload_codec_def ok_payload_def case_prod_beta')

end

end
