(* ===== verification/Xt_Reference.thy ===== *)
theory Xt_Reference
  imports Extrinsics
begin

text \<open>
  The SCALE encodings of \<^verbatim>\<open>Era\<close>, \<^verbatim>\<open>MultiAddress<AccountId32, ()>\<close>, \<^verbatim>\<open>MultiSignature\<close> and
  \<^verbatim>\<open>H256\<close>, as the crates \<^verbatim>\<open>sp_runtime\<close> and \<^verbatim>\<open>sp_core\<close> document them: an instance of the
  parameters of \<open>Extrinsics\<close>, on which the laws assumed there hold (\<open>xt_fmt\<close>) and its
  theorems can be evaluated.
\<close>

section \<open>Arrays and byte vectors\<close>

definition array_codec :: "nat \<Rightarrow> bytes codec" where
  "array_codec n = \<lparr>decode = take_buf n, encode = (\<lambda>x. x)\<rparr>"

definition byte_vec_codec :: "bytes codec" where
  "byte_vec_codec =
     \<lparr>decode = (\<lambda>bs. case dec_compact (2 ^ 32) bs of Inl e \<Rightarrow> Inl e | Inr (n, r) \<Rightarrow> take_buf n r),
      encode = (\<lambda>x. enc_compact (length x) @ x)\<rparr>"

lemma array_codec_roundtrip: "roundtrip_codec (array_codec n) (\<lambda>x. length x = n)"
  by unfold_locales (simp add: array_codec_def take_buf_append)

lemma byte_vec_codec_roundtrip: "roundtrip_codec byte_vec_codec (\<lambda>x. length x < 2 ^ 32)"
  by unfold_locales (simp add: byte_vec_codec_def dec_compact_enc take_buf_append)

section \<open>Addresses and signatures\<close>

datatype multi_address = Id bytes | Index | Raw bytes | Address32 bytes | Address20 bytes

fun ok_address :: "multi_address \<Rightarrow> bool" where
  "ok_address (Id a) = (length a = 32)"
| "ok_address Index = True"
| "ok_address (Raw x) = (length x < 2 ^ 32)"
| "ok_address (Address32 x) = (length x = 32)"
| "ok_address (Address20 x) = (length x = 20)"

fun enc_address :: "multi_address \<Rightarrow> bytes" where
  "enc_address (Id a) = 0 # a"
| "enc_address Index = [1]"
| "enc_address (Raw x) = 2 # encode byte_vec_codec x"
| "enc_address (Address32 x) = 3 # x"
| "enc_address (Address20 x) = 4 # x"

definition dec_address :: "bytes \<Rightarrow> codec_error + (multi_address \<times> bytes)" where
  "dec_address bs =
     (case take_byte bs of Inl e \<Rightarrow> Inl e | Inr (b, r) \<Rightarrow>
       (if b = 0 then map_sum id (map_prod Id id) (take_buf 32 r)
        else if b = 1 then Inr (Index, r)
        else if b = 2 then map_sum id (map_prod Raw id) (decode byte_vec_codec r)
        else if b = 3 then map_sum id (map_prod Address32 id) (take_buf 32 r)
        else if b = 4 then map_sum id (map_prod Address20 id) (take_buf 20 r)
        else Inl (bad_variant ''MultiAddress'')))"

definition address_codec :: "multi_address codec" where
  "address_codec = \<lparr>decode = dec_address, encode = enc_address\<rparr>"

datatype multi_signature = Ed25519 bytes | Sr25519 bytes | Ecdsa bytes

fun ok_multi_signature :: "multi_signature \<Rightarrow> bool" where
  "ok_multi_signature (Ed25519 x) = (length x = 64)"
| "ok_multi_signature (Sr25519 x) = (length x = 64)"
| "ok_multi_signature (Ecdsa x) = (length x = 65)"

fun enc_multi_signature :: "multi_signature \<Rightarrow> bytes" where
  "enc_multi_signature (Ed25519 x) = 0 # x"
| "enc_multi_signature (Sr25519 x) = 1 # x"
| "enc_multi_signature (Ecdsa x) = 2 # x"

definition dec_multi_signature :: "bytes \<Rightarrow> codec_error + (multi_signature \<times> bytes)" where
  "dec_multi_signature bs =
     (case take_byte bs of Inl e \<Rightarrow> Inl e | Inr (b, r) \<Rightarrow>
       (if b = 0 then map_sum id (map_prod Ed25519 id) (take_buf 64 r)
        else if b = 1 then map_sum id (map_prod Sr25519 id) (take_buf 64 r)
        else if b = 2 then map_sum id (map_prod Ecdsa id) (take_buf 65 r)
        else Inl (bad_variant ''MultiSignature'')))"

definition multi_signature_codec :: "multi_signature codec" where
  "multi_signature_codec = \<lparr>decode = dec_multi_signature, encode = enc_multi_signature\<rparr>"

lemma address_codec_roundtrip: "roundtrip_codec address_codec ok_address"
proof
  fix x r assume "ok_address x"
  then show "decode address_codec (encode address_codec x @ r) = Inr (x, r)"
    by (cases x) (simp_all add: address_codec_def dec_address_def take_byte_def take_buf_append
        roundtrip_codec.decode_encode [OF byte_vec_codec_roundtrip])
qed

lemma multi_signature_codec_roundtrip: "roundtrip_codec multi_signature_codec ok_multi_signature"
proof
  fix x r assume "ok_multi_signature x"
  then show "decode multi_signature_codec (encode multi_signature_codec x @ r) = Inr (x, r)"
    by (cases x) (simp_all add: multi_signature_codec_def dec_multi_signature_def take_byte_def take_buf_append)
qed

section \<open>Eras\<close>

text \<open>A mortal era: a period that is a power of two, and a phase in it, in steps of the
  quantization factor.\<close>

datatype era = Immortal | Mortal nat nat

fun trailing_zeros :: "nat \<Rightarrow> nat" where
  "trailing_zeros n = (if n = 0 \<or> odd n then 0 else Suc (trailing_zeros (n div 2)))"

declare trailing_zeros.simps [simp del]

definition quantize :: "nat \<Rightarrow> nat" where
  "quantize period = max (period div 4096) 1"

fun enc_era :: "era \<Rightarrow> bytes" where
  "enc_era Immortal = [0]"
| "enc_era (Mortal period phase) =
     nat_le 2 (min 15 (max 1 (trailing_zeros period - 1)) + 16 * (phase div quantize period))"

definition dec_era :: "bytes \<Rightarrow> codec_error + (era \<times> bytes)" where
  "dec_era bs =
     (case take_byte bs of Inl e \<Rightarrow> Inl e | Inr (first, r) \<Rightarrow>
       if first = 0 then Inr (Immortal, r)
       else (case take_byte r of Inl e \<Rightarrow> Inl e | Inr (second, r') \<Rightarrow>
         (let encoded = unat first + 256 * unat second;
              period = 2 * 2 ^ (encoded mod 16);
              phase = encoded div 16 * quantize period
          in if 4 \<le> period \<and> phase < period then Inr (Mortal period phase, r')
             else Inl (CodecError ''Invalid period and phase''))))"

definition era_codec :: "era codec" where
  "era_codec = \<lparr>decode = dec_era, encode = enc_era\<rparr>"

fun ok_era :: "era \<Rightarrow> bool" where
  "ok_era Immortal = True"
| "ok_era (Mortal period phase) \<longleftrightarrow>
     period \<in> (\<lambda>k. 2 ^ k) ` {2..16} \<and> phase < period \<and> quantize period dvd phase"

lemma trailing_zeros_power: "trailing_zeros (2 ^ k) = k"
  by (induction k) (simp_all add: trailing_zeros.simps)

lemma era_bytes:
  fixes m :: nat
  assumes "m < 65536"
  shows "\<exists>a b. nat_le 2 m = [a, b] \<and> unat a = m mod 256 \<and> unat b = m div 256"
  using assms by (simp add: nat_le_numeral unat_of_nat)

lemma era_codec_roundtrip: "roundtrip_codec era_codec ok_era"
proof
  fix x r assume ok: "ok_era x"
  show "decode era_codec (encode era_codec x @ r) = Inr (x, r)"
  proof (cases x)
    case Immortal
    then show ?thesis by (simp add: era_codec_def dec_era_def take_byte_def)
  next
    case (Mortal period phase)
    with ok obtain k where k: "period = 2 ^ k" "2 \<le> k" "k \<le> 16" and lt: "phase < period"
      and q: "quantize period dvd phase" by auto
    obtain j where j: "k = Suc j" "1 \<le> j" "j \<le> 15" using k by (cases k) auto
    define s where "s = phase div quantize period"
    have phase: "phase = s * quantize period" using q by (simp add: s_def)
    have qpos: "0 < quantize period" by (simp add: quantize_def)
    have "period \<le> 4096 * quantize period"
    proof (cases "k \<le> 12")
      case True
      then have "(2::nat) ^ k \<le> 2 ^ 12" by (intro power_increasing) auto
      then show ?thesis using k by (simp add: quantize_def)
    next
      case False
      then have "period = 2 ^ (k - 12) * 4096" using k power_add [of "2::nat" "k - 12" 12] by simp
      then show ?thesis by (simp add: quantize_def)
    qed
    with lt phase have "s * quantize period < 4096 * quantize period" by linarith
    then have s: "s < 4096" using qpos by simp
    define m where "m = j + 16 * s"
    have enc: "encode era_codec x = nat_le 2 m"
      using Mortal k j trailing_zeros_power [of k]
      by (simp add: era_codec_def m_def s_def min_def max_def)
    have "m < 65536" using s j by (simp add: m_def)
    from era_bytes [OF this] obtain a b where ab: "nat_le 2 m = [a, b]" "unat a = m mod 256" "unat b = m div 256"
      by blast
    have "m mod 16 = j" and "m div 16 = s" using j by (simp_all add: m_def)
    moreover have "a \<noteq> 0"
    proof
      assume "a = 0"
      then have "m mod 256 = 0" using ab by simp
      then have "m mod 16 = 0" by presburger
      with \<open>m mod 16 = j\<close> j show False by simp
    qed
    moreover have "m mod 256 + 256 * (m div 256) = m" by simp
    moreover have "(4::nat) \<le> 2 * 2 ^ j" using power_increasing [of 1 j "2::nat"] j by simp
    ultimately have "dec_era (a # b # r) = Inr (Mortal period phase, r)"
      using lt phase k j by (simp add: ab dec_era_def take_byte_def Let_def)
    then show ?thesis
      unfolding enc ab(1) by (simp add: Mortal era_codec_def)
  qed
qed

section \<open>The instance\<close>

definition xt_ref :: "(era, multi_address, multi_signature) xt_codecs" where
  "xt_ref = \<lparr>c_era = era_codec, c_address = address_codec, c_signature = multi_signature_codec,
     c_h256 = array_codec 32\<rparr>"

interpretation xt_fmt: xt_laws scale_ref xt_ref byte_vec_codec ok_era ok_address ok_multi_signature
    "\<lambda>c. length c < 2 ^ 32"
  by (intro xt_laws.intro xt_laws_axioms.intro scale_fmt.scale_laws_axioms)
    (simp_all only: xt_ref_def xt_codecs.select_convs era_codec_roundtrip address_codec_roundtrip
      multi_signature_codec_roundtrip array_codec_roundtrip byte_vec_codec_roundtrip)

interpretation byte_vec_fmt: roundtrip_codec byte_vec_codec "\<lambda>c. length c < 2 ^ 32"
  by (rule byte_vec_codec_roundtrip)

end
