(* ===== verification/Utils.thy ===== *)
theory Utils
  imports Extrinsics
begin

text \<open>
  Model of \<^verbatim>\<open>src/utils.rs\<close> and of \<^verbatim>\<open>UncheckedExtrinsicV4::hex_encode\<close>: storage keys of plain
  names, and bytes and hashes as hex strings. The crate \<^verbatim>\<open>hex\<close> is a parameter (record
  \<open>hex_crate\<close>); \<open>hex_laws\<close> states what its documentation says of \<^verbatim>\<open>encode\<close> (two lower
  case digits for each byte) and \<^verbatim>\<open>decode\<close> (its inverse), and \<open>hex_ref\<close> is the function it documents.
\<close>

section \<open>The crate hex\<close>

datatype from_hex_error = InvalidHexCharacter char nat | OddLength | InvalidStringLength

record hex_crate =
  hex_encode :: "bytes \<Rightarrow> string"
  hex_decode :: "string \<Rightarrow> from_hex_error + bytes"

section \<open>Operations\<close>

definition utils_storage_key :: "hashers \<Rightarrow> string \<Rightarrow> string \<Rightarrow> storage_key" where
  "utils_storage_key H module storage_key_name =
     (let key = twox_128 H (as_bytes module);
          key = key @ twox_128 H (as_bytes storage_key_name)
      in key)"

text \<open>\<^verbatim>\<open>str::trim_matches(char)\<close> and \<^verbatim>\<open>str::trim_start_matches(&str)\<close>: every repetition is cut.\<close>

definition trim_matches :: "char \<Rightarrow> string \<Rightarrow> string" where
  "trim_matches c s = rev (dropWhile (\<lambda>x. x = c) (rev (dropWhile (\<lambda>x. x = c) s)))"

fun trim_start_0x :: "string \<Rightarrow> string" where
  "trim_start_0x (a # b # s) =
     (if a = CHR ''0'' \<and> b = CHR ''x'' then trim_start_0x s else a # b # s)"
| "trim_start_0x s = s"

definition vec_from_hex :: "hex_crate \<Rightarrow> string \<Rightarrow> from_hex_error + bytes" where
  "vec_from_hex HX hex =
     (let hexstr = trim_start_0x (trim_matches (CHR 0x22) hex) in hex_decode HX hexstr)"

definition hash_from_hex :: "hex_crate \<Rightarrow> string \<Rightarrow> from_hex_error + hash" where
  "hash_from_hex HX hex =
     (case vec_from_hex HX hex of
        Inl e \<Rightarrow> Inl e
      | Inr vec \<Rightarrow> (if length vec = 32 then Inr vec else Inl InvalidStringLength))"

definition xt_hex_encode ::
    "hex_crate \<Rightarrow> scale \<Rightarrow> nat \<Rightarrow> ('era, 'addr, 'sig) xt_codecs \<Rightarrow> 'call codec \<Rightarrow>
       ('call, 'addr, 'sig, 'era) unchecked_extrinsic \<Rightarrow> string" where
  "xt_hex_encode HX S sz X C self =
     (let hex_str = hex_encode HX (encode_extrinsic S sz X C self) in ''0x'' @ hex_str)"

text \<open>The \<^verbatim>\<open>Debug\<close> form of an extrinsic: the signature is left out. The forms of its parts are arguments.\<close>

definition xt_debug ::
    "('addr \<Rightarrow> string) \<Rightarrow> ('era generic_extra \<Rightarrow> string) \<Rightarrow> ('call \<Rightarrow> string) \<Rightarrow>
       ('call, 'addr, 'sig, 'era) unchecked_extrinsic \<Rightarrow> string" where
  "xt_debug debug_addr debug_extra debug_call self =
     (let signature = (case x_signature self of
            None \<Rightarrow> ''None''
          | Some (addr, _, extra) \<Rightarrow> ''Some(('' @ debug_addr addr @ '', '' @ debug_extra extra @ ''))'')
      in ''UncheckedExtrinsic('' @ signature @ '', '' @ debug_call (x_function self) @ '')'')"

section \<open>Laws\<close>

definition hex_digits :: string where
  "hex_digits = ''0123456789abcdef''"

locale hex_laws =
  fixes HX :: hex_crate
  assumes hex_decode_encode: "hex_decode HX (hex_encode HX bs) = Inr bs"
    and hex_encode_digits: "set (hex_encode HX bs) \<subseteq> set hex_digits"
    and hex_encode_append: "hex_encode HX (as @ bs) = hex_encode HX as @ hex_encode HX bs"
begin

lemma hex_encode_inject: "hex_encode HX a = hex_encode HX b \<Longrightarrow> a = b"
  by (metis hex_decode_encode sum.inject(2))

lemma trim_quotes_hex:
  "trim_matches (CHR 0x22) (hex_encode HX bs) = hex_encode HX bs"
  "trim_matches (CHR 0x22) (''0x'' @ hex_encode HX bs) = ''0x'' @ hex_encode HX bs"
proof -
  have noq: "CHR 0x22 \<notin> set (hex_encode HX bs)"
    using hex_encode_digits [of bs] by (auto simp: hex_digits_def)
  have keep: "trim_matches c s = s" if "c \<notin> set s" for c s
  proof -
    have "dropWhile (\<lambda>x. x = c) s = s" if "c \<notin> set s" for s using that by (cases s) auto
    with that show ?thesis by (simp add: trim_matches_def)
  qed
  from noq show "trim_matches (CHR 0x22) (hex_encode HX bs) = hex_encode HX bs"
    and "trim_matches (CHR 0x22) (''0x'' @ hex_encode HX bs) = ''0x'' @ hex_encode HX bs"
    by (simp_all add: keep)
qed

lemma trim_0x_hex: "trim_start_0x (hex_encode HX bs) = hex_encode HX bs"
proof -
  have "CHR ''x'' \<notin> set (hex_encode HX bs)"
    using hex_encode_digits [of bs] by (auto simp: hex_digits_def)
  then show ?thesis by (cases "hex_encode HX bs" rule: trim_start_0x.cases) auto
qed

lemma vec_from_hex_encode:
  "vec_from_hex HX (''0x'' @ hex_encode HX bs) = Inr bs"
  "vec_from_hex HX (hex_encode HX bs) = Inr bs"
  using trim_quotes_hex(2) [of bs]
  by (simp_all add: vec_from_hex_def trim_quotes_hex(1) trim_0x_hex hex_decode_encode)

lemma trim_quoted:
  assumes "s \<noteq> []" and "hd s \<noteq> c" and "last s \<noteq> c"
  shows "trim_matches c (c # s @ [c]) = s"
proof -
  have a: "dropWhile (\<lambda>x. x = c) (s @ [c]) = s @ [c]" using assms(1,2) by (cases s) auto
  obtain t l where "s = t @ [l]" using assms(1) by (metis rev_exhaust)
  with assms(3) a show ?thesis by (simp add: trim_matches_def)
qed

lemma vec_from_hex_quoted:
  "vec_from_hex HX (CHR 0x22 # (''0x'' @ hex_encode HX bs) @ [CHR 0x22]) = Inr bs"
proof -
  have "last (''0x'' @ hex_encode HX bs) \<in> set (''0x'' @ hex_encode HX bs)" by (intro last_in_set) simp
  then have l: "last (''0x'' @ hex_encode HX bs) \<noteq> CHR 0x22"
    using hex_encode_digits [of bs] unfolding hex_digits_def set_append by fastforce
  then have "trim_matches (CHR 0x22) (CHR 0x22 # (''0x'' @ hex_encode HX bs) @ [CHR 0x22]) =
      ''0x'' @ hex_encode HX bs"
    by (intro trim_quoted) simp_all
  then show ?thesis
    by (simp add: vec_from_hex_def trim_0x_hex hex_decode_encode)
qed

end

section \<open>The documented functions\<close>

definition hex_digit :: "nat \<Rightarrow> char" where
  "hex_digit n = hex_digits ! n"

definition digit_value :: "char \<Rightarrow> nat option" where
  "digit_value c =
     (let n = of_char c :: nat in
      if 48 \<le> n \<and> n \<le> 57 then Some (n - 48)
      else if 97 \<le> n \<and> n \<le> 102 then Some (n - 87)
      else if 65 \<le> n \<and> n \<le> 70 then Some (n - 55)
      else None)"

definition ref_hex_encode :: "bytes \<Rightarrow> string" where
  "ref_hex_encode bs = concat (map (\<lambda>b. [hex_digit (unat b div 16), hex_digit (unat b mod 16)]) bs)"

fun ref_hex_pairs :: "nat \<Rightarrow> string \<Rightarrow> from_hex_error + bytes" where
  "ref_hex_pairs i (a # b # s) =
     (case digit_value a of None \<Rightarrow> Inl (InvalidHexCharacter a i) | Some x \<Rightarrow>
     (case digit_value b of None \<Rightarrow> Inl (InvalidHexCharacter b (i + 1)) | Some y \<Rightarrow>
     (case ref_hex_pairs (i + 2) s of Inl e \<Rightarrow> Inl e | Inr bs \<Rightarrow> Inr (of_nat (16 * x + y) # bs))))"
| "ref_hex_pairs i [] = Inr []"
| "ref_hex_pairs i [a] = Inl OddLength"

definition ref_hex_decode :: "string \<Rightarrow> from_hex_error + bytes" where
  "ref_hex_decode s = (if odd (length s) then Inl OddLength else ref_hex_pairs 0 s)"

definition hex_ref :: hex_crate where
  "hex_ref = \<lparr>hex_encode = ref_hex_encode, hex_decode = ref_hex_decode\<rparr>"

lemma hex_digit_cases:
  assumes "n < 16"
  shows "digit_value (hex_digit n) = Some n \<and> hex_digit n \<in> set hex_digits"
proof -
  have "\<forall>m \<in> set [0..<16]. digit_value (hex_digit m) = Some m \<and> hex_digit m \<in> set hex_digits"
    by (simp add: upt_rec hex_digit_def hex_digits_def digit_value_def)
  then show ?thesis using assms by simp
qed

lemma ref_hex_pairs_encode: "ref_hex_pairs i (ref_hex_encode bs) = Inr bs"
proof (induction bs arbitrary: i)
  case (Cons b bs)
  have "unat b < 256" using unsigned_less [of b] by simp
  then have "digit_value (hex_digit (unat b div 16)) = Some (unat b div 16)"
    and "digit_value (hex_digit (unat b mod 16)) = Some (unat b mod 16)"
    by (simp_all add: hex_digit_cases)
  moreover have "(of_nat (16 * (unat b div 16) + unat b mod 16) :: u8) = b"
    by (simp only: mult_div_mod_eq) simp
  ultimately show ?case
    using Cons.IH by (simp add: ref_hex_encode_def del: of_nat_add of_nat_mult)
qed (simp add: ref_hex_encode_def)

lemma ref_hex_encode_length: "length (ref_hex_encode bs) = 2 * length bs"
  by (induction bs) (simp_all add: ref_hex_encode_def)

interpretation hex_fmt: hex_laws hex_ref
proof
  fix bs
  show "hex_decode hex_ref (hex_encode hex_ref bs) = Inr bs"
    by (simp add: hex_ref_def ref_hex_decode_def ref_hex_encode_length ref_hex_pairs_encode)
  have "hex_digit (unat b div 16) \<in> set hex_digits \<and> hex_digit (unat b mod 16) \<in> set hex_digits" for b :: u8
  proof -
    have "unat b < 256" using unsigned_less [of b] by simp
    then show ?thesis by (simp add: hex_digit_cases)
  qed
  then show "set (hex_encode hex_ref bs) \<subseteq> set hex_digits"
    by (auto simp: hex_ref_def ref_hex_encode_def)
  show "hex_encode hex_ref (as @ bs) = hex_encode hex_ref as @ hex_encode hex_ref bs" for as
    by (simp add: hex_ref_def ref_hex_encode_def)
qed

end
