(* ===== verification/Compose.thy ===== *)
theory Compose
  imports Metadata Xt_Reference Utils
begin

text \<open>
  Model of the macros \<^verbatim>\<open>compose_call!\<close> and \<^verbatim>\<open>compose_extrinsic_offline!\<close>
  (\<^verbatim>\<open>compose-macros/src/lib.rs\<close>). A key pair is the function that signs and its public key;
  the conversions of \<^verbatim>\<open>sp_runtime\<close> from a public key to an address and from a signature to a
  \<^verbatim>\<open>MultiSignature\<close> are parameters (record \<open>conversions\<close>). A call with arguments is encoded
  as the tuple of its two index bytes and the arguments.

  \<open>node_accepts\<close> specifies what a node does with a received extrinsic: it decodes the
  bytes, rebuilds the payload from the decoded call and extra and the chain's own constants
  and checks the signature.
\<close>

record ('pub, 'psig) pair =
  pair_public :: 'pub
  pair_sign :: "bytes \<Rightarrow> 'psig"

record ('pub, 'psig, 'acc, 'addr, 'sig) conversions =
  into_account :: "'pub \<Rightarrow> 'acc"
  address_from :: "'acc \<Rightarrow> 'addr"
  into_signature :: "'psig \<Rightarrow> 'sig"

type_synonym 'a composed_call = "bytes \<times> 'a"

definition compose_call ::
    "metadata \<Rightarrow> string \<Rightarrow> string \<Rightarrow> 'a \<Rightarrow> ('e, 'a composed_call) res" where
  "compose_call node_metadata pallet_name call_name args =
     and_then (unwrap_res (pallet node_metadata pallet_name)) (\<lambda>pallet.
     and_then (unwrap (hm_get (pm_calls pallet) call_name)) (\<lambda>call_index.
     Ok ([pm_index pallet, call_index], args)))"

text \<open>The codec of such a tuple: the array of two bytes, then the arguments.\<close>

definition composed_call_codec :: "scale \<Rightarrow> 'a codec \<Rightarrow> 'a composed_call codec" where
  "composed_call_codec S A =
     pair_codec \<lparr>decode = read_buf S 2, encode = (\<lambda>x. x)\<rparr> A"

definition compose_extrinsic_offline ::
    "scale \<Rightarrow> hashers \<Rightarrow> ('era, 'addr, 'sig) xt_codecs \<Rightarrow> 'call codec \<Rightarrow>
     ('pub, 'psig, 'acc, 'addr, 'sig) conversions \<Rightarrow> ('pub, 'psig) pair \<Rightarrow> 'call \<Rightarrow> u32 \<Rightarrow> 'era \<Rightarrow>
     hash \<Rightarrow> hash \<Rightarrow> u32 \<Rightarrow> u32 \<Rightarrow> ('call, 'addr, 'sig, 'era) unchecked_extrinsic" where
  "compose_extrinsic_offline S H X C V signer the_call nonce era genesis_hash genesis_or_current_hash
       runtime_spec_version transaction_version =
     (let extra = generic_extra_new era nonce;
          raw_payload = from_raw the_call extra
            (runtime_spec_version, transaction_version, genesis_hash, genesis_or_current_hash, (), (), ());
          signature = using_encoded S H X C raw_payload (\<lambda>payload. pair_sign signer payload);
          multi_signer = pair_public signer
      in new_signed the_call (address_from V (into_account V multi_signer)) (into_signature V signature) extra)"

section \<open>The node's check\<close>

definition node_accepts ::
    "('addr \<Rightarrow> 'sig \<Rightarrow> bytes \<Rightarrow> bool) \<Rightarrow> scale \<Rightarrow> hashers \<Rightarrow> ('era, 'addr, 'sig) xt_codecs \<Rightarrow> 'call codec \<Rightarrow>
       additional_signed \<Rightarrow> bytes \<Rightarrow> bool" where
  "node_accepts verify S H X C chain bytes =
     (case decode_extrinsic S X C bytes of
        Inr (xt, []) \<Rightarrow>
          (case x_signature xt of
             Some (addr, sig, extra) \<Rightarrow>
               using_encoded S H X C (SignedPayload (x_function xt, extra, chain)) (verify addr sig)
           | None \<Rightarrow> False)
      | _ \<Rightarrow> False)"

section \<open>Composed calls\<close>

lemma compose_call_Ok_iff:
  "compose_call M p c args = Ok cl \<longleftrightarrow>
     (\<exists>pm i. pallet M p = Ok pm \<and> hm_get (pm_calls pm) c = Some i \<and> cl = ([pm_index pm, i], args))"
  by (auto simp: compose_call_def)

lemma compose_call_outcomes:
  "compose_call M p c args = Panic \<longleftrightarrow>
     (\<forall>pm. pallet M p = Ok pm \<longrightarrow> hm_get (pm_calls pm) c = None)"
proof (cases "pallet M p")
  case (Ok pm)
  then show ?thesis by (cases "hm_get (pm_calls pm) c") (simp_all add: compose_call_def unwrap_res_def)
qed (auto simp: compose_call_def unwrap_res_def pallet_def)

lemma composed_call_encode:
  "encode (composed_call_codec S A) (ix, args) = ix @ encode A args"
  by (simp add: composed_call_codec_def pair_codec_def)

context scale_laws
begin

lemma composed_call_roundtrip:
  assumes "roundtrip_codec A ok"
  shows "roundtrip_codec (composed_call_codec S A) (\<lambda>(ix, args). length ix = 2 \<and> ok args)"
proof -
  have "roundtrip_codec \<lparr>decode = read_buf S 2, encode = (\<lambda>x. x)\<rparr> (\<lambda>ix. length ix = 2)"
    by unfold_locales (simp add: read_buf_append)
  from roundtrip_pair [OF this assms] show ?thesis by (simp add: composed_call_codec_def)
qed

end

lemma composed_xt_laws:
  assumes "xt_laws S X A era_ok addr_ok sig_ok args_ok"
  shows "xt_laws S X (composed_call_codec S A) era_ok addr_ok sig_ok (\<lambda>(ix, args). length ix = 2 \<and> args_ok args)"
  by (intro xt_laws.intro xt_laws_axioms.intro xt_laws.axioms(1) [OF assms] xt_laws.era_roundtrip [OF assms]
      xt_laws.address_roundtrip [OF assms] xt_laws.signature_roundtrip [OF assms] xt_laws.h256_roundtrip [OF assms]
      scale_laws.composed_call_roundtrip [OF xt_laws.axioms(1) [OF assms]] xt_laws.call_roundtrip [OF assms])

section \<open>The signed payload\<close>

lemma using_encoded_short:
  "hash_sizes H \<Longrightarrow> using_encoded S H X C p (\<lambda>b. length b \<le> 256)"
  by (simp add: using_encoded_def Let_def hash_sizes_def)

lemma using_encoded_apply: "using_encoded S H X C p f = f (using_encoded S H X C p (\<lambda>b. b))"
  by (simp add: using_encoded_def Let_def)

context xt_laws
begin

lemma node_accepts_composed:
  assumes ok: "ok_call cl" "ok_era era" "ok_addr (address_from V (into_account V (pair_public signer)))"
    and sig: "\<And>m. ok_sig (into_signature V (pair_sign signer m))"
    and verify: "\<And>m. verify (address_from V (into_account V (pair_public signer)))
        (into_signature V (pair_sign signer m)) m"
    and xt: "xt = compose_extrinsic_offline S H X C V signer cl nonce era genesis current spec tx"
    and len: "length (extrinsic_body S X C xt) < 2 ^ 32"
  shows "node_accepts verify S H X C (spec, tx, genesis, current, (), (), ()) (encode_extrinsic S sz X C xt)"
proof -
  have "ok_xt ok_era ok_addr ok_sig ok_call xt"
    unfolding xt using ok sig
    by (simp add: compose_extrinsic_offline_def Let_def new_signed_def ok_xt_def ok_signature_def
        generic_extra_new_def using_encoded_def)
  from decode_body [OF this len, of "[]"]
  have "decode_extrinsic S X C (encode_extrinsic S sz X C xt) = Inr (xt, [])"
    by (simp add: encode_extrinsic_eq)
  then show ?thesis
    using verify
    by (simp add: node_accepts_def xt compose_extrinsic_offline_def Let_def new_signed_def from_raw_def
        using_encoded_def)
qed

end

end
