(* ===== verification/Xt_Api.thy ===== *)
theory Xt_Api
  imports Compose Sample
begin

text \<open>
  The properties of \<^verbatim>\<open>primitives\<close>, \<^verbatim>\<open>compose-macros\<close> and \<^verbatim>\<open>src/utils.rs\<close>: the extrinsic format,
  what is signed, and the way of an extrinsic through its hex form to the node.
\<close>

definition sample_xt :: "(bytes, multi_address, multi_signature, era) unchecked_extrinsic" where
  "sample_xt = new_signed [1, 1, 1] (Id (replicate 32 7)) (Sr25519 (replicate 64 9))
     (generic_extra_new (Mortal 64 42) 5)"

lemma sample_xt_ok: "ok_xt ok_era ok_address ok_multi_signature (\<lambda>c. length c < 2 ^ 32) sample_xt"
proof -
  have "(64::nat) \<in> (\<lambda>k. 2 ^ k) ` {2..16}" by (rule image_eqI [of _ _ 6]) simp_all
  then show ?thesis
    by (simp add: sample_xt_def new_signed_def ok_xt_def ok_signature_def generic_extra_new_def quantize_def)
qed

lemma sample_xt_body: "length (extrinsic_body scale_ref xt_ref byte_vec_codec sample_xt) = 107"
  by (simp add: sample_xt_def extrinsic_body_def new_signed_def signature_codec_def pair_codec_def xt_ref_def
      address_codec_def multi_signature_codec_def generic_extra_codec_def wrap_codec_def generic_extra_new_def
      era_codec_def scale_ref_def compact_codec_def enc_compact_def byte_vec_codec_def)

section \<open>The extrinsic format\<close>

text \<open>An extrinsic goes through its hex form unchanged: decoding the bytes of the hex string
  that \<^verbatim>\<open>hex_encode\<close> returns gives the extrinsic back and consumes all of them, whatever
  room \<^verbatim>\<open>encode_with_vec_prefix\<close> reserves.\<close>

theorem extrinsic_hex_roundtrip:
  assumes "xt_laws S X C era_ok addr_ok sig_ok call_ok" and "hex_laws HX"
    and "ok_xt era_ok addr_ok sig_ok call_ok xt" and "length (extrinsic_body S X C xt) < 2 ^ 32"
  shows "\<exists>bs. vec_from_hex HX (xt_hex_encode HX S sz X C xt) = Inr bs \<and>
    decode_extrinsic S X C bs = Inr (xt, [])"
  using xt_laws.decode_body [OF assms(1,3,4), of "[]"] hex_laws.vec_from_hex_encode(1) [OF assms(2)]
  by (simp add: xt_hex_encode_def encode_extrinsic_eq)

theorem extrinsic_hex_roundtrip_witness:
  "\<exists>bs. vec_from_hex hex_ref (xt_hex_encode hex_ref scale_ref 200 xt_ref byte_vec_codec sample_xt) = Inr bs \<and>
    decode_extrinsic scale_ref xt_ref byte_vec_codec bs = Inr (sample_xt, [])"
  by (rule extrinsic_hex_roundtrip [OF xt_fmt.xt_laws_axioms hex_fmt.hex_laws_axioms sample_xt_ok])
    (simp add: sample_xt_body)

text \<open>The bytes of an extrinsic are those of a byte vector that holds the version byte (0x84
  signed, 0x04 unsigned), the signature part and the call: the length prefix counts
  exactly what follows it, for every size of the type.\<close>

theorem extrinsic_is_length_prefixed:
  "encode_extrinsic S sz X C xt =
     encode (c_unit_vec S) (length (extrinsic_body S X C xt)) @ extrinsic_body S X C xt"
  by (rule encode_extrinsic_eq)

text \<open>C19: the decoder reads past the length prefix without using it (any length decodes to the
  same extrinsic), and refuses every version byte whose low seven bits are not 4.\<close>

theorem decode_extrinsic_prefix_and_version:
  assumes "xt_laws S X C era_ok addr_ok sig_ok call_ok"
    and "ok_xt era_ok addr_ok sig_ok call_ok xt" and "n < 2 ^ 32"
  shows "decode_extrinsic S X C (encode (c_unit_vec S) n @ extrinsic_body S X C xt @ rest) = Inr (xt, rest) \<and>
    (\<forall>version. version AND 127 \<noteq> 4 \<longrightarrow>
      decode_extrinsic S X C (encode (c_unit_vec S) n @ version # rest) =
        Inl (CodecError ''Invalid transaction version''))"
  using xt_laws.decode_body [OF assms] xt_laws.decode_bad_version [OF assms(1,3)] by blast

theorem decode_extrinsic_prefix_and_version_witness:
  "decode_extrinsic scale_ref xt_ref byte_vec_codec
      (encode (c_unit_vec scale_ref) 3 @ extrinsic_body scale_ref xt_ref byte_vec_codec sample_xt @ [1]) =
    Inr (sample_xt, [1]) \<and>
   decode_extrinsic scale_ref xt_ref byte_vec_codec (encode (c_unit_vec scale_ref) 3 @ 133 # [1]) =
    Inl (CodecError ''Invalid transaction version'')"
  using decode_extrinsic_prefix_and_version [OF xt_fmt.xt_laws_axioms sample_xt_ok, of 3 "[1]"]
  by (simp del: append_Cons)

section \<open>The signed payload\<close>

text \<open>C31: no more than 256 bytes are ever signed; and as long as the encoded payload itself is no
  longer, the signed bytes determine the call, the extra and the chain data.\<close>

theorem signed_bytes_short_and_injective:
  assumes "xt_laws S X C era_ok addr_ok sig_ok call_ok" and "hash_sizes H"
    and "ok_payload era_ok call_ok (sp_tuple p)" and "ok_payload era_ok call_ok (sp_tuple q)"
  shows "length (using_encoded S H X C p (\<lambda>b. b)) \<le> 256 \<and>
    (length (encode (payload_codec S X C) (sp_tuple p)) \<le> 256 \<and>
     length (encode (payload_codec S X C) (sp_tuple q)) \<le> 256 \<and>
     using_encoded S H X C p (\<lambda>b. b) = using_encoded S H X C q (\<lambda>b. b) \<longrightarrow> p = q)"
proof (intro conjI impI)
  show "length (using_encoded S H X C p (\<lambda>b. b)) \<le> 256"
    using using_encoded_short [OF assms(2), of S X C p] using_encoded_apply [of S H X C p "\<lambda>b. length b \<le> 256"]
    by simp
next
  assume "length (encode (payload_codec S X C) (sp_tuple p)) \<le> 256 \<and>
     length (encode (payload_codec S X C) (sp_tuple q)) \<le> 256 \<and>
     using_encoded S H X C p (\<lambda>b. b) = using_encoded S H X C q (\<lambda>b. b)"
  then have "encode (payload_codec S X C) (sp_tuple p) = encode (payload_codec S X C) (sp_tuple q)"
    by (auto simp: using_encoded_def Let_def)
  from roundtrip_codec.encode_inject [OF xt_laws.payload_roundtrip [OF assms(1)] assms(3,4) this]
  show "p = q" by (rule signed_payload.expand)
qed

definition sample_payload :: "u32 \<Rightarrow> (bytes, era) signed_payload" where
  "sample_payload nonce = from_raw [1, 1, 1] (generic_extra_new Immortal nonce)
     (100, 3, replicate 32 1, replicate 32 1, (), (), ())"

theorem signed_bytes_short_and_injective_witness:
  "length (using_encoded scale_ref sample_hashers xt_ref byte_vec_codec (sample_payload 5) (\<lambda>b. b)) \<le> 256 \<and>
   using_encoded scale_ref sample_hashers xt_ref byte_vec_codec (sample_payload 5) (\<lambda>b. b) \<noteq>
     using_encoded scale_ref sample_hashers xt_ref byte_vec_codec (sample_payload 6) (\<lambda>b. b)"
proof -
  have ok: "ok_payload ok_era (\<lambda>c. length c < 2 ^ 32) (sp_tuple (sample_payload n))" for n
    by (simp add: ok_payload_def sample_payload_def from_raw_def generic_extra_new_def ok_additional_def)
  have len: "length (encode (payload_codec scale_ref xt_ref byte_vec_codec) (sp_tuple (sample_payload n))) \<le> 256"
    if "unat n < 64" for n
    using that by (simp add: payload_codec_def sample_payload_def from_raw_def generic_extra_new_def pair_codec_def
        generic_extra_codec_def additional_signed_codec_def wrap_codec_def xt_ref_def era_codec_def scale_ref_def
        compact_codec_def enc_compact_def byte_vec_codec_def word_codec_def array_codec_def unit_codec_def)
  have "sample_payload 5 \<noteq> sample_payload 6"
    by (simp add: sample_payload_def from_raw_def generic_extra_new_def)
  with signed_bytes_short_and_injective [OF xt_fmt.xt_laws_axioms sample_hash_sizes ok ok, of 5 6]
    len [of 5] len [of 6]
  show ?thesis by auto
qed

text \<open>C11: a node accepts what \<^verbatim>\<open>compose_extrinsic_offline!\<close> composes: it decodes the extrinsic, and
  the payload rebuilt from the decoded call and extra and the chain's versions and hashes
  is the one that was signed. The key pair is one whose signatures verify.\<close>

theorem composed_extrinsic_is_accepted:
  assumes "xt_laws S X C era_ok addr_ok sig_ok call_ok"
    and "call_ok cl" and "era_ok era" and "addr_ok (address_from V (into_account V (pair_public signer)))"
    and "\<forall>m. sig_ok (into_signature V (pair_sign signer m))"
    and "\<forall>m. verify (address_from V (into_account V (pair_public signer)))
        (into_signature V (pair_sign signer m)) m"
    and "length (extrinsic_body S X C
        (compose_extrinsic_offline S H X C V signer cl nonce era genesis current spec tx)) < 2 ^ 32"
  shows "node_accepts verify S H X C (spec, tx, genesis, current, (), (), ())
    (encode_extrinsic S sz X C
      (compose_extrinsic_offline S H X C V signer cl nonce era genesis current spec tx))"
  by (rule xt_laws.node_accepts_composed [OF assms(1-4) _ _ refl assms(7)]) (use assms(5,6) in blast)+

text \<open>A signature of the example: the first bytes of the message, padded.\<close>

definition sample_conversions :: "(bytes, bytes, bytes, multi_address, multi_signature) conversions" where
  "sample_conversions = \<lparr>into_account = (\<lambda>p. p), address_from = Id, into_signature = Sr25519\<rparr>"

definition sample_pair :: "(bytes, bytes) pair" where
  "sample_pair = \<lparr>pair_public = replicate 32 7, pair_sign = fit 64\<rparr>"

definition sample_verify :: "multi_address \<Rightarrow> multi_signature \<Rightarrow> bytes \<Rightarrow> bool" where
  "sample_verify a s m \<longleftrightarrow> a = Id (replicate 32 7) \<and> s = Sr25519 (fit 64 m)"

theorem composed_extrinsic_is_accepted_witness:
  "node_accepts sample_verify scale_ref sample_hashers xt_ref byte_vec_codec
     (100, 3, replicate 32 1, replicate 32 1, (), (), ())
     (encode_extrinsic scale_ref 200 xt_ref byte_vec_codec
       (compose_extrinsic_offline scale_ref sample_hashers xt_ref byte_vec_codec sample_conversions sample_pair
          [1, 1, 1] 5 Immortal (replicate 32 1) (replicate 32 1) 100 3))"
  by (rule composed_extrinsic_is_accepted [OF xt_fmt.xt_laws_axioms])
    (simp_all add: sample_conversions_def sample_pair_def sample_verify_def length_fit extrinsic_body_def
      compose_extrinsic_offline_def Let_def new_signed_def signature_codec_def pair_codec_def xt_ref_def
      address_codec_def multi_signature_codec_def generic_extra_codec_def wrap_codec_def generic_extra_new_def
      era_codec_def scale_ref_def compact_codec_def enc_compact_def byte_vec_codec_def using_encoded_def)


section \<open>Calls\<close>

text \<open>C32: the two ways to build a call agree: \<^verbatim>\<open>compose_call!\<close> gives a call exactly when
  \<^verbatim>\<open>encode_call\<close> on the pallet's metadata succeeds, both have the same bytes, and where
  \<^verbatim>\<open>encode_call\<close> or the pallet look-up reports an error the macro panics.\<close>

theorem compose_call_agrees_encode_call:
  "compose_call M p c args =
     (case and_then (pallet M p) (\<lambda>pm. encode_call pm c A args) of
        Ok bytes \<Rightarrow> Ok (take 2 bytes, args)
      | _ \<Rightarrow> Panic) \<and>
   (\<forall>cl. compose_call M p c args = Ok cl \<longrightarrow>
      and_then (pallet M p) (\<lambda>pm. encode_call pm c A args) = Ok (encode (composed_call_codec S A) cl))"
proof (cases "pallet M p")
  case (Ok pm)
  then show ?thesis
    by (cases "hm_get (pm_calls pm) c")
      (simp_all add: compose_call_def encode_call_def unwrap_res_def composed_call_encode)
qed (auto simp: compose_call_def unwrap_res_def pallet_def)

theorem compose_call_agrees_encode_call_witness:
  "compose_call sample_metadata ''System'' ''remark'' ''abc'' = Ok ([0, 1], ''abc'') \<and>
   and_then (pallet sample_metadata ''System'') (\<lambda>pm. encode_call pm ''remark'' str_codec ''abc'') =
     Ok (encode (composed_call_codec scale_ref str_codec) ([0, 1], ''abc''))"
proof -
  have "compose_call sample_metadata ''System'' ''remark'' ''abc'' = Ok ([0, 1], ''abc'')"
    by (simp add: compose_call_def sample_lookups unwrap_res_def sample_system_meta_def hm_get_def)
  with compose_call_agrees_encode_call [of sample_metadata "''System''" "''remark''" "''abc''" str_codec scale_ref]
  show ?thesis by blast
qed

section \<open>Hex strings and accounts\<close>

text \<open>Hex strings as a node sends them, with or without quotes and prefix, decode to the bytes
  they stand for; a hash is accepted exactly when there are 32 of them, and any other
  length is an \<^verbatim>\<open>InvalidStringLength\<close>.\<close>

theorem from_hex_roundtrip:
  assumes "hex_laws HX"
    and "s \<in> {hex_encode HX bs, ''0x'' @ hex_encode HX bs, CHR 0x22 # (''0x'' @ hex_encode HX bs) @ [CHR 0x22]}"
  shows "vec_from_hex HX s = Inr bs \<and>
    hash_from_hex HX s = (if length bs = 32 then Inr bs else Inl InvalidStringLength)"
proof -
  have "vec_from_hex HX s = Inr bs"
    using assms(2) hex_laws.vec_from_hex_encode [OF assms(1), of bs]
      hex_laws.vec_from_hex_quoted [OF assms(1), of bs] by auto
  then show ?thesis by (simp add: hash_from_hex_def)
qed

theorem from_hex_roundtrip_witness:
  "vec_from_hex hex_ref (CHR 0x22 # ''0x01ff'' @ [CHR 0x22]) = Inr [1, 255] \<and>
   hash_from_hex hex_ref (CHR 0x22 # ''0x01ff'' @ [CHR 0x22]) = Inl InvalidStringLength"
  using from_hex_roundtrip [OF hex_fmt.hex_laws_axioms,
      of "CHR 0x22 # (''0x'' @ hex_encode hex_ref [1, 255]) @ [CHR 0x22]" "[1, 255]"]
  by (simp add: hex_ref_def ref_hex_encode_def hex_digit_def hex_digits_def)

section \<open>The unit test of extrinsics\<close>

text \<open>\<^verbatim>\<open>encode_decode_roundtrip_works\<close>: the pair of the test is an argument.\<close>

definition encode_decode_roundtrip_works ::
    "scale \<Rightarrow> nat \<Rightarrow> ('era, 'addr, 'sig) xt_codecs \<Rightarrow> bytes codec \<Rightarrow> ('pub, 'psig, 'acc, 'addr, 'sig) conversions \<Rightarrow> 'era \<Rightarrow>
       ('pub, 'psig) pair \<Rightarrow> bool" where
  "encode_decode_roundtrip_works S sz X C V immortal pair =
     (let msg = as_bytes ''test-message'';
          signature = pair_sign pair msg;
          multi_sig = into_signature V signature;
          account = into_account V (pair_public pair);
          xt = new_signed [1, 1, 1] (address_from V account) multi_sig (generic_extra_default immortal);
          xt_enc = encode_extrinsic S sz X C xt
      in case decode_extrinsic S X C xt_enc of Inr (xt', _) \<Rightarrow> xt = xt' | Inl _ \<Rightarrow> False)"

lemma extrinsic_test_passes:
  "encode_decode_roundtrip_works scale_ref 200 xt_ref byte_vec_codec sample_conversions Immortal sample_pair"
proof -
  let ?xt = "new_signed [1, 1, 1] (Id (replicate 32 7)) (Sr25519 (fit 64 (as_bytes ''test-message''))) (generic_extra_default Immortal)"
  have "ok_xt ok_era ok_address ok_multi_signature (\<lambda>c. length c < 2 ^ 32) ?xt"
    by (simp add: new_signed_def ok_xt_def ok_signature_def generic_extra_default_def generic_extra_new_def length_fit)
  moreover have "length (extrinsic_body scale_ref xt_ref byte_vec_codec ?xt) < 2 ^ 32"
    by (simp add: extrinsic_body_def new_signed_def signature_codec_def pair_codec_def xt_ref_def length_fit
      address_codec_def multi_signature_codec_def generic_extra_codec_def wrap_codec_def generic_extra_default_def
      generic_extra_new_def era_codec_def scale_ref_def compact_codec_def enc_compact_def byte_vec_codec_def)
  ultimately have "decode_extrinsic scale_ref xt_ref byte_vec_codec (encode_extrinsic scale_ref 200 xt_ref byte_vec_codec ?xt) = Inr (?xt, [])"
    using xt_laws.decode_body [OF xt_fmt.xt_laws_axioms, of ?xt _ "[]"] by (simp add: encode_extrinsic_eq)
  then show ?thesis
    by (simp add: encode_decode_roundtrip_works_def Let_def sample_conversions_def sample_pair_def del: as_bytes_def)
qed

end
