(* ===== verification/File_System.thy ===== *)
theory File_System
  imports Prelude "HOL-Library.Sublist"
begin

text \<open>
  The part of \<^verbatim>\<open>std::fs\<close> the keystore uses, on an explicit store: a table of paths with
  directories and files (mode and contents), and the faults the operating system answers
  with. A fault of an operation on a path is an error text and, for a write, the number of
  bytes written before it. Every operation returns its outcome together with the store after
  it, because an operation that fails may have changed the store already.
\<close>

section \<open>State\<close>

type_synonym path = "string list"

datatype node = Dir | File nat string

datatype fs_op = MkDir | Create | Chmod | Write | Stat | Open | Read | ReadDir | NextEntry

record fs =
  fs_nodes :: "(path, node) hashmap"
  fs_fault :: "fs_op \<Rightarrow> path \<Rightarrow> (string \<times> nat) option"
  fs_default_mode :: nat

section \<open>Operations\<close>

definition is_dir :: "fs \<Rightarrow> path \<Rightarrow> bool" where
  "is_dir f p \<longleftrightarrow> p = [] \<or> hm_get (fs_nodes f) p = Some Dir"

definition set_node :: "path \<Rightarrow> node \<Rightarrow> fs \<Rightarrow> fs" where
  "set_node p n f = f\<lparr>fs_nodes := hm_insert p n (fs_nodes f)\<rparr>"

definition create_dir_all :: "path \<Rightarrow> fs \<Rightarrow> (string, unit) res \<times> fs" where
  "create_dir_all p f =
     (case fs_fault f MkDir p of
        Some (e, _) \<Rightarrow> (Err e, f)
      | None \<Rightarrow>
          if \<exists>q \<in> set (prefixes p). \<not> is_dir f q \<and> hm_get (fs_nodes f) q \<noteq> None
          then (Err ''Not a directory'', f)
          else (Ok (), fold (\<lambda>q f. if is_dir f q then f else set_node q Dir f) (prefixes p) f))"

definition file_create :: "path \<Rightarrow> fs \<Rightarrow> (string, unit) res \<times> fs" where
  "file_create p f =
     (case fs_fault f Create p of
        Some (e, _) \<Rightarrow> (Err e, f)
      | None \<Rightarrow>
          if is_dir f p then (Err ''Is a directory'', f)
          else if \<not> is_dir f (butlast p) then (Err ''No such file or directory'', f)
          else (case hm_get (fs_nodes f) p of
              Some (File m _) \<Rightarrow> (Ok (), set_node p (File m []) f)
            | _ \<Rightarrow> (Ok (), set_node p (File (fs_default_mode f) []) f)))"

definition set_permissions :: "path \<Rightarrow> nat \<Rightarrow> fs \<Rightarrow> (string, unit) res \<times> fs" where
  "set_permissions p mode f =
     (case fs_fault f Chmod p of
        Some (e, _) \<Rightarrow> (Err e, f)
      | None \<Rightarrow>
          (case hm_get (fs_nodes f) p of
             Some (File _ c) \<Rightarrow> (Ok (), set_node p (File mode c) f)
           | _ \<Rightarrow> (Ok (), f)))"

definition file_write :: "path \<Rightarrow> string \<Rightarrow> fs \<Rightarrow> (string, unit) res \<times> fs" where
  "file_write p data f =
     (let put = (\<lambda>d. case hm_get (fs_nodes f) p of
          Some (File m c) \<Rightarrow> set_node p (File m (c @ d)) f | _ \<Rightarrow> f)
      in case fs_fault f Write p of
           Some (e, k) \<Rightarrow> (Err e, put (take k data))
         | None \<Rightarrow> (Ok (), put data))"

definition path_exists :: "path \<Rightarrow> fs \<Rightarrow> bool" where
  "path_exists p f \<longleftrightarrow> fs_fault f Stat p = None \<and> (p = [] \<or> hm_get (fs_nodes f) p \<noteq> None)"

definition file_open :: "path \<Rightarrow> fs \<Rightarrow> (string, unit) res" where
  "file_open p f =
     (case fs_fault f Open p of
        Some (e, _) \<Rightarrow> Err e
      | None \<Rightarrow> if path_exists p f then Ok () else Err ''No such file or directory'')"

definition file_read :: "path \<Rightarrow> fs \<Rightarrow> (string, string) res" where
  "file_read p f =
     (case fs_fault f Read p of
        Some (e, _) \<Rightarrow> Err e
      | None \<Rightarrow>
          (case hm_get (fs_nodes f) p of
             Some (File _ c) \<Rightarrow> Ok c
           | _ \<Rightarrow> Err ''Is a directory''))"

text \<open>The paths of the children; the order is the operating system's.\<close>

definition read_dir :: "path \<Rightarrow> fs \<Rightarrow> (string, path list) res" where
  "read_dir p f =
     (case fs_fault f ReadDir p of
        Some (e, _) \<Rightarrow> Err e
      | None \<Rightarrow>
          if is_dir f p
          then Ok (filter (\<lambda>q. q \<noteq> [] \<and> butlast q = p) (map fst (fs_nodes f)))
          else Err ''Not a directory'')"

definition next_entry :: "path \<Rightarrow> fs \<Rightarrow> (string, path) res" where
  "next_entry q f = (case fs_fault f NextEntry q of Some (e, _) \<Rightarrow> Err e | None \<Rightarrow> Ok q)"

section \<open>A store without faults\<close>

definition no_faults :: "fs \<Rightarrow> bool" where
  "no_faults f \<longleftrightarrow> (\<forall>op p. fs_fault f op p = None)"

lemma set_node_simps [simp]:
  "fs_fault (set_node p n f) = fs_fault f" "fs_default_mode (set_node p n f) = fs_default_mode f"
  by (simp_all add: set_node_def)

lemma set_node_get [simp]:
  "hm_get (fs_nodes (set_node p n f)) q = (if q = p then Some n else hm_get (fs_nodes f) q)"
  by (simp add: set_node_def hm_get_insert)

lemma no_faults_set_node [simp]: "no_faults (set_node p n f) = no_faults f"
  by (simp add: no_faults_def)

lemma is_dir_set_node:
  "is_dir (set_node p n f) q \<longleftrightarrow> q = [] \<or> (if q = p then n = Dir else is_dir f q)"
  by (auto simp: is_dir_def)

text \<open>Creating the directories of a path that is there already changes nothing.\<close>

lemma create_dir_all_exists:
  assumes "no_faults f" and "\<forall>q \<in> set (prefixes p). is_dir f q"
  shows "create_dir_all p f = (Ok (), f)"
proof -
  have "fold (\<lambda>q f. if is_dir f q then f else set_node q Dir f) qs f = f"
    if "\<forall>q \<in> set qs. is_dir f q" for qs using that by (induction qs) auto
  with assms show ?thesis by (simp add: create_dir_all_def no_faults_def)
qed

end
