(* ===== verification/Json_Text.thy ===== *)
theory Json_Text
  imports Utils
begin

text \<open>
  The text of a JSON string as \<^verbatim>\<open>serde_json\<close> writes and reads it, for the reference instances of the
  parameters that stand for that crate: the files of the keystore and the messages of the client.
\<close>

section \<open>JSON strings\<close>

text \<open>The JSON form of a string as \<^verbatim>\<open>serde_json\<close> writes it: quotes, a backslash before a quote or
  a backslash, the short escapes and \<^verbatim>\<open>\u00xx\<close> for other control characters. The reader
  takes these forms.\<close>

definition json_escape :: "char \<Rightarrow> string" where
  "json_escape c =
     (let n = of_char c :: nat in
      if n = 34 \<or> n = 92 then [CHR 0x5C, c]
      else if n = 8 then [CHR 0x5C, CHR ''b''] else if n = 9 then [CHR 0x5C, CHR ''t'']
      else if n = 10 then [CHR 0x5C, CHR ''n''] else if n = 12 then [CHR 0x5C, CHR ''f'']
      else if n = 13 then [CHR 0x5C, CHR ''r'']
      else if n < 32 then [CHR 0x5C, CHR ''u'', CHR ''0'', CHR ''0'', hex_digit (n div 16), hex_digit (n mod 16)]
      else [c])"

definition json_short :: "(char \<times> char) list" where
  "json_short = [(CHR 0x22, CHR 0x22), (CHR 0x5C, CHR 0x5C), (CHR ''/'', CHR ''/''), (CHR ''b'', char_of (8::nat)),
     (CHR ''t'', char_of (9::nat)), (CHR ''n'', char_of (10::nat)), (CHR ''f'', char_of (12::nat)),
     (CHR ''r'', char_of (13::nat))]"

fun json_unescape :: "string \<Rightarrow> string + (string \<times> string)" where
  "json_unescape [] = Inl ''EOF while parsing a string''"
| "json_unescape (c # s) =
     (if c = CHR 0x22 then Inr ([], s)
      else if c = CHR 0x5C then
        (case s of
           [] \<Rightarrow> Inl ''EOF while parsing a string''
         | e # s1 \<Rightarrow>
             (case map_of json_short e of
                Some d \<Rightarrow> map_sum (\<lambda>e. e) (apfst (Cons d)) (json_unescape s1)
              | None \<Rightarrow>
                  (case s1 of
                     z1 # z2 # h # l # s2 \<Rightarrow>
                       (case (digit_value h, digit_value l) of
                          (Some x, Some y) \<Rightarrow>
                            if e = CHR ''u'' \<and> z1 = CHR ''0'' \<and> z2 = CHR ''0'' \<and> x < 8
                            then map_sum (\<lambda>e. e) (apfst (Cons (char_of (16 * x + y)))) (json_unescape s2)
                            else Inl ''invalid escape''
                        | _ \<Rightarrow> Inl ''invalid escape'')
                   | _ \<Rightarrow> Inl ''invalid escape'')))
      else if (of_char c :: nat) < 32 then Inl ''control character''
      else map_sum (\<lambda>e. e) (apfst (Cons c)) (json_unescape s))"

definition json_quote :: "string \<Rightarrow> string" where
  "json_quote s = CHR 0x22 # concat (map json_escape s) @ [CHR 0x22]"

lemma json_unescape_escape: "json_unescape (json_escape c @ s) = map_sum (\<lambda>e. e) (apfst (Cons c)) (json_unescape s)"
proof -
  define n where "n = (of_char c :: nat)"
  have c: "c = char_of n" by (simp add: n_def)
  consider "n = 34" | "n = 92" | "n = 8" | "n = 9" | "n = 10" | "n = 12" | "n = 13" |
    "n < 32" "n \<notin> {8, 9, 10, 12, 13}" | "32 \<le> n" "n \<noteq> 34" "n \<noteq> 92" by force
  then show ?thesis
  proof cases
    case 1
    then have "(of_char c :: nat) = of_char (CHR 0x22)" by (simp add: n_def)
    then have "c = CHR 0x22" by (simp only: of_char_eq_iff)
    then show ?thesis by (simp add: json_escape_def json_short_def)
  next
    case 2
    then have "(of_char c :: nat) = of_char (CHR 0x5C)" by (simp add: n_def)
    then have "c = CHR 0x5C" by (simp only: of_char_eq_iff)
    then show ?thesis by (simp add: json_escape_def json_short_def)
  next
    case 8
    then have lt: "n div 16 < 8" by simp
    have d: "digit_value (hex_digit (n div 16)) = Some (n div 16)" "digit_value (hex_digit (n mod 16)) = Some (n mod 16)"
      using 8 by (simp_all add: hex_digit_cases)
    have "n \<noteq> 34" "n \<noteq> 92" "n \<noteq> 8" "n \<noteq> 9" "n \<noteq> 10" "n \<noteq> 12" "n \<noteq> 13" using 8 by auto
    with 8 d lt show ?thesis
      by (simp add: json_escape_def Let_def n_def [symmetric] json_short_def c)
  next
    case 9
    then have "c \<noteq> CHR 0x22" and "c \<noteq> CHR 0x5C" by (auto simp: n_def)
    with 9 show ?thesis by (simp add: json_escape_def Let_def n_def [symmetric])
  qed (simp_all add: json_escape_def Let_def n_def [symmetric] json_short_def c)
qed

lemma json_unescape_quoted: "json_unescape (concat (map json_escape s) @ CHR 0x22 # r) = Inr (s, r)"
  by (induction s) (simp_all add: json_unescape_escape del: json_unescape.simps(2), simp)

lemma json_escape_plain: "c \<in> set hex_digits \<union> {CHR ''x''} \<Longrightarrow> json_escape c = [c]"
  by (auto simp: hex_digits_def json_escape_def)

lemma json_quote_plain:
  "set s \<subseteq> set hex_digits \<union> {CHR ''x''} \<Longrightarrow> json_quote s = CHR 0x22 # s @ [CHR 0x22]"
proof -
  assume "set s \<subseteq> set hex_digits \<union> {CHR ''x''}"
  then have "concat (map json_escape s) = s" by (induction s) (auto simp: json_escape_plain)
  then show ?thesis by (simp add: json_quote_def)
qed

end
