(* ===== verification/Keystore.thy ===== *)
theory Keystore
  imports File_System Json_Text
begin

text \<open>
  Model of \<^verbatim>\<open>client-keystore/src/lib.rs\<close>: \<^verbatim>\<open>KeystoreInner\<close>, which keeps key phrases in files
  and short-lived ones in memory, and \<^verbatim>\<open>LocalKeystore\<close>, which wraps it in a lock and
  implements the traits of \<^verbatim>\<open>sp_keystore\<close>. A trait method takes the lock once for the
  whole of its work on the store, so it is one step on the pair of the keystore and the file
  system; only \<^verbatim>\<open>has_keys\<close> takes it for each key, which is one step too when no other thread
  writes (\<open>Keystore_Threads\<close> has the other case).

  The key schemes of \<^verbatim>\<open>sp_core\<close> (record \<open>crypto\<close>), the JSON form of a string of
  \<^verbatim>\<open>serde_json\<close> (record \<open>json_str\<close>) and the hex crate are parameters. A public key is its
  raw bytes. The randomness of \<^verbatim>\<open>generate_with_phrase\<close> is an argument of it.
\<close>

section \<open>Parameters\<close>

type_synonym key_type_id = bytes

record 'pair crypto =
  crypto_id :: bytes
  generate_with_phrase :: "nat \<Rightarrow> string option \<Rightarrow> 'pair \<times> string"
  from_string :: "string \<Rightarrow> string option \<Rightarrow> 'pair option"
  public_raw :: "'pair \<Rightarrow> bytes"
  public_from_slice :: "bytes \<Rightarrow> bytes option"
  sign_encoded :: "'pair \<Rightarrow> bytes \<Rightarrow> bytes"

record ('sr, 'ed, 'ec) cryptos =
  sr25519 :: "'sr crypto"
  ed25519 :: "'ed crypto"
  ecdsa :: "'ec crypto"

record json_str =
  str_to_json :: "string \<Rightarrow> string"
  json_to_str :: "string \<Rightarrow> string + string"

text \<open>The errors of \<^verbatim>\<open>sc_keystore\<close> the code raises, and those of \<^verbatim>\<open>sp_keystore\<close>.\<close>

datatype ks_error =
    KsIo string
  | KsJson string
  | InvalidPhrase
  | InvalidSeed
  | PublicKeyMismatch

datatype trait_error =
    KeyNotSupported key_type_id
  | FromKeystore ks_error
  | TraitOther string

section \<open>State\<close>

record keystore =
  ks_path :: "path option"
  ks_additional :: "(key_type_id \<times> bytes, string) hashmap"
  ks_password :: "string option"

section \<open>KeystoreInner\<close>

definition open_store :: "path \<Rightarrow> string option \<Rightarrow> fs \<Rightarrow> (ks_error, keystore) res \<times> fs" where
  "open_store path password f =
     st_then (apfst (map_err KsIo) (create_dir_all path f)) (\<lambda>_ f.
     (Ok \<lparr>ks_path = Some path, ks_additional = [], ks_password = password\<rparr>, f))"

definition new_in_memory :: keystore where
  "new_in_memory = \<lparr>ks_path = None, ks_additional = [], ks_password = None\<rparr>"

definition password :: "keystore \<Rightarrow> string option" where
  "password self = ks_password self"

definition get_additional_pair :: "keystore \<Rightarrow> bytes \<Rightarrow> key_type_id \<Rightarrow> string option" where
  "get_additional_pair self public key_type = hm_get (ks_additional self) (key_type, public)"

definition insert_ephemeral_pair ::
    "'pair crypto \<Rightarrow> 'pair \<Rightarrow> string \<Rightarrow> key_type_id \<Rightarrow> keystore \<Rightarrow> keystore" where
  "insert_ephemeral_pair C pair seed key_type self =
     self\<lparr>ks_additional := hm_insert (key_type, public_raw C pair) seed (ks_additional self)\<rparr>"

definition key_file_path :: "hex_crate \<Rightarrow> keystore \<Rightarrow> bytes \<Rightarrow> key_type_id \<Rightarrow> path option" where
  "key_file_path HX self public key_type =
     (case ks_path self of
        None \<Rightarrow> None
      | Some buf \<Rightarrow> Some (buf @ [hex_encode HX key_type @ hex_encode HX public]))"

text \<open>\<^verbatim>\<open>0o600\<close>. Flushing a \<^verbatim>\<open>File\<close> does nothing.\<close>

definition write_to_file :: "json_str \<Rightarrow> path \<Rightarrow> string \<Rightarrow> fs \<Rightarrow> (ks_error, unit) res \<times> fs" where
  "write_to_file J file data f =
     st_then (apfst (map_err KsIo) (file_create file f)) (\<lambda>_ f.
     st_then (apfst (map_err KsIo) (set_permissions file 384 f)) (\<lambda>_ f.
     st_then (apfst (map_err KsJson) (file_write file (str_to_json J data) f)) (\<lambda>_ f.
     (Ok (), f))))"

definition insert_unknown ::
    "hex_crate \<Rightarrow> json_str \<Rightarrow> keystore \<Rightarrow> key_type_id \<Rightarrow> string \<Rightarrow> bytes \<Rightarrow> fs \<Rightarrow> (ks_error, unit) res \<times> fs" where
  "insert_unknown HX J self key_type suri public f =
     (case key_file_path HX self public key_type of
        Some path \<Rightarrow> st_then (write_to_file J path suri f) (\<lambda>_ f. (Ok (), f))
      | None \<Rightarrow> (Ok (), f))"

definition generate_by_type ::
    "hex_crate \<Rightarrow> json_str \<Rightarrow> 'pair crypto \<Rightarrow> nat \<Rightarrow> key_type_id \<Rightarrow> keystore \<times> fs \<Rightarrow>
       (ks_error, 'pair) res \<times> (keystore \<times> fs)" where
  "generate_by_type HX J C entropy key_type st =
     (let self = fst st; f = snd st;
          (pair, phrase) = generate_with_phrase C entropy (password self)
      in case key_file_path HX self (public_raw C pair) key_type of
           Some path \<Rightarrow>
             st_then (apsnd (Pair self) (write_to_file J path phrase f)) (\<lambda>_ st. (Ok pair, st))
         | None \<Rightarrow> (Ok pair, (insert_ephemeral_pair C pair phrase key_type self, f)))"

definition insert_ephemeral_from_seed_by_type ::
    "'pair crypto \<Rightarrow> string \<Rightarrow> key_type_id \<Rightarrow> keystore \<Rightarrow> (ks_error, 'pair) res \<times> keystore" where
  "insert_ephemeral_from_seed_by_type C seed key_type self =
     (case from_string C seed None of
        None \<Rightarrow> (Err InvalidSeed, self)
      | Some pair \<Rightarrow> (Ok pair, insert_ephemeral_pair C pair seed key_type self))"

definition key_phrase_by_type ::
    "hex_crate \<Rightarrow> json_str \<Rightarrow> keystore \<Rightarrow> fs \<Rightarrow> bytes \<Rightarrow> key_type_id \<Rightarrow> (ks_error, string option) res" where
  "key_phrase_by_type HX J self f public key_type =
     (case get_additional_pair self public key_type of
        Some phrase \<Rightarrow> Ok (Some phrase)
      | None \<Rightarrow>
          (case key_file_path HX self public key_type of
             None \<Rightarrow> Ok None
           | Some path \<Rightarrow>
               if path_exists path f then
                 and_then (map_err KsIo (file_open path f)) (\<lambda>_.
                 and_then (map_err KsJson (file_read path f)) (\<lambda>contents.
                 map_ok Some (map_err KsJson (lift (json_to_str J contents)))))
               else Ok None))"

definition key_pair_by_type ::
    "hex_crate \<Rightarrow> json_str \<Rightarrow> 'pair crypto \<Rightarrow> keystore \<Rightarrow> fs \<Rightarrow> bytes \<Rightarrow> key_type_id \<Rightarrow>
       (ks_error, 'pair option) res" where
  "key_pair_by_type HX J C self f public key_type =
     and_then (key_phrase_by_type HX J self f public key_type) (\<lambda>found.
     case found of
       None \<Rightarrow> Ok None
     | Some phrase \<Rightarrow>
         and_then (ok_or (from_string C phrase (password self)) InvalidPhrase) (\<lambda>pair.
         if public_raw C pair = public then Ok (Some pair) else Err PublicKeyMismatch))"

text \<open>The names of a directory that are the hex form of a key type and a public key; \<^verbatim>\<open>to_str\<close>
  refuses a name that is not UTF-8.\<close>

definition public_of_name :: "hex_crate \<Rightarrow> key_type_id \<Rightarrow> path \<Rightarrow> bytes option" where
  "public_of_name HX kid path =
     (if path = [] \<or> \<not> utf8 (map of_char (last path)) then None
      else case hex_decode HX (last path) of
        Inr hex \<Rightarrow> (if 4 < length hex then (if take 4 hex \<noteq> kid then None else Some (drop 4 hex)) else None)
      | Inl _ \<Rightarrow> None)"

definition raw_public_keys ::
    "hex_crate \<Rightarrow> keystore \<Rightarrow> fs \<Rightarrow> key_type_id \<Rightarrow> (ks_error, bytes list) res" where
  "raw_public_keys HX self f kid =
     (let public_keys = List.map_filter (\<lambda>k. if fst k = kid then Some (snd k) else None)
            (map fst (ks_additional self))
      in case ks_path self of
           None \<Rightarrow> Ok public_keys
         | Some path \<Rightarrow>
             and_then (map_err KsIo (read_dir path f)) (\<lambda>entries.
             for_each (\<lambda>entry public_keys.
               and_then (map_err KsIo (next_entry entry f)) (\<lambda>path.
               case public_of_name HX kid path of
                 Some public \<Rightarrow> Ok (public_keys @ [public])
               | None \<Rightarrow> Ok public_keys)) entries public_keys))"

text \<open>\<^verbatim>\<open>key_pair\<close> of an application key: its type id is part of the key type.\<close>

definition key_pair ::
    "hex_crate \<Rightarrow> json_str \<Rightarrow> 'pair crypto \<Rightarrow> key_type_id \<Rightarrow> keystore \<Rightarrow> fs \<Rightarrow> bytes \<Rightarrow>
       (ks_error, 'pair option) res" where
  "key_pair HX J C app_id self f public = key_pair_by_type HX J C self f public app_id"

section \<open>LocalKeystore\<close>

definition local_open :: "path \<Rightarrow> string option \<Rightarrow> fs \<Rightarrow> (ks_error, keystore) res \<times> fs" where
  "local_open path secret f = st_then (open_store path secret f) (\<lambda>inner f. (Ok inner, f))"

definition in_memory :: keystore where
  "in_memory = (let inner = new_in_memory in inner)"

definition generate ::
    "hex_crate \<Rightarrow> json_str \<Rightarrow> 'pair crypto \<Rightarrow> key_type_id \<Rightarrow> nat \<Rightarrow> keystore \<times> fs \<Rightarrow>
       (ks_error, 'pair) res \<times> (keystore \<times> fs)" where
  "generate HX J C app_id entropy st = generate_by_type HX J C entropy app_id st"

definition public_keys ::
    "hex_crate \<Rightarrow> 'pair crypto \<Rightarrow> key_type_id \<Rightarrow> keystore \<Rightarrow> fs \<Rightarrow> (ks_error, bytes list) res" where
  "public_keys HX C app_id self f =
     map_ok (\<lambda>v. List.map_filter (public_from_slice C) v) (raw_public_keys HX self f app_id)"

definition keys ::
    "hex_crate \<Rightarrow> ('sr, 'ed, 'ec) cryptos \<Rightarrow> keystore \<Rightarrow> fs \<Rightarrow> key_type_id \<Rightarrow>
       (trait_error, (bytes \<times> bytes) list) res" where
  "keys HX CS self f kid =
     and_then (map_err FromKeystore (raw_public_keys HX self f kid)) (\<lambda>raw_keys.
     Ok (fold (\<lambda>k v. v @ [(crypto_id (sr25519 CS), k), (crypto_id (ed25519 CS), k), (crypto_id (ecdsa CS), k)])
       raw_keys []))"

definition supported_keys ::
    "hex_crate \<Rightarrow> ('sr, 'ed, 'ec) cryptos \<Rightarrow> keystore \<Rightarrow> fs \<Rightarrow> key_type_id \<Rightarrow> (bytes \<times> bytes) list \<Rightarrow>
       (trait_error, (bytes \<times> bytes) list) res" where
  "supported_keys HX CS self f kid wanted =
     and_then (keys HX CS self f kid) (\<lambda>all_keys. Ok (filter (\<lambda>key. key \<in> set all_keys) wanted))"

text \<open>One arm of the match of \<^verbatim>\<open>sign_with\<close>.\<close>

definition sign_with_scheme ::
    "hex_crate \<Rightarrow> json_str \<Rightarrow> 'pair crypto \<Rightarrow> keystore \<Rightarrow> fs \<Rightarrow> key_type_id \<Rightarrow> bytes \<Rightarrow> bytes \<Rightarrow>
       (trait_error, bytes option) res" where
  "sign_with_scheme HX J C self f kid key msg =
     and_then (ok_or (public_from_slice C key) (TraitOther ''Corrupted public key - Invalid size'')) (\<lambda>pub_key.
     and_then (map_err FromKeystore (key_pair_by_type HX J C self f pub_key kid)) (\<lambda>key_pair.
     Ok (map_option (\<lambda>k. sign_encoded C k msg) key_pair)))"

definition sign_with ::
    "hex_crate \<Rightarrow> json_str \<Rightarrow> ('sr, 'ed, 'ec) cryptos \<Rightarrow> keystore \<Rightarrow> fs \<Rightarrow> key_type_id \<Rightarrow> bytes \<times> bytes \<Rightarrow> bytes \<Rightarrow>
       (trait_error, bytes option) res" where
  "sign_with HX J CS self f kid key msg =
     (if fst key = crypto_id (ed25519 CS) then sign_with_scheme HX J (ed25519 CS) self f kid (snd key) msg
      else if fst key = crypto_id (sr25519 CS) then sign_with_scheme HX J (sr25519 CS) self f kid (snd key) msg
      else if fst key = crypto_id (ecdsa CS) then sign_with_scheme HX J (ecdsa CS) self f kid (snd key) msg
      else Err (KeyNotSupported kid))"

definition scheme_public_keys :: "hex_crate \<Rightarrow> 'pair crypto \<Rightarrow> keystore \<Rightarrow> fs \<Rightarrow> key_type_id \<Rightarrow> bytes list" where
  "scheme_public_keys HX C self f key_type =
     (case to_option (map_ok (\<lambda>v. List.map_filter (public_from_slice C) v) (raw_public_keys HX self f key_type)) of
        Some v \<Rightarrow> v
      | None \<Rightarrow> [])"

definition scheme_generate_new ::
    "hex_crate \<Rightarrow> json_str \<Rightarrow> 'pair crypto \<Rightarrow> nat \<Rightarrow> key_type_id \<Rightarrow> string option \<Rightarrow> keystore \<times> fs \<Rightarrow>
       (trait_error, bytes) res \<times> (keystore \<times> fs)" where
  "scheme_generate_new HX J C entropy kid seed st =
     st_then (apfst (map_err FromKeystore)
       (case seed of
          Some seed \<Rightarrow>
            apsnd (\<lambda>self. (self, snd st)) (insert_ephemeral_from_seed_by_type C seed kid (fst st))
        | None \<Rightarrow> generate_by_type HX J C entropy kid st))
     (\<lambda>pair st. (Ok (public_raw C pair), st))"

definition sr25519_public_keys ::
    "hex_crate \<Rightarrow> ('sr, 'ed, 'ec) cryptos \<Rightarrow> keystore \<Rightarrow> fs \<Rightarrow> key_type_id \<Rightarrow> bytes list" where
  "sr25519_public_keys HX CS = scheme_public_keys HX (sr25519 CS)"

definition ed25519_public_keys ::
    "hex_crate \<Rightarrow> ('sr, 'ed, 'ec) cryptos \<Rightarrow> keystore \<Rightarrow> fs \<Rightarrow> key_type_id \<Rightarrow> bytes list" where
  "ed25519_public_keys HX CS = scheme_public_keys HX (ed25519 CS)"

definition ecdsa_public_keys ::
    "hex_crate \<Rightarrow> ('sr, 'ed, 'ec) cryptos \<Rightarrow> keystore \<Rightarrow> fs \<Rightarrow> key_type_id \<Rightarrow> bytes list" where
  "ecdsa_public_keys HX CS = scheme_public_keys HX (ecdsa CS)"

definition sr25519_generate_new ::
    "hex_crate \<Rightarrow> json_str \<Rightarrow> ('sr, 'ed, 'ec) cryptos \<Rightarrow> nat \<Rightarrow> key_type_id \<Rightarrow> string option \<Rightarrow> keystore \<times> fs \<Rightarrow>
       (trait_error, bytes) res \<times> (keystore \<times> fs)" where
  "sr25519_generate_new HX J CS = scheme_generate_new HX J (sr25519 CS)"

definition ed25519_generate_new ::
    "hex_crate \<Rightarrow> json_str \<Rightarrow> ('sr, 'ed, 'ec) cryptos \<Rightarrow> nat \<Rightarrow> key_type_id \<Rightarrow> string option \<Rightarrow> keystore \<times> fs \<Rightarrow>
       (trait_error, bytes) res \<times> (keystore \<times> fs)" where
  "ed25519_generate_new HX J CS = scheme_generate_new HX J (ed25519 CS)"

definition ecdsa_generate_new ::
    "hex_crate \<Rightarrow> json_str \<Rightarrow> ('sr, 'ed, 'ec) cryptos \<Rightarrow> nat \<Rightarrow> key_type_id \<Rightarrow> string option \<Rightarrow> keystore \<times> fs \<Rightarrow>
       (trait_error, bytes) res \<times> (keystore \<times> fs)" where
  "ecdsa_generate_new HX J CS = scheme_generate_new HX J (ecdsa CS)"

definition sync_insert_unknown ::
    "hex_crate \<Rightarrow> json_str \<Rightarrow> keystore \<Rightarrow> key_type_id \<Rightarrow> string \<Rightarrow> bytes \<Rightarrow> fs \<Rightarrow> (unit, unit) res \<times> fs" where
  "sync_insert_unknown HX J self key_type suri public f =
     apfst (map_err (\<lambda>_. ())) (insert_unknown HX J self key_type suri public f)"

definition has_keys ::
    "hex_crate \<Rightarrow> json_str \<Rightarrow> keystore \<Rightarrow> fs \<Rightarrow> (bytes \<times> key_type_id) list \<Rightarrow> bool" where
  "has_keys HX J self f wanted =
     list_all (\<lambda>(p, t). Option.bind (to_option (key_phrase_by_type HX J self f p t)) (\<lambda>x. x) \<noteq> None) wanted"

text \<open>\<^verbatim>\<open>vrf_sign\<close> of schnorrkel and \<^verbatim>\<open>sign_prehashed\<close> of \<^verbatim>\<open>sp_core\<close> are parameters.\<close>

definition sr25519_vrf_sign ::
    "('td \<Rightarrow> 't) \<Rightarrow> ('sr \<Rightarrow> 't \<Rightarrow> 'out \<times> 'proof) \<Rightarrow> hex_crate \<Rightarrow> json_str \<Rightarrow> ('sr, 'ed, 'ec) cryptos \<Rightarrow>
       keystore \<Rightarrow> fs \<Rightarrow> key_type_id \<Rightarrow> bytes \<Rightarrow> 'td \<Rightarrow> (trait_error, ('out \<times> 'proof) option) res" where
  "sr25519_vrf_sign make_transcript vrf_sign HX J CS self f key_type public transcript_data =
     (let transcript = make_transcript transcript_data in
      and_then (map_err FromKeystore (key_pair_by_type HX J (sr25519 CS) self f public key_type)) (\<lambda>pair.
      case pair of
        Some pair \<Rightarrow> (let (out, proof) = vrf_sign pair transcript in Ok (Some (out, proof)))
      | None \<Rightarrow> Ok None))"

definition ecdsa_sign_prehashed ::
    "('ec \<Rightarrow> bytes \<Rightarrow> 'sig) \<Rightarrow> hex_crate \<Rightarrow> json_str \<Rightarrow> ('sr, 'ed, 'ec) cryptos \<Rightarrow> keystore \<Rightarrow> fs \<Rightarrow>
       key_type_id \<Rightarrow> bytes \<Rightarrow> bytes \<Rightarrow> (trait_error, 'sig option) res" where
  "ecdsa_sign_prehashed sign_prehashed HX J CS self f kid public msg =
     and_then (map_err FromKeystore (key_pair_by_type HX J (ecdsa CS) self f public kid)) (\<lambda>pair.
     Ok (map_option (\<lambda>k. sign_prehashed k msg) pair))"

section \<open>CryptoStore\<close>

text \<open>The asynchronous trait: each method runs the method of \<^verbatim>\<open>SyncCryptoStore\<close> of the same name to its
  end and never waits, so it is that method.\<close>

definition async_keys ::
    "hex_crate \<Rightarrow> ('sr, 'ed, 'ec) cryptos \<Rightarrow> keystore \<Rightarrow> fs \<Rightarrow> key_type_id \<Rightarrow>
       (trait_error, (bytes \<times> bytes) list) res" where
  "async_keys = keys"

definition async_sr25519_public_keys ::
    "hex_crate \<Rightarrow> ('sr, 'ed, 'ec) cryptos \<Rightarrow> keystore \<Rightarrow> fs \<Rightarrow> key_type_id \<Rightarrow> bytes list" where
  "async_sr25519_public_keys = sr25519_public_keys"

definition async_sr25519_generate_new ::
    "hex_crate \<Rightarrow> json_str \<Rightarrow> ('sr, 'ed, 'ec) cryptos \<Rightarrow> nat \<Rightarrow> key_type_id \<Rightarrow> string option \<Rightarrow> keystore \<times> fs \<Rightarrow>
       (trait_error, bytes) res \<times> (keystore \<times> fs)" where
  "async_sr25519_generate_new = sr25519_generate_new"

definition async_ed25519_public_keys ::
    "hex_crate \<Rightarrow> ('sr, 'ed, 'ec) cryptos \<Rightarrow> keystore \<Rightarrow> fs \<Rightarrow> key_type_id \<Rightarrow> bytes list" where
  "async_ed25519_public_keys = ed25519_public_keys"

definition async_ed25519_generate_new ::
    "hex_crate \<Rightarrow> json_str \<Rightarrow> ('sr, 'ed, 'ec) cryptos \<Rightarrow> nat \<Rightarrow> key_type_id \<Rightarrow> string option \<Rightarrow> keystore \<times> fs \<Rightarrow>
       (trait_error, bytes) res \<times> (keystore \<times> fs)" where
  "async_ed25519_generate_new = ed25519_generate_new"

definition async_ecdsa_public_keys ::
    "hex_crate \<Rightarrow> ('sr, 'ed, 'ec) cryptos \<Rightarrow> keystore \<Rightarrow> fs \<Rightarrow> key_type_id \<Rightarrow> bytes list" where
  "async_ecdsa_public_keys = ecdsa_public_keys"

definition async_ecdsa_generate_new ::
    "hex_crate \<Rightarrow> json_str \<Rightarrow> ('sr, 'ed, 'ec) cryptos \<Rightarrow> nat \<Rightarrow> key_type_id \<Rightarrow> string option \<Rightarrow> keystore \<times> fs \<Rightarrow>
       (trait_error, bytes) res \<times> (keystore \<times> fs)" where
  "async_ecdsa_generate_new = ecdsa_generate_new"

definition async_insert_unknown ::
    "hex_crate \<Rightarrow> json_str \<Rightarrow> keystore \<Rightarrow> key_type_id \<Rightarrow> string \<Rightarrow> bytes \<Rightarrow> fs \<Rightarrow> (unit, unit) res \<times> fs" where
  "async_insert_unknown = sync_insert_unknown"

definition async_has_keys ::
    "hex_crate \<Rightarrow> json_str \<Rightarrow> keystore \<Rightarrow> fs \<Rightarrow> (bytes \<times> key_type_id) list \<Rightarrow> bool" where
  "async_has_keys = has_keys"

definition async_supported_keys ::
    "hex_crate \<Rightarrow> ('sr, 'ed, 'ec) cryptos \<Rightarrow> keystore \<Rightarrow> fs \<Rightarrow> key_type_id \<Rightarrow> (bytes \<times> bytes) list \<Rightarrow>
       (trait_error, (bytes \<times> bytes) list) res" where
  "async_supported_keys = supported_keys"

definition async_sign_with ::
    "hex_crate \<Rightarrow> json_str \<Rightarrow> ('sr, 'ed, 'ec) cryptos \<Rightarrow> keystore \<Rightarrow> fs \<Rightarrow> key_type_id \<Rightarrow> bytes \<times> bytes \<Rightarrow> bytes \<Rightarrow>
       (trait_error, bytes option) res" where
  "async_sign_with = sign_with"

definition async_sr25519_vrf_sign ::
    "('td \<Rightarrow> 't) \<Rightarrow> ('sr \<Rightarrow> 't \<Rightarrow> 'out \<times> 'proof) \<Rightarrow> hex_crate \<Rightarrow> json_str \<Rightarrow> ('sr, 'ed, 'ec) cryptos \<Rightarrow>
       keystore \<Rightarrow> fs \<Rightarrow> key_type_id \<Rightarrow> bytes \<Rightarrow> 'td \<Rightarrow> (trait_error, ('out \<times> 'proof) option) res" where
  "async_sr25519_vrf_sign = sr25519_vrf_sign"

definition async_ecdsa_sign_prehashed ::
    "('ec \<Rightarrow> bytes \<Rightarrow> 'sig) \<Rightarrow> hex_crate \<Rightarrow> json_str \<Rightarrow> ('sr, 'ed, 'ec) cryptos \<Rightarrow> keystore \<Rightarrow> fs \<Rightarrow>
       key_type_id \<Rightarrow> bytes \<Rightarrow> bytes \<Rightarrow> (trait_error, 'sig option) res" where
  "async_ecdsa_sign_prehashed = ecdsa_sign_prehashed"

section \<open>The phrases a store holds\<close>

text \<open>A recovery phrase gives the pair it was generated with, under the same password.\<close>

definition phrases_recover :: "'pair crypto \<Rightarrow> bool" where
  "phrases_recover C \<longleftrightarrow>
     (\<forall>entropy pw. from_string C (snd (generate_with_phrase C entropy pw)) pw =
        Some (fst (generate_with_phrase C entropy pw)))"

definition json_strings :: "json_str \<Rightarrow> bool" where
  "json_strings J \<longleftrightarrow> (\<forall>s. json_to_str J (str_to_json J s) = Inr s)"

definition key_path :: "hex_crate \<Rightarrow> path \<Rightarrow> key_type_id \<times> bytes \<Rightarrow> path" where
  "key_path HX p k = p @ [hex_encode HX (fst k) @ hex_encode HX (snd k)]"

definition file_phrase :: "hex_crate \<Rightarrow> json_str \<Rightarrow> path \<Rightarrow> fs \<Rightarrow> key_type_id \<times> bytes \<Rightarrow> string option" where
  "file_phrase HX J p f k =
     (case hm_get (fs_nodes f) (key_path HX p k) of
        Some (File m c) \<Rightarrow> (case json_to_str J c of Inr s \<Rightarrow> Some s | Inl _ \<Rightarrow> None)
      | _ \<Rightarrow> None)"

text \<open>The directory of a store: it is there, it has no subdirectory, its files hold JSON
  strings, and the operating system refuses nothing.\<close>

definition store_dir :: "json_str \<Rightarrow> path \<Rightarrow> fs \<Rightarrow> bool" where
  "store_dir J p f \<longleftrightarrow>
     no_faults f \<and> is_dir f p \<and>
     (\<forall>name. hm_get (fs_nodes f) (p @ [name]) \<noteq> Some Dir) \<and>
     (\<forall>name m c. hm_get (fs_nodes f) (p @ [name]) = Some (File m c) \<longrightarrow> (\<exists>s. c = str_to_json J s))"

definition store_ok :: "json_str \<Rightarrow> keystore \<Rightarrow> fs \<Rightarrow> bool" where
  "store_ok J self f = (case ks_path self of None \<Rightarrow> True | Some p \<Rightarrow> store_dir J p f)"

text \<open>The abstract state: the phrase of each key, those in memory first.\<close>

definition stored :: "hex_crate \<Rightarrow> json_str \<Rightarrow> keystore \<Rightarrow> fs \<Rightarrow> key_type_id \<times> bytes \<Rightarrow> string option" where
  "stored HX J self f k =
     (case hm_get (ks_additional self) k of
        Some s \<Rightarrow> Some s
      | None \<Rightarrow> (case ks_path self of None \<Rightarrow> None | Some p \<Rightarrow> file_phrase HX J p f k))"

text \<open>The contract of a store of phrases.\<close>

locale phrase_store =
  fixes put :: "'k \<Rightarrow> string \<Rightarrow> 's \<Rightarrow> 's" and get :: "'s \<Rightarrow> 'k \<Rightarrow> string option"
    and ok :: "'s \<Rightarrow> bool" and key :: "'k \<Rightarrow> bool"
  assumes put_ok: "ok s \<Longrightarrow> key k \<Longrightarrow> ok (put k v s)"
    and get_put: "ok s \<Longrightarrow> key k \<Longrightarrow> key k' \<Longrightarrow> get (put k v s) k' = (if k' = k then Some v else get s k')"
begin

lemma puts_ok: "ok s \<Longrightarrow> list_all (key \<circ> fst) kvs \<Longrightarrow> ok (fold (\<lambda>(k, v). put k v) kvs s)"
  by (induction kvs arbitrary: s) (auto simp: put_ok)

lemma get_puts:
  assumes "ok s" and "list_all (key \<circ> fst) kvs" and "key k"
  shows "get (fold (\<lambda>(k, v). put k v) kvs s) k =
    (case map_of (rev kvs) k of Some v \<Rightarrow> Some v | None \<Rightarrow> get s k)"
  using assms
proof (induction kvs arbitrary: s)
  case (Cons kv kvs)
  obtain k1 v1 where kv: "kv = (k1, v1)" by force
  have "ok (put k1 v1 s)" using Cons.prems kv by (auto intro: put_ok)
  from Cons.IH [OF this] Cons.prems kv show ?case
    by (auto simp: get_put map_add_def split: option.splits)
qed simp

end

lemma write_to_file_ok:
  assumes "no_faults f" and "is_dir f (butlast p)" and "p \<noteq> []" and "hm_get (fs_nodes f) p \<noteq> Some Dir"
  shows "\<exists>g. write_to_file J p d f = (Ok (), g) \<and> no_faults g \<and>
    (\<forall>q. hm_get (fs_nodes g) q = (if q = p then Some (File 384 (str_to_json J d)) else hm_get (fs_nodes f) q))"
proof -
  have nd: "\<not> is_dir f p" using assms(3,4) by (simp add: is_dir_def)
  have nf: "fs_fault f op q = None" for op q using assms(1) by (simp add: no_faults_def)
  obtain m where "file_create p f = (Ok (), set_node p (File m []) f)"
    using nd nf assms(2,4) by (cases "hm_get (fs_nodes f) p"; cases "the (hm_get (fs_nodes f) p)")
      (auto simp: file_create_def)
  then show ?thesis
    using nf assms(1) by (simp add: write_to_file_def set_permissions_def file_write_def Let_def)
qed

context hex_laws
begin

lemma key_path_inject:
  assumes "length (fst k) = 4" and "length (fst k') = 4"
  shows "key_path HX p k = key_path HX p k' \<longleftrightarrow> k = k'"
proof
  assume "key_path HX p k = key_path HX p k'"
  then have "hex_encode HX (fst k @ snd k) = hex_encode HX (fst k' @ snd k')"
    by (simp add: key_path_def hex_encode_append)
  then have "fst k @ snd k = fst k' @ snd k'" by (rule hex_encode_inject)
  with assms show "k = k'" by (simp add: prod_eq_iff)
qed simp

lemma write_key:
  assumes "store_dir J p f"
  shows "\<exists>g. write_to_file J (key_path HX p k) v f = (Ok (), g) \<and> no_faults g \<and>
      (\<forall>q. hm_get (fs_nodes g) q =
        (if q = key_path HX p k then Some (File 384 (str_to_json J v)) else hm_get (fs_nodes f) q))"
  using assms by (intro write_to_file_ok) (simp_all add: store_dir_def key_path_def)

lemma write_key_dir:
  assumes "store_dir J p f"
  shows "store_dir J p (snd (write_to_file J (key_path HX p k) v f))"
proof -
  from write_key [OF assms, of k v]
  obtain g where g: "write_to_file J (key_path HX p k) v f = (Ok (), g)" "no_faults g"
    "\<forall>q. hm_get (fs_nodes g) q =
        (if q = key_path HX p k then Some (File 384 (str_to_json J v)) else hm_get (fs_nodes f) q)"
    by blast
  have "p \<noteq> key_path HX p k" by (simp add: key_path_def)
  then have "is_dir g p" using assms by (auto simp: is_dir_def store_dir_def g(3))
  then show ?thesis
    using assms by (auto simp: g store_dir_def split: if_splits)
qed

lemma file_phrase_store:
  assumes J: "json_strings J"
  shows "phrase_store (\<lambda>k v f. snd (write_to_file J (key_path HX p k) v f)) (file_phrase HX J p)
    (store_dir J p) (\<lambda>k. length (fst k) = 4)"
proof (unfold_locales, goal_cases)
  case (1 f k v)
  show ?case by (rule write_key_dir [OF 1(1)])
next
  case (2 f k k' v)
  from write_key [OF 2(1), of k v]
  obtain g where g: "write_to_file J (key_path HX p k) v f = (Ok (), g)" "no_faults g"
    "\<forall>q. hm_get (fs_nodes g) q =
        (if q = key_path HX p k then Some (File 384 (str_to_json J v)) else hm_get (fs_nodes f) q)"
    by blast
  then show ?case
    using J key_path_inject [OF 2(3,2), of p] by (simp add: file_phrase_def json_strings_def)
qed

text \<open>What each operation does to the phrases.\<close>

lemma key_phrase_by_type_stored:
  assumes "json_strings J" and "store_ok J self f"
  shows "key_phrase_by_type HX J self f public key_type = Ok (stored HX J self f (key_type, public))"
proof (cases "hm_get (ks_additional self) (key_type, public)")
  case None
  show ?thesis
  proof (cases "ks_path self")
    case (Some p)
    define kp where "kp = p @ [hex_encode HX key_type @ hex_encode HX public]"
    have dir: "store_dir J p f" using assms(2) Some by (simp add: store_ok_def)
    have nf: "fs_fault f op q = None" for op q using dir by (simp add: store_dir_def no_faults_def)
    have node: "hm_get (fs_nodes f) kp = None \<or> (\<exists>m s. hm_get (fs_nodes f) kp = Some (File m (str_to_json J s)))"
      using dir unfolding store_dir_def kp_def by (metis node.exhaust option.exhaust)
    moreover have "kp \<noteq> []" by (simp add: kp_def)
    ultimately show ?thesis
      using None Some nf assms(1)
      by (auto simp: key_phrase_by_type_def get_additional_pair_def key_file_path_def stored_def file_phrase_def
          key_path_def kp_def [symmetric] path_exists_def file_open_def file_read_def json_strings_def)
  qed (use None in \<open>simp add: key_phrase_by_type_def get_additional_pair_def key_file_path_def stored_def\<close>)
qed (simp add: key_phrase_by_type_def get_additional_pair_def stored_def)

lemma insert_unknown_stored:
  assumes J: "json_strings J" and ok: "store_ok J self f" and kt: "length key_type = 4"
    and fresh: "ks_path self \<noteq> None \<longrightarrow> hm_get (ks_additional self) (key_type, public) = None"
  shows "\<exists>g. insert_unknown HX J self key_type suri public f = (Ok (), g) \<and> store_ok J self g \<and>
    (\<forall>k. length (fst k) = 4 \<longrightarrow> stored HX J self g k =
      (if k = (key_type, public) \<and> ks_path self \<noteq> None then Some suri else stored HX J self f k)) \<and>
    (\<forall>p. ks_path self = Some p \<longrightarrow>
      hm_get (fs_nodes g) (key_path HX p (key_type, public)) = Some (File 384 (str_to_json J suri)))"
proof (cases "ks_path self")
  case None
  then show ?thesis using ok by (simp add: insert_unknown_def key_file_path_def store_ok_def)
next
  case (Some p)
  then have dir: "store_dir J p f" using ok by (simp add: store_ok_def)
  note P = file_phrase_store [OF J, of p]
  from write_key [OF dir, of "(key_type, public)" suri]
  obtain g where g: "write_to_file J (key_path HX p (key_type, public)) suri f = (Ok (), g)"
    "\<forall>q. hm_get (fs_nodes g) q = (if q = key_path HX p (key_type, public)
        then Some (File 384 (str_to_json J suri)) else hm_get (fs_nodes f) q)"
    by blast
  have dir': "store_dir J p g" using write_key_dir [OF dir, of "(key_type, public)" suri] g by simp
  have "file_phrase HX J p g k = (if k = (key_type, public) then Some suri else file_phrase HX J p f k)"
    if "length (fst k) = 4" for k
    using phrase_store.get_put [OF P dir, of "(key_type, public)" k suri] that kt g by simp
  with fresh Some g dir' show ?thesis
    by (auto simp: insert_unknown_def key_file_path_def key_path_def store_ok_def stored_def split: option.splits)
qed

lemma generate_by_type_file:
  assumes "ks_path self \<noteq> None" and "generate_with_phrase C entropy (password self) = (pair, phrase)"
    and "insert_unknown HX J self key_type phrase (public_raw C pair) f = (Ok (), g)"
  shows "generate_by_type HX J C entropy key_type (self, f) = (Ok pair, (self, g))"
proof -
  from assms(1) obtain path where path: "key_file_path HX self (public_raw C pair) key_type = Some path"
    by (auto simp: key_file_path_def)
  with assms(3) obtain u where u: "write_to_file J path phrase f = (Ok u, g)"
    by (cases "write_to_file J path phrase f"; cases "fst (write_to_file J path phrase f)")
      (auto simp: insert_unknown_def)
  with path assms(2) show ?thesis by (simp add: generate_by_type_def)
qed

lemma generate_by_type_stored:
  assumes J: "json_strings J" and ok: "store_ok J self f" and kt: "length key_type = 4"
    and gen: "generate_with_phrase C entropy (password self) = (pair, phrase)"
    and fresh: "ks_path self \<noteq> None \<longrightarrow> hm_get (ks_additional self) (key_type, public_raw C pair) = None"
  shows "\<exists>self' g. generate_by_type HX J C entropy key_type (self, f) = (Ok pair, (self', g)) \<and>
    store_ok J self' g \<and> password self' = password self \<and> ks_path self' = ks_path self \<and>
    (\<forall>k. length (fst k) = 4 \<longrightarrow> stored HX J self' g k =
      (if k = (key_type, public_raw C pair) then Some phrase else stored HX J self f k)) \<and>
    (\<forall>p. ks_path self = Some p \<longrightarrow> (\<exists>c.
      hm_get (fs_nodes g) (key_path HX p (key_type, public_raw C pair)) = Some (File 384 c)))"
proof (cases "ks_path self")
  case None
  define self' where "self' = insert_ephemeral_pair C pair phrase key_type self"
  have "generate_by_type HX J C entropy key_type (self, f) = (Ok pair, (self', f))"
    using None gen by (simp add: generate_by_type_def key_file_path_def self'_def)
  moreover have "stored HX J self' f k =
      (if k = (key_type, public_raw C pair) then Some phrase else stored HX J self f k)" for k
    using None by (simp add: stored_def self'_def insert_ephemeral_pair_def hm_get_insert split: option.splits)
  ultimately show ?thesis
    using None by (simp add: self'_def insert_ephemeral_pair_def store_ok_def password_def)
next
  case (Some p)
  from insert_unknown_stored [OF J ok kt fresh, of phrase] obtain g
    where g: "insert_unknown HX J self key_type phrase (public_raw C pair) f = (Ok (), g)" "store_ok J self g"
      "\<forall>k. length (fst k) = 4 \<longrightarrow> stored HX J self g k =
        (if k = (key_type, public_raw C pair) \<and> ks_path self \<noteq> None then Some phrase else stored HX J self f k)"
      "\<forall>p. ks_path self = Some p \<longrightarrow> hm_get (fs_nodes g) (key_path HX p (key_type, public_raw C pair)) =
        Some (File 384 (str_to_json J phrase))"
    by blast
  with generate_by_type_file [OF _ gen g(1)] Some show ?thesis by auto
qed

lemma generated_pair:
  assumes "json_strings J" and "phrases_recover C" and "store_ok J self f" and "length key_type = 4"
    and "ks_path self \<noteq> None \<longrightarrow>
      hm_get (ks_additional self) (key_type, public_raw C (fst (generate_with_phrase C entropy (password self)))) = None"
  shows "\<exists>pair self' f'. generate_by_type HX J C entropy key_type (self, f) = (Ok pair, (self', f')) \<and>
    key_pair_by_type HX J C self' f' (public_raw C pair) key_type = Ok (Some pair) \<and>
    (\<forall>t p. length t = 4 \<and> (t, p) \<noteq> (key_type, public_raw C pair) \<longrightarrow>
      key_phrase_by_type HX J self' f' p t = key_phrase_by_type HX J self f p t)"
proof -
  obtain pair phrase where gen: "generate_with_phrase C entropy (password self) = (pair, phrase)" by force
  from generate_by_type_stored [OF assms(1,3,4) gen] assms(5) gen
  obtain self' f' where new: "generate_by_type HX J C entropy key_type (self, f) = (Ok pair, (self', f'))"
    "store_ok J self' f'" "password self' = password self"
    and st: "\<forall>k. length (fst k) = 4 \<longrightarrow> stored HX J self' f' k =
      (if k = (key_type, public_raw C pair) then Some phrase else stored HX J self f k)"
    by auto
  note phrase = key_phrase_by_type_stored [OF assms(1) new(2)] key_phrase_by_type_stored [OF assms(1,3)]
  have "from_string C phrase (password self) = Some pair"
    using assms(2) gen unfolding phrases_recover_def by (metis fst_conv snd_conv)
  then have "key_pair_by_type HX J C self' f' (public_raw C pair) key_type = Ok (Some pair)"
    using st assms(4) new(3) by (simp add: key_pair_by_type_def phrase)
  moreover have "key_phrase_by_type HX J self' f' p t = key_phrase_by_type HX J self f p t"
    if "length t = 4" and "(t, p) \<noteq> (key_type, public_raw C pair)" for t p
    using st [rule_format, of "(t, p)"] that by (simp only: phrase fst_conv if_False)
  ultimately show ?thesis using new(1) by blast
qed

lemma utf8_ascii: "\<forall>c \<in> set s. (of_char c :: nat) < 128 \<Longrightarrow> utf8 (map of_char s)"
  by (induction s) simp_all

lemma public_of_name_key:
  assumes "length kid = 4" and "public \<noteq> []"
  shows "public_of_name HX kid (key_path HX p (kid, public)) = Some public"
proof -
  have "set (hex_encode HX kid @ hex_encode HX public) \<subseteq> set hex_digits"
    using hex_encode_digits [of "kid @ public"] by (simp add: hex_encode_append)
  moreover have "\<forall>c \<in> set hex_digits. (of_char c :: nat) < 128" by (simp add: hex_digits_def)
  ultimately have "utf8 (map of_char (hex_encode HX kid @ hex_encode HX public))"
    by (intro utf8_ascii) blast
  then show ?thesis
    using assms hex_decode_encode [of "kid @ public"]
    by (simp add: public_of_name_def key_path_def hex_encode_append)
qed

end

lemma for_each_collect:
  "for_each (\<lambda>e acc. case g e of Some x \<Rightarrow> Ok (acc @ [x]) | None \<Rightarrow> Ok acc) es acc = Ok (acc @ List.map_filter g es)"
  by (induction es arbitrary: acc) (simp_all add: List.map_filter_simps split: option.splits)

lemma raw_public_keys_faultless:
  assumes "case ks_path self of None \<Rightarrow> True | Some p \<Rightarrow> no_faults f \<and> is_dir f p"
  shows "raw_public_keys HX self f kid =
    Ok (map snd (filter (\<lambda>k. fst k = kid) (map fst (ks_additional self))) @
      (case ks_path self of None \<Rightarrow> []
       | Some p \<Rightarrow> List.map_filter (public_of_name HX kid)
           (filter (\<lambda>q. q \<noteq> [] \<and> butlast q = p) (map fst (fs_nodes f)))))"
proof -
  have "List.map_filter (\<lambda>k. if fst k = kid then Some (snd k) else None) xs = map snd (filter (\<lambda>k. fst k = kid) xs)"
    for xs :: "(key_type_id \<times> bytes) list"
    by (induction xs) (simp_all add: List.map_filter_simps)
  with assms show ?thesis
    by (auto simp: raw_public_keys_def read_dir_def next_entry_def no_faults_def for_each_collect
        split: option.splits)
qed

lemma map_filter_member: "y \<in> set (List.map_filter g xs) \<longleftrightarrow> (\<exists>x \<in> set xs. g x = Some y)"
  by (force simp: List.map_filter_def)

lemma hm_get_Some_key: "hm_get m k = Some v \<Longrightarrow> k \<in> set (map fst m)"
  by (force simp: hm_get_def dest: map_of_SomeD)

context hex_laws
begin

lemma stored_listed:
  assumes "store_ok J self f" and "stored HX J self f (kid, public) = Some s"
    and "length kid = 4" and "public \<noteq> []"
  shows "\<exists>l. raw_public_keys HX self f kid = Ok l \<and> public \<in> set l"
proof -
  have "case ks_path self of None \<Rightarrow> True | Some p \<Rightarrow> no_faults f \<and> is_dir f p"
    using assms(1) by (simp add: store_ok_def store_dir_def split: option.splits)
  note list = raw_public_keys_faultless [OF this, of HX kid]
  show ?thesis
  proof (cases "hm_get (ks_additional self) (kid, public)")
    case None
    with assms(2) obtain p where p: "ks_path self = Some p" and "file_phrase HX J p f (kid, public) = Some s"
      by (auto simp: stored_def split: option.splits)
    then have "key_path HX p (kid, public) \<in> set (map fst (fs_nodes f))"
      by (auto simp: file_phrase_def split: option.splits dest: hm_get_Some_key)
    moreover have "butlast (key_path HX p (kid, public)) = p" "key_path HX p (kid, public) \<noteq> []"
      by (simp_all add: key_path_def)
    ultimately have "public \<in> set (List.map_filter (public_of_name HX kid)
        (filter (\<lambda>q. q \<noteq> [] \<and> butlast q = p) (map fst (fs_nodes f))))"
      using public_of_name_key [OF assms(3,4), of p] unfolding map_filter_member
      by (intro bexI [of _ "key_path HX p (kid, public)"]) simp_all
    with list p show ?thesis by simp
  next
    case (Some v)
    then have "(kid, public) \<in> set (map fst (ks_additional self))" by (rule hm_get_Some_key)
    then show ?thesis using list by force
  qed
qed

end

section \<open>JSON strings\<close>

definition json_ref :: json_str where
  "json_ref =
     \<lparr>str_to_json = json_quote,
      json_to_str = (\<lambda>j. case j of
          c # s \<Rightarrow>
            (if c = CHR 0x22 then
               (case json_unescape s of Inl e \<Rightarrow> Inl e | Inr (x, r) \<Rightarrow> if r = [] then Inr x else Inl ''trailing characters'')
             else Inl ''expected a string'')
        | [] \<Rightarrow> Inl ''EOF'')\<rparr>"

lemma json_ref_strings: "json_strings json_ref"
proof -
  have "json_unescape (concat (map json_escape s) @ [CHR 0x22]) = Inr (s, [])" for s
    using json_unescape_quoted [of s "[]"] by simp
  then show ?thesis by (simp add: json_strings_def json_ref_def json_quote_def)
qed

section \<open>The two stores of the program\<close>

interpretation memory: phrase_store
  "\<lambda>k v self. self\<lparr>ks_additional := hm_insert k v (ks_additional self)\<rparr>"
  "\<lambda>self k. get_additional_pair self (snd k) (fst k)" "\<lambda>_. True" "\<lambda>_. True"
  by unfold_locales (auto simp: get_additional_pair_def hm_get_insert)

interpretation files: phrase_store "\<lambda>k v f. snd (write_to_file json_ref (key_path hex_ref p k) v f)"
  "file_phrase hex_ref json_ref p" "store_dir json_ref p" "\<lambda>k. length (fst k) = 4" for p
  by (rule hex_fmt.file_phrase_store [OF json_ref_strings])

end
