(* ===== verification/Keystore_Machine.thy ===== *)
theory Keystore_Machine
  imports Keystore
begin

text \<open>
  \<^verbatim>\<open>LocalKeystore\<close> as a state machine. A call is one method of \<^verbatim>\<open>SyncCryptoStore\<close>, or the restart of the
  program, which opens the store again; a run is a list of calls, one after the other, which is how calls of
  several threads appear too (\<open>Keystore_Threads\<close>).
  \<open>exec\<close> gives the reply to a call and the state after it, \<open>reached\<close> the states of all runs.

  The abstract machine (record \<open>astore\<close>) keeps two maps from keys to phrases, one in memory and
  one on disk, and knows nothing of files, names and JSON. The simulation lemma \<open>exec_sim\<close> shows that the
  keystore answers every call as the abstract machine does.
\<close>

section \<open>Calls\<close>

datatype scheme = Sr | Ed | Ec

datatype ks_call =
    GenerateNew scheme nat key_type_id "string option"
  | InsertUnknown key_type_id string bytes
  | HasKeys "(bytes \<times> key_type_id) list"
  | SignWith key_type_id "bytes \<times> bytes" bytes
  | Restart "string option"

datatype ks_reply =
    Public "(trait_error, bytes) res"
  | Done "(unit, unit) res"
  | Has bool
  | Signature "(trait_error, bytes option) res"
  | Reopened "(ks_error, unit) res"

definition generate_new ::
    "hex_crate \<Rightarrow> json_str \<Rightarrow> ('sr, 'ed, 'ec) cryptos \<Rightarrow> scheme \<Rightarrow> nat \<Rightarrow> key_type_id \<Rightarrow> string option \<Rightarrow>
       keystore \<times> fs \<Rightarrow> (trait_error, bytes) res \<times> (keystore \<times> fs)" where
  "generate_new HX J CS s =
     (case s of Sr \<Rightarrow> sr25519_generate_new HX J CS | Ed \<Rightarrow> ed25519_generate_new HX J CS | Ec \<Rightarrow> ecdsa_generate_new HX J CS)"

definition reopen :: "string option \<Rightarrow> keystore \<times> fs \<Rightarrow> (ks_error, unit) res \<times> (keystore \<times> fs)" where
  "reopen pw st =
     (case ks_path (fst st) of
        None \<Rightarrow> (Ok (), (in_memory, snd st))
      | Some p \<Rightarrow>
          (case local_open p pw (snd st) of
             (Ok self, f) \<Rightarrow> (Ok (), (self, f))
           | (r, f) \<Rightarrow> (map_ok (\<lambda>_. ()) r, (fst st, f))))"

primrec exec ::
    "hex_crate \<Rightarrow> json_str \<Rightarrow> ('sr, 'ed, 'ec) cryptos \<Rightarrow> ks_call \<Rightarrow> keystore \<times> fs \<Rightarrow> ks_reply \<times> (keystore \<times> fs)" where
  "exec HX J CS (GenerateNew s entropy kid seed) st = apfst Public (generate_new HX J CS s entropy kid seed st)"
| "exec HX J CS (InsertUnknown kid suri public) st =
     (case sync_insert_unknown HX J (fst st) kid suri public (snd st) of (r, f) \<Rightarrow> (Done r, (fst st, f)))"
| "exec HX J CS (HasKeys wanted) st = (Has (has_keys HX J (fst st) (snd st) wanted), st)"
| "exec HX J CS (SignWith kid key msg) st = (Signature (sign_with HX J CS (fst st) (snd st) kid key msg), st)"
| "exec HX J CS (Restart pw) st = apfst Reopened (reopen pw st)"

primrec run ::
    "hex_crate \<Rightarrow> json_str \<Rightarrow> ('sr, 'ed, 'ec) cryptos \<Rightarrow> ks_call list \<Rightarrow> keystore \<times> fs \<Rightarrow> ks_reply list \<times> (keystore \<times> fs)" where
  "run HX J CS [] st = ([], st)"
| "run HX J CS (c # cs) st =
     (case exec HX J CS c st of (r, st') \<Rightarrow> apfst (Cons r) (run HX J CS cs st'))"

text \<open>The states of all runs. What fails on the disk may change from one call to the next: a disk that was full works
  again, and one that worked fails.\<close>

inductive reached ::
    "hex_crate \<Rightarrow> json_str \<Rightarrow> ('sr, 'ed, 'ec) cryptos \<Rightarrow> keystore \<times> fs \<Rightarrow> keystore \<times> fs \<Rightarrow> bool"
  for HX J CS st0 where
  start: "reached HX J CS st0 st0"
| step: "reached HX J CS st0 st \<Longrightarrow> exec HX J CS c st = (r, st') \<Longrightarrow> reached HX J CS st0 st'"
| disk_changes: "reached HX J CS st0 (self, f) \<Longrightarrow> reached HX J CS st0 (self, f\<lparr>fs_fault := faults\<rparr>)"

section \<open>What holds of every state, whatever fails\<close>

text \<open>A file of the store that holds anything may be read by its owner only, and the memory of a store
  with a directory holds seeds, filed under the public key they give.\<close>

definition private_files :: "path \<Rightarrow> fs \<Rightarrow> bool" where
  "private_files p f \<longleftrightarrow>
     (\<forall>name m c. hm_get (fs_nodes f) (p @ [name]) = Some (File m c) \<longrightarrow> m = 384 \<or> c = [])"

definition seed_gives :: "('sr, 'ed, 'ec) cryptos \<Rightarrow> string \<Rightarrow> bytes \<Rightarrow> bool" where
  "seed_gives CS seed public \<longleftrightarrow>
     map_option (public_raw (sr25519 CS)) (from_string (sr25519 CS) seed None) = Some public \<or>
     map_option (public_raw (ed25519 CS)) (from_string (ed25519 CS) seed None) = Some public \<or>
     map_option (public_raw (ecdsa CS)) (from_string (ecdsa CS) seed None) = Some public"

definition store_inv :: "('sr, 'ed, 'ec) cryptos \<Rightarrow> path \<Rightarrow> keystore \<times> fs \<Rightarrow> bool" where
  "store_inv CS p st \<longleftrightarrow>
     ks_path (fst st) = Some p \<and> private_files p (snd st) \<and>
     (\<forall>t public seed. hm_get (ks_additional (fst st)) (t, public) = Some seed \<longrightarrow> seed_gives CS seed public)"

lemma private_files_set_node:
  assumes "private_files p f" and "\<And>m c. n = File m c \<Longrightarrow> m = 384 \<or> c = []"
  shows "private_files p (set_node q n f)"
  unfolding private_files_def
proof (intro allI impI)
  fix name m c
  assume "hm_get (fs_nodes (set_node q n f)) (p @ [name]) = Some (File m c)"
  then consider "n = File m c" | "hm_get (fs_nodes f) (p @ [name]) = Some (File m c)"
    by (auto split: if_splits)
  then show "m = 384 \<or> c = []"
    using assms(1) by cases (use assms in \<open>auto simp: private_files_def\<close>)
qed

lemma file_create_private: "private_files p f \<Longrightarrow> private_files p (snd (file_create q f))"
  by (auto simp: file_create_def intro: private_files_set_node split: option.splits node.splits)

lemma set_permissions_private: "private_files p f \<Longrightarrow> private_files p (snd (set_permissions q 384 f))"
  by (auto simp: set_permissions_def intro: private_files_set_node split: option.splits node.splits)

lemma set_permissions_mode:
  "set_permissions q m f = (Ok (), g) \<Longrightarrow> hm_get (fs_nodes g) q = Some (File m' c) \<Longrightarrow> m' = m"
  by (auto simp: set_permissions_def split: option.splits node.splits)

lemma file_write_private:
  assumes "private_files p f" and "\<And>m c. hm_get (fs_nodes f) q = Some (File m c) \<Longrightarrow> m = 384"
  shows "private_files p (snd (file_write q d f))"
  using assms by (auto simp: file_write_def Let_def intro: private_files_set_node split: option.splits node.splits)

lemma write_to_file_private:
  assumes "private_files p f"
  shows "private_files p (snd (write_to_file J q d f))"
proof -
  obtain r1 f1 where c: "file_create q f = (r1, f1)" by force
  obtain r2 f2 where m: "set_permissions q 384 f1 = (r2, f2)" by force
  have 1: "private_files p f1" using file_create_private [OF assms, of q] c by simp
  have 2: "private_files p f2" using set_permissions_private [OF 1, of q] m by simp
  obtain r3 f3 where w: "file_write q (str_to_json J d) f2 = (r3, f3)" by force
  have "private_files p f3" if "r2 = Ok ()"
    using file_write_private [of p f2 q "str_to_json J d"] 2 set_permissions_mode [of q 384 f1 f2] m w that by simp
  with 1 2 c m w show ?thesis by (cases r1; cases r2; cases r3) (simp_all add: write_to_file_def)
qed

lemma create_dir_all_private: "private_files p f \<Longrightarrow> private_files p (snd (create_dir_all q f))"
proof -
  assume f: "private_files p f"
  have "private_files p (fold (\<lambda>q f. if is_dir f q then f else set_node q Dir f) qs f)" for qs
    using f by (induction qs arbitrary: f) (auto intro: private_files_set_node)
  with f show ?thesis by (simp add: create_dir_all_def split: option.splits)
qed

lemma generate_by_type_inv:
  assumes "store_inv CS p st"
  shows "store_inv CS p (snd (generate_by_type HX J C entropy kid st))"
proof -
  obtain self f where st: "st = (self, f)" by force
  obtain pair phrase where gen: "generate_with_phrase C entropy (password self) = (pair, phrase)" by force
  from assms st obtain q where q: "key_file_path HX self (public_raw C pair) kid = Some q"
    by (auto simp: store_inv_def key_file_path_def)
  obtain r g where w: "write_to_file J q phrase f = (r, g)" by force
  have "private_files p g"
    using write_to_file_private [of p f J q phrase] assms w st by (simp add: store_inv_def)
  then have "store_inv CS p (self, g)" using assms st by (simp add: store_inv_def)
  then show ?thesis by (cases r) (simp_all add: st generate_by_type_def gen q w)
qed

lemma seed_inv:
  assumes "store_inv CS p (self, f)" and "\<And>pair. from_string C seed None = Some pair \<Longrightarrow> seed_gives CS seed (public_raw C pair)"
  shows "store_inv CS p (snd (insert_ephemeral_from_seed_by_type C seed kid self), f)"
  using assms
  by (auto simp: store_inv_def insert_ephemeral_from_seed_by_type_def insert_ephemeral_pair_def hm_get_insert
      split: option.splits)

lemma scheme_generate_new_inv:
  assumes "store_inv CS p st" and "\<And>seed pair. from_string C seed None = Some pair \<Longrightarrow> seed_gives CS seed (public_raw C pair)"
  shows "store_inv CS p (snd (scheme_generate_new HX J C entropy kid seed st))"
proof (cases seed)
  case None
  obtain r st' where new: "generate_by_type HX J C entropy kid st = (r, st')" by (rule prod.exhaust)
  then have "store_inv CS p st'" using generate_by_type_inv [OF assms(1), of HX J C entropy kid] by simp
  with new None show ?thesis by (cases r) (simp_all add: scheme_generate_new_def)
next
  case (Some seed)
  obtain r self' where new: "insert_ephemeral_from_seed_by_type C seed kid (fst st) = (r, self')" by force
  then have "store_inv CS p (self', snd st)"
    using seed_inv [of CS p "fst st" "snd st" C seed kid] assms by simp
  with new Some show ?thesis by (cases r) (simp_all add: scheme_generate_new_def)
qed

lemma reopen_inv:
  assumes "store_inv CS p st"
  shows "store_inv CS p (snd (reopen pw st))"
proof -
  obtain self f where st: "st = (self, f)" by force
  obtain r g where c: "create_dir_all p f = (r, g)" by force
  have "private_files p g" using create_dir_all_private [of p f p] assms c st by (simp add: store_inv_def)
  with assms st c show ?thesis
    by (cases r) (simp_all add: reopen_def local_open_def open_store_def store_inv_def hm_get_empty)
qed

lemma exec_inv:
  assumes "store_inv CS p st"
  shows "store_inv CS p (snd (exec HX J CS c st))"
proof (cases c)
  case (GenerateNew s entropy kid seed)
  have "store_inv CS p (snd (scheme_generate_new HX J (sr25519 CS) entropy kid seed st))"
    "store_inv CS p (snd (scheme_generate_new HX J (ed25519 CS) entropy kid seed st))"
    "store_inv CS p (snd (scheme_generate_new HX J (ecdsa CS) entropy kid seed st))"
    by (rule scheme_generate_new_inv [OF assms], simp add: seed_gives_def)+
  with GenerateNew show ?thesis
    by (cases s) (simp_all add: generate_new_def sr25519_generate_new_def ed25519_generate_new_def
        ecdsa_generate_new_def)
next
  case (InsertUnknown kid suri public)
  obtain self f where st: "st = (self, f)" by force
  from assms st obtain q where q: "key_file_path HX self public kid = Some q"
    by (auto simp: store_inv_def key_file_path_def)
  obtain r g where w: "write_to_file J q suri f = (r, g)" by force
  have "private_files p g"
    using write_to_file_private [of p f J q suri] assms w st by (simp add: store_inv_def)
  with assms st q w InsertUnknown show ?thesis
    by (cases r) (simp_all add: sync_insert_unknown_def insert_unknown_def store_inv_def)
next
  case (Restart pw)
  then show ?thesis using reopen_inv [OF assms] by simp
qed (use assms in simp_all)

lemma store_inv_faults [simp]: "store_inv CS p (self, f\<lparr>fs_fault := faults\<rparr>) = store_inv CS p (self, f)"
  by (simp add: store_inv_def private_files_def)

lemma reached_inv: "reached HX J CS st0 st \<Longrightarrow> store_inv CS p st0 \<Longrightarrow> store_inv CS p st"
proof (induction rule: reached.induct)
  case (step st c r st')
  then show ?case using exec_inv [of CS p st HX J c] by simp
next
  case (disk_changes self f faults)
  then show ?case unfolding store_inv_faults by blast
qed

section \<open>The abstract machine\<close>

record astore =
  a_mem :: "key_type_id \<times> bytes \<Rightarrow> string option"
  a_disk :: "(key_type_id \<times> bytes \<Rightarrow> string option) option"
  a_password :: "string option"

definition a_lookup :: "astore \<Rightarrow> key_type_id \<times> bytes \<Rightarrow> string option" where
  "a_lookup A k =
     (case a_mem A k of Some s \<Rightarrow> Some s | None \<Rightarrow> (case a_disk A of None \<Rightarrow> None | Some d \<Rightarrow> d k))"

definition a_put_disk :: "key_type_id \<times> bytes \<Rightarrow> string \<Rightarrow> astore \<Rightarrow> astore" where
  "a_put_disk k s A = A\<lparr>a_disk := map_option (\<lambda>d. d(k \<mapsto> s)) (a_disk A)\<rparr>"

definition a_put_mem :: "key_type_id \<times> bytes \<Rightarrow> string \<Rightarrow> astore \<Rightarrow> astore" where
  "a_put_mem k s A = A\<lparr>a_mem := (a_mem A)(k \<mapsto> s)\<rparr>"

definition a_generate ::
    "'pair crypto \<Rightarrow> nat \<Rightarrow> key_type_id \<Rightarrow> string option \<Rightarrow> astore \<Rightarrow> (trait_error, bytes) res \<times> astore" where
  "a_generate C entropy kid seed A =
     (case seed of
        Some s \<Rightarrow>
          (case from_string C s None of
             None \<Rightarrow> (Err (FromKeystore InvalidSeed), A)
           | Some pair \<Rightarrow> (Ok (public_raw C pair), a_put_mem (kid, public_raw C pair) s A))
      | None \<Rightarrow>
          (let (pair, phrase) = generate_with_phrase C entropy (a_password A) in
           (Ok (public_raw C pair),
            (if a_disk A = None then a_put_mem else a_put_disk) (kid, public_raw C pair) phrase A)))"

definition a_sign :: "'pair crypto \<Rightarrow> key_type_id \<Rightarrow> bytes \<Rightarrow> bytes \<Rightarrow> astore \<Rightarrow> (trait_error, bytes option) res" where
  "a_sign C kid key msg A =
     (case public_from_slice C key of
        None \<Rightarrow> Err (TraitOther ''Corrupted public key - Invalid size'')
      | Some public \<Rightarrow>
          (case a_lookup A (kid, public) of
             None \<Rightarrow> Ok None
           | Some phrase \<Rightarrow>
               (case from_string C phrase (a_password A) of
                  None \<Rightarrow> Err (FromKeystore InvalidPhrase)
                | Some pair \<Rightarrow>
                    if public_raw C pair = public then Ok (Some (sign_encoded C pair msg))
                    else Err (FromKeystore PublicKeyMismatch))))"

primrec aexec :: "('sr, 'ed, 'ec) cryptos \<Rightarrow> ks_call \<Rightarrow> astore \<Rightarrow> ks_reply \<times> astore" where
  "aexec CS (GenerateNew s entropy kid seed) A =
     apfst Public (case s of
        Sr \<Rightarrow> a_generate (sr25519 CS) entropy kid seed A
      | Ed \<Rightarrow> a_generate (ed25519 CS) entropy kid seed A
      | Ec \<Rightarrow> a_generate (ecdsa CS) entropy kid seed A)"
| "aexec CS (InsertUnknown kid suri public) A = (Done (Ok ()), a_put_disk (kid, public) suri A)"
| "aexec CS (HasKeys wanted) A = (Has (list_all (\<lambda>(p, t). a_lookup A (t, p) \<noteq> None) wanted), A)"
| "aexec CS (SignWith kid key msg) A =
     (Signature
       (if fst key = crypto_id (ed25519 CS) then a_sign (ed25519 CS) kid (snd key) msg A
        else if fst key = crypto_id (sr25519 CS) then a_sign (sr25519 CS) kid (snd key) msg A
        else if fst key = crypto_id (ecdsa CS) then a_sign (ecdsa CS) kid (snd key) msg A
        else Err (KeyNotSupported kid)), A)"
| "aexec CS (Restart pw) A =
     (Reopened (Ok ()), A\<lparr>a_mem := (\<lambda>_. None), a_password := (if a_disk A = None then None else pw)\<rparr>)"

primrec arun :: "('sr, 'ed, 'ec) cryptos \<Rightarrow> ks_call list \<Rightarrow> astore \<Rightarrow> ks_reply list \<times> astore" where
  "arun CS [] A = ([], A)"
| "arun CS (c # cs) A = (case aexec CS c A of (r, A') \<Rightarrow> apfst (Cons r) (arun CS cs A'))"

section \<open>Simulation\<close>

text \<open>A \<^verbatim>\<open>KeyTypeId\<close> has four bytes.\<close>

definition typed_keys :: "(key_type_id \<times> bytes \<Rightarrow> string option) \<Rightarrow> key_type_id \<times> bytes \<Rightarrow> string option" where
  "typed_keys d k = (if length (fst k) = 4 then d k else None)"

primrec typed_call :: "ks_call \<Rightarrow> bool" where
  "typed_call (GenerateNew s entropy kid seed) \<longleftrightarrow> length kid = 4"
| "typed_call (InsertUnknown kid suri public) \<longleftrightarrow> length kid = 4"
| "typed_call (HasKeys wanted) \<longleftrightarrow> list_all (\<lambda>(p, t). length t = 4) wanted"
| "typed_call (SignWith kid key msg) \<longleftrightarrow> length kid = 4"
| "typed_call (Restart pw) \<longleftrightarrow> True"

definition abs_store :: "hex_crate \<Rightarrow> json_str \<Rightarrow> keystore \<times> fs \<Rightarrow> astore" where
  "abs_store HX J st =
     \<lparr>a_mem = typed_keys (hm_get (ks_additional (fst st))),
      a_disk = map_option (\<lambda>p. typed_keys (file_phrase HX J p (snd st))) (ks_path (fst st)),
      a_password = ks_password (fst st)\<rparr>"

definition opened :: "json_str \<Rightarrow> keystore \<times> fs \<Rightarrow> bool" where
  "opened J st \<longleftrightarrow> store_ok J (fst st) (snd st) \<and>
     (\<forall>p. ks_path (fst st) = Some p \<longrightarrow> (\<forall>q \<in> set (prefixes p). is_dir (snd st) q))"

lemma typed_keys_update:
  "length (fst k) = 4 \<Longrightarrow> typed_keys (d(k \<mapsto> s)) = (typed_keys d)(k \<mapsto> s)"
  by (rule ext) (simp add: typed_keys_def)

lemma hm_get_insert_fun: "hm_get (hm_insert k v m) = (hm_get m)(k \<mapsto> v)"
  by (auto simp: hm_get_insert)

context hex_laws
begin

lemma abs_lookup:
  assumes "json_strings J" and "opened J (self, f)" and "length t = 4"
  shows "key_phrase_by_type HX J self f p t = Ok (a_lookup (abs_store HX J (self, f)) (t, p))"
  using key_phrase_by_type_stored [OF assms(1), of self f] assms(2,3)
  by (simp add: opened_def stored_def a_lookup_def abs_store_def typed_keys_def split: option.splits)

lemma insert_unknown_sim:
  assumes "json_strings J" and "opened J (self, f)" and "length kid = 4"
  shows "\<exists>g. insert_unknown HX J self kid suri public f = (Ok (), g) \<and> opened J (self, g) \<and>
    abs_store HX J (self, g) = a_put_disk (kid, public) suri (abs_store HX J (self, f))"
proof (cases "ks_path self")
  case None
  then show ?thesis
    using assms(2) by (simp add: insert_unknown_def key_file_path_def a_put_disk_def abs_store_def)
next
  case (Some p)
  let ?k = "(kid, public)"
  from assms(2) Some have dir: "store_dir J p f" by (simp add: opened_def store_ok_def)
  from write_key [OF dir, of ?k suri] obtain g where g: "write_to_file J (key_path HX p ?k) suri f = (Ok (), g)"
    "\<forall>q. hm_get (fs_nodes g) q = (if q = key_path HX p ?k then Some (File 384 (str_to_json J suri)) else hm_get (fs_nodes f) q)"
    by blast
  have "store_dir J p g" using write_key_dir [OF dir, of ?k suri] g(1) by simp
  moreover have "is_dir g q" if "q \<in> set (prefixes p)" for q
  proof -
    have "prefix q p" using that by simp
    then have "q \<noteq> key_path HX p ?k" by (auto simp: key_path_def dest: prefix_length_le)
    then show ?thesis using assms(2) Some that g(2) by (simp add: opened_def is_dir_def)
  qed
  ultimately have "opened J (self, g)" using Some by (simp add: opened_def store_ok_def)
  moreover have "typed_keys (file_phrase HX J p g) = (typed_keys (file_phrase HX J p f))(?k \<mapsto> suri)"
  proof
    fix k
    show "typed_keys (file_phrase HX J p g) k = ((typed_keys (file_phrase HX J p f))(?k \<mapsto> suri)) k"
      using phrase_store.get_put [OF file_phrase_store [OF assms(1)] dir, of ?k k suri] assms(3) g(1)
      by (auto simp: typed_keys_def)
  qed
  ultimately show ?thesis
    using g(1) Some by (simp add: insert_unknown_def key_file_path_def key_path_def a_put_disk_def abs_store_def)
qed

lemma generate_by_type_sim:
  assumes "json_strings J" and "opened J st" and "length kid = 4"
    and "generate_with_phrase C entropy (ks_password (fst st)) = (pair, phrase)"
  shows "\<exists>st'. generate_by_type HX J C entropy kid st = (Ok pair, st') \<and> opened J st' \<and>
    abs_store HX J st' = (if ks_path (fst st) = None then a_put_mem else a_put_disk)
      (kid, public_raw C pair) phrase (abs_store HX J st)"
proof -
  obtain self f where st: "st = (self, f)" by force
  show ?thesis
  proof (cases "ks_path self")
    case None
    then show ?thesis
      using assms st
      by (simp add: generate_by_type_def password_def key_file_path_def opened_def store_ok_def insert_ephemeral_pair_def
          abs_store_def a_put_mem_def hm_get_insert_fun typed_keys_update)
  next
    case (Some p)
    from insert_unknown_sim [OF assms(1) _ assms(3), of self f phrase "public_raw C pair"] assms(2) st obtain g
      where g: "insert_unknown HX J self kid phrase (public_raw C pair) f = (Ok (), g)" "opened J (self, g)"
        "abs_store HX J (self, g) = a_put_disk (kid, public_raw C pair) phrase (abs_store HX J (self, f))"
      by blast
    have "generate_by_type HX J C entropy kid (self, f) = (Ok pair, (self, g))"
      using generate_by_type_file [OF _ _ g(1)] Some assms(4) st by (simp add: password_def)
    with g Some st show ?thesis by auto
  qed
qed

lemma scheme_generate_new_sim:
  assumes "json_strings J" and "opened J st" and "length kid = 4"
  shows "\<exists>r st'. scheme_generate_new HX J C entropy kid seed st = (r, st') \<and> opened J st' \<and>
    a_generate C entropy kid seed (abs_store HX J st) = (r, abs_store HX J st')"
proof (cases seed)
  case None
  obtain pair phrase where gen: "generate_with_phrase C entropy (ks_password (fst st)) = (pair, phrase)" by force
  from generate_by_type_sim [OF assms gen] None gen show ?thesis
    by (auto simp: scheme_generate_new_def a_generate_def abs_store_def)
next
  case (Some s)
  show ?thesis
  proof (cases "from_string C s None")
    case None
    then have "scheme_generate_new HX J C entropy kid seed st = (Err (FromKeystore InvalidSeed), (fst st, snd st))"
      using Some by (simp add: scheme_generate_new_def insert_ephemeral_from_seed_by_type_def)
    with None Some assms(2) show ?thesis by (simp add: a_generate_def)
  next
    case (Some pair)
    with \<open>seed = Some s\<close> show ?thesis
      using assms
      by (simp add: scheme_generate_new_def a_generate_def insert_ephemeral_from_seed_by_type_def insert_ephemeral_pair_def
          abs_store_def a_put_mem_def hm_get_insert_fun typed_keys_update opened_def store_ok_def split: option.splits)
  qed
qed

lemma sign_with_scheme_sim:
  assumes "json_strings J" and "opened J (self, f)" and "length kid = 4"
  shows "sign_with_scheme HX J C self f kid key msg = a_sign C kid key msg (abs_store HX J (self, f))"
proof (cases "public_from_slice C key")
  case (Some public)
  note look = abs_lookup [OF assms, of public]
  have pw: "a_password (abs_store HX J (self, f)) = password self" by (simp add: abs_store_def password_def)
  show ?thesis
    using Some look pw
    by (auto simp: sign_with_scheme_def a_sign_def key_pair_by_type_def ok_or_def split: option.splits)
qed (simp add: sign_with_scheme_def a_sign_def)

lemma reopen_sim:
  assumes "opened J st"
  shows "\<exists>st'. reopen pw st = (Ok (), st') \<and> opened J st' \<and> abs_store HX J st' =
    (abs_store HX J st)\<lparr>a_mem := (\<lambda>_. None), a_password := (if a_disk (abs_store HX J st) = None then None else pw)\<rparr>"
proof -
  have empty: "typed_keys (hm_get []) = (\<lambda>_. None)" by (auto simp: typed_keys_def hm_get_empty)
  show ?thesis
  proof (cases "ks_path (fst st)")
    case None
    then show ?thesis
      by (simp add: reopen_def in_memory_def new_in_memory_def opened_def store_ok_def abs_store_def empty)
  next
    case (Some p)
    have "create_dir_all p (snd st) = (Ok (), snd st)"
      using assms Some by (intro create_dir_all_exists) (auto simp: opened_def store_ok_def store_dir_def)
    then show ?thesis
      using Some assms by (simp add: reopen_def local_open_def open_store_def opened_def store_ok_def abs_store_def empty)
  qed
qed

lemma exec_sim:
  assumes "json_strings J" and "opened J st" and "typed_call c"
  shows "\<exists>r st'. exec HX J CS c st = (r, st') \<and> opened J st' \<and>
    aexec CS c (abs_store HX J st) = (r, abs_store HX J st')"
proof (cases c)
  case (GenerateNew s entropy kid seed)
  then have "length kid = 4" using assms(3) by simp
  note gen = scheme_generate_new_sim [OF assms(1,2) this, of _ entropy seed]
  show ?thesis
  proof (cases s)
    case Sr
    with gen [of "sr25519 CS"] GenerateNew show ?thesis by (auto simp: generate_new_def sr25519_generate_new_def)
  next
    case Ed
    with gen [of "ed25519 CS"] GenerateNew show ?thesis by (auto simp: generate_new_def ed25519_generate_new_def)
  next
    case Ec
    with gen [of "ecdsa CS"] GenerateNew show ?thesis by (auto simp: generate_new_def ecdsa_generate_new_def)
  qed
next
  case (InsertUnknown kid suri public)
  then show ?thesis
    using insert_unknown_sim [OF assms(1), of "fst st" "snd st" kid suri public] assms(2,3)
    by (auto simp: sync_insert_unknown_def)
next
  case (HasKeys wanted)
  have "Option.bind (to_option (key_phrase_by_type HX J (fst st) (snd st) p t)) (\<lambda>x. x) =
      a_lookup (abs_store HX J st) (t, p)" if "length t = 4" for p t
    using abs_lookup [OF assms(1), of "fst st" "snd st" t p] assms(2) that by simp
  then have "has_keys HX J (fst st) (snd st) ws \<longleftrightarrow> list_all (\<lambda>(p, t). a_lookup (abs_store HX J st) (t, p) \<noteq> None) ws"
    if "list_all (\<lambda>(p, t). length t = 4) ws" for ws
    using that by (induction ws) (auto simp: has_keys_def)
  then show ?thesis using HasKeys assms(2,3) by simp
next
  case (SignWith kid key msg)
  have st: "opened J (fst st, snd st)" and kid: "length kid = 4" using SignWith assms(2,3) by simp_all
  show ?thesis
    using SignWith assms(2) by (simp add: sign_with_def sign_with_scheme_sim [OF assms(1) st kid])
next
  case (Restart pw)
  with reopen_sim [OF assms(2), of pw] show ?thesis by auto
qed

lemma run_sim:
  assumes "json_strings J" and "opened J st" and "list_all typed_call cs"
  shows "\<exists>rs st'. run HX J CS cs st = (rs, st') \<and> opened J st' \<and>
    arun CS cs (abs_store HX J st) = (rs, abs_store HX J st')"
  using assms(2,3)
proof (induction cs arbitrary: st)
  case (Cons c cs)
  from exec_sim [OF assms(1) Cons.prems(1), of c CS] Cons.prems(2) obtain r st1
    where 1: "exec HX J CS c st = (r, st1)" "opened J st1" "aexec CS c (abs_store HX J st) = (r, abs_store HX J st1)"
    by auto
  from Cons.IH [OF 1(2)] Cons.prems(2) obtain rs st2
    where "run HX J CS cs st1 = (rs, st2)" "opened J st2" "arun CS cs (abs_store HX J st1) = (rs, abs_store HX J st2)"
    by auto
  with 1 show ?case by simp
qed simp

end

end
