(* ===== verification/Keystore_Api.thy ===== *)
theory Keystore_Api
  imports Keystore_Machine
begin

text \<open>
  The properties of \<^verbatim>\<open>client-keystore\<close>: what a key that was generated or inserted can be
  used for afterwards, what survives a restart, and where the code departs from what its
  comments say. Key schemes and JSON are parameters; \<open>phrases_recover\<close> states what
  \<^verbatim>\<open>sp_core\<close> documents of a recovery phrase. The instances use a transparent scheme, in which
  the public key shows the phrase and the password.
\<close>

definition sample_crypto :: "string \<Rightarrow> (string \<times> string option) crypto" where
  "sample_crypto tag =
     \<lparr>crypto_id = as_bytes tag,
      generate_with_phrase = (\<lambda>entropy pw. ((show_nat entropy, pw), show_nat entropy)),
      from_string = (\<lambda>s pw. Some (s, pw)),
      public_raw = (\<lambda>(s, pw). as_bytes s @ (case pw of None \<Rightarrow> [] | Some q \<Rightarrow> as_bytes q)),
      public_from_slice = Some,
      sign_encoded = (\<lambda>(s, pw) msg. as_bytes s @ msg)\<rparr>"

definition sample_cryptos ::
    "(string \<times> string option, string \<times> string option, string \<times> string option) cryptos" where
  "sample_cryptos =
     \<lparr>sr25519 = sample_crypto ''sr25'', ed25519 = sample_crypto ''ed25'', ecdsa = sample_crypto ''ecds''\<rparr>"

definition sample_fs :: fs where
  "sample_fs = \<lparr>fs_nodes = [([''ks''], Dir)], fs_fault = (\<lambda>_ _. None), fs_default_mode = 420\<rparr>"

definition sample_store :: "string option \<Rightarrow> keystore" where
  "sample_store pw = \<lparr>ks_path = Some [''ks''], ks_additional = [], ks_password = pw\<rparr>"

lemma sample_recover: "phrases_recover (sample_crypto tag)"
  by (simp add: phrases_recover_def sample_crypto_def)

lemma sample_store_ok: "store_ok json_ref (sample_store pw) sample_fs"
  by (simp add: store_ok_def sample_store_def store_dir_def sample_fs_def no_faults_def is_dir_def hm_get_def)

section \<open>Generated keys\<close>

text \<open>A key that \<^verbatim>\<open>generate_by_type\<close> returns is in the store: \<^verbatim>\<open>key_pair_by_type\<close> finds the same
  pair under its public key, with the store's password, be it kept in a file or in
  memory; the phrase of every other key is as before.\<close>

theorem generated_key_is_found:
  assumes "hex_laws HX" and "json_strings J" and "phrases_recover C" and "store_ok J self f"
    and "length key_type = 4"
    and "ks_path self \<noteq> None \<longrightarrow>
      hm_get (ks_additional self) (key_type, public_raw C (fst (generate_with_phrase C entropy (password self)))) = None"
  shows "\<exists>pair self' f'. generate_by_type HX J C entropy key_type (self, f) = (Ok pair, (self', f')) \<and>
    key_pair_by_type HX J C self' f' (public_raw C pair) key_type = Ok (Some pair) \<and>
    (\<forall>t p. length t = 4 \<and> (t, p) \<noteq> (key_type, public_raw C pair) \<longrightarrow>
      key_phrase_by_type HX J self' f' p t = key_phrase_by_type HX J self f p t)"
  using hex_laws.generated_pair [OF assms] by blast

theorem generated_key_is_found_witness:
  "\<exists>pair self' f'. generate_by_type hex_ref json_ref (sample_crypto ''sr25'') 42 [1, 2, 3, 4]
      (sample_store (Some ''pw''), sample_fs) = (Ok pair, (self', f')) \<and>
    key_pair_by_type hex_ref json_ref (sample_crypto ''sr25'') self' f'
      (public_raw (sample_crypto ''sr25'') pair) [1, 2, 3, 4] = Ok (Some pair) \<and>
    (\<forall>t p. length t = 4 \<and> (t, p) \<noteq> ([1, 2, 3, 4], public_raw (sample_crypto ''sr25'') pair) \<longrightarrow>
      key_phrase_by_type hex_ref json_ref self' f' p t =
      key_phrase_by_type hex_ref json_ref (sample_store (Some ''pw'')) sample_fs p t)"
  by (rule generated_key_is_found [OF hex_fmt.hex_laws_axioms json_ref_strings sample_recover sample_store_ok])
    (simp_all add: sample_store_def hm_get_def)

text \<open>C23: a generated key signs: after \<^verbatim>\<open>sr25519_generate_new\<close> without a seed, \<^verbatim>\<open>sign_with\<close> under the
  identifier of the scheme and the returned public key gives the signature of the pair.\<close>

theorem generated_key_signs:
  assumes "hex_laws HX" and "json_strings J" and "phrases_recover (sr25519 CS)" and "store_ok J self f"
    and "length key_type = 4"
    and "ks_path self \<noteq> None \<longrightarrow> hm_get (ks_additional self)
      (key_type, public_raw (sr25519 CS) (fst (generate_with_phrase (sr25519 CS) entropy (password self)))) = None"
    and "\<forall>pair. public_from_slice (sr25519 CS) (public_raw (sr25519 CS) pair) = Some (public_raw (sr25519 CS) pair)"
    and "crypto_id (sr25519 CS) \<noteq> crypto_id (ed25519 CS)"
  shows "\<exists>pair self' f'.
    sr25519_generate_new HX J CS entropy key_type None (self, f) = (Ok (public_raw (sr25519 CS) pair), (self', f')) \<and>
    sign_with HX J CS self' f' key_type (crypto_id (sr25519 CS), public_raw (sr25519 CS) pair) msg =
      Ok (Some (sign_encoded (sr25519 CS) pair msg))"
proof -
  from hex_laws.generated_pair [OF assms(1-6)] obtain pair self' f'
    where "generate_by_type HX J (sr25519 CS) entropy key_type (self, f) = (Ok pair, (self', f'))"
      and "key_pair_by_type HX J (sr25519 CS) self' f' (public_raw (sr25519 CS) pair) key_type = Ok (Some pair)"
    by blast
  then show ?thesis
    using assms(7,8)
    by (intro exI [of _ pair] exI [of _ self'] exI [of _ f'])
      (simp add: sr25519_generate_new_def scheme_generate_new_def sign_with_def sign_with_scheme_def)
qed

theorem generated_key_signs_witness:
  "\<exists>pair self' f'. sr25519_generate_new hex_ref json_ref sample_cryptos 42 [1, 2, 3, 4] None
      (in_memory, sample_fs) = (Ok (public_raw (sr25519 sample_cryptos) pair), (self', f')) \<and>
    sign_with hex_ref json_ref sample_cryptos self' f' [1, 2, 3, 4]
      (crypto_id (sr25519 sample_cryptos), public_raw (sr25519 sample_cryptos) pair) [9] =
      Ok (Some (sign_encoded (sr25519 sample_cryptos) pair [9]))"
  by (rule generated_key_signs [OF hex_fmt.hex_laws_axioms json_ref_strings])
    (simp_all add: sample_cryptos_def sample_recover in_memory_def new_in_memory_def store_ok_def sample_crypto_def
      phrases_recover_def)

section \<open>Runs of the keystore\<close>

text \<open>C3: on a disk without faults the keystore is a pair of maps: for every list of calls, generating
  keys of the three schemes with or without seed, inserting, asking for keys, signing and
  restarting, the replies are those of the abstract machine, and so is the state after them.
  So a generated or inserted key survives restarts, and one from a seed does not.\<close>

theorem keystore_refines_maps:
  assumes "hex_laws HX" and "json_strings J" and "opened J st" and "list_all typed_call cs"
  shows "fst (run HX J CS cs st) = fst (arun CS cs (abs_store HX J st)) \<and>
    abs_store HX J (snd (run HX J CS cs st)) = snd (arun CS cs (abs_store HX J st))"
  using hex_laws.run_sim [OF assms, of CS] by auto

definition sample_calls :: "ks_call list" where
  "sample_calls =
     [GenerateNew Sr 7 [1, 2, 3, 4] None, GenerateNew Ed 0 [1, 2, 3, 4] (Some ''//Alice''),
      HasKeys [(as_bytes ''7'', [1, 2, 3, 4])], HasKeys [(as_bytes ''//Alice'', [1, 2, 3, 4])], Restart None,
      HasKeys [(as_bytes ''7'', [1, 2, 3, 4])], HasKeys [(as_bytes ''//Alice'', [1, 2, 3, 4])]]"

theorem keystore_refines_maps_witness:
  "fst (run hex_ref json_ref sample_cryptos sample_calls (sample_store None, sample_fs)) =
   [Public (Ok (as_bytes ''7'')), Public (Ok (as_bytes ''//Alice'')), Has True, Has True, Reopened (Ok ()), Has True, Has False]"
proof -
  have "opened json_ref (sample_store None, sample_fs)"
    using sample_store_ok [of None] by (auto simp: opened_def sample_store_def sample_fs_def is_dir_def hm_get_def)
  moreover have "list_all typed_call sample_calls" by (simp add: sample_calls_def)
  ultimately have "fst (run hex_ref json_ref sample_cryptos sample_calls (sample_store None, sample_fs)) =
      fst (arun sample_cryptos sample_calls (abs_store hex_ref json_ref (sample_store None, sample_fs)))"
    using keystore_refines_maps [OF hex_fmt.hex_laws_axioms json_ref_strings] by blast
  moreover have "abs_store hex_ref json_ref (sample_store None, sample_fs) =
      \<lparr>a_mem = (\<lambda>_. None), a_disk = Some (\<lambda>_. None), a_password = None\<rparr>"
    by (auto simp: abs_store_def typed_keys_def file_phrase_def sample_fs_def sample_store_def hm_get_def key_path_def)
  moreover have "show_nat 7 = ''7''" by (simp add: show_nat.simps)
  ultimately show ?thesis
    by (simp add: sample_calls_def sample_cryptos_def sample_crypto_def a_generate_def a_put_disk_def a_put_mem_def
        a_lookup_def as_bytes_def)
qed

text \<open>C9: phrases stay private whatever the operating system does: in every state a run of calls reaches
  from an opened store, also after calls that failed half-way on the disk and with other faults from call to call, a file of the store
  that holds anything has mode 0600, the store still works on its directory, and what it keeps in
  memory are seeds filed under the public key they give.\<close>

theorem key_files_stay_private:
  assumes "private_files p f0" and "local_open p pw f0 = (Ok self, f)" and "reached HX J CS (self, f) (self', f')"
  shows "private_files p f' \<and> ks_path self' = Some p \<and>
    (\<forall>t public seed. get_additional_pair self' public t = Some seed \<longrightarrow> seed_gives CS seed public)"
proof -
  obtain r g where c: "create_dir_all p f0 = (r, g)" by force
  have "private_files p g" using create_dir_all_private [OF assms(1), of p] c by simp
  with assms(2) c have "store_inv CS p (self, f)"
    by (cases r) (auto simp: local_open_def open_store_def store_inv_def hm_get_empty)
  from reached_inv [OF assms(3) this] show ?thesis by (simp add: store_inv_def get_additional_pair_def)
qed

definition sample_full_disk :: fs where
  "sample_full_disk = sample_fs\<lparr>fs_fault := (\<lambda>op _. if op = Write then Some (''No space left on device'', 3) else None)\<rparr>"

lemma insert_unknown_reached:
  assumes "reached HX J CS st0 (self, f)"
  shows "reached HX J CS st0 (self, snd (snd (exec HX J CS (InsertUnknown kid suri public) (self, f))))"
proof -
  obtain r g where "sync_insert_unknown HX J self kid suri public f = (r, g)" by force
  then have "exec HX J CS (InsertUnknown kid suri public) (self, f) = (Done r, (self, g))" by simp
  with reached.step [OF assms this] show ?thesis by (simp only: snd_conv)
qed

text \<open>The disk is full at the first call and has room at the second.\<close>

theorem key_files_stay_private_witness:
  "private_files [''ks''] (snd (snd (exec hex_ref json_ref sample_cryptos (InsertUnknown [1, 2, 3, 4] ''//Bob'' [8])
     (sample_store None, (snd (snd (exec hex_ref json_ref sample_cryptos (InsertUnknown [1, 2, 3, 4] ''//Alice'' [9])
        (sample_store None, sample_full_disk))))\<lparr>fs_fault := \<lambda>_ _. None\<rparr>))))"
proof -
  let ?exec = "exec hex_ref json_ref sample_cryptos" and ?reached = "reached hex_ref json_ref sample_cryptos"
  let ?alice = "InsertUnknown [1, 2, 3, 4] ''//Alice'' [9]" and ?bob = "InsertUnknown [1, 2, 3, 4] ''//Bob'' [8]"
  define f where "f = snd (snd (?exec ?alice (sample_store None, sample_full_disk)))"
  define st where "st = snd (?exec ?bob (sample_store None, f\<lparr>fs_fault := \<lambda>_ _. None\<rparr>))"
  have "private_files [''ks''] sample_full_disk"
    by (simp add: private_files_def sample_full_disk_def sample_fs_def hm_get_def)
  moreover have "local_open [''ks''] None sample_full_disk = (Ok (sample_store None), sample_full_disk)"
    by (simp add: local_open_def open_store_def create_dir_all_def sample_full_disk_def sample_fs_def is_dir_def hm_get_def
        sample_store_def)
  moreover have "?reached (sample_store None, sample_full_disk) (sample_store None, f)"
    unfolding f_def by (rule insert_unknown_reached [OF reached.start])
  then have "?reached (sample_store None, sample_full_disk) (sample_store None, snd st)"
    unfolding st_def by (intro insert_unknown_reached reached.disk_changes)
  ultimately have "private_files [''ks''] (snd st)"
    using key_files_stay_private by blast
  then show ?thesis by (simp only: st_def f_def)
qed

section \<open>Keys from a seed\<close>

text \<open>C34: a key made from a seed is usable while the store lives and gone after a restart: it
  touches no file, its phrase is found in the store it was inserted in, and a store opened
  afresh on the same directory answers for it from the files alone.\<close>

theorem seed_key_is_ephemeral:
  assumes "hex_laws HX" and "json_strings J" and "store_ok J self f" and "ks_path self = Some p"
    and "\<forall>q \<in> set (prefixes p). is_dir f q"
    and "scheme_generate_new HX J C entropy key_type (Some seed) (self, f) = (Ok pub, (self', f'))"
  shows "f' = f \<and> key_phrase_by_type HX J self' f' pub key_type = Ok (Some seed) \<and>
    (\<exists>self2. open_store p pw f' = (Ok self2, f) \<and>
      key_phrase_by_type HX J self2 f pub key_type = Ok (file_phrase HX J p f (key_type, pub)))"
proof -
  from assms(6) have new: "f' = f" "self' = insert_ephemeral_pair C (the (from_string C seed None)) seed key_type self"
    "pub = public_raw C (the (from_string C seed None))"
    by (auto simp: scheme_generate_new_def insert_ephemeral_from_seed_by_type_def split: option.splits)
  have nf: "no_faults f" using assms(3,4) by (simp add: store_ok_def store_dir_def)
  define self2 where "self2 = \<lparr>ks_path = Some p, ks_additional = [], ks_password = pw\<rparr>"
  have "open_store p pw f' = (Ok self2, f)"
    using create_dir_all_exists [OF nf assms(5)] by (simp add: open_store_def new self2_def)
  moreover have "store_ok J self2 f" using assms(3,4) by (simp add: store_ok_def self2_def)
  moreover have "stored HX J self2 f (key_type, pub) = file_phrase HX J p f (key_type, pub)"
    by (simp add: stored_def self2_def hm_get_empty)
  moreover have "key_phrase_by_type HX J self' f' pub key_type = Ok (Some seed)"
    by (simp add: new key_phrase_by_type_def get_additional_pair_def insert_ephemeral_pair_def hm_get_insert)
  ultimately show ?thesis
    using new(1) hex_laws.key_phrase_by_type_stored [OF assms(1,2)] by auto
qed

theorem seed_key_is_ephemeral_witness:
  "key_phrase_by_type hex_ref json_ref (insert_ephemeral_pair (sample_crypto ''sr25'') (''//Alice'', None)
      ''//Alice'' [1, 2, 3, 4] (sample_store None)) sample_fs (as_bytes ''//Alice'') [1, 2, 3, 4] = Ok (Some ''//Alice'') \<and>
   (\<exists>self2. open_store [''ks''] None sample_fs = (Ok self2, sample_fs) \<and>
      key_phrase_by_type hex_ref json_ref self2 sample_fs (as_bytes ''//Alice'') [1, 2, 3, 4] = Ok None)"
  using seed_key_is_ephemeral [OF hex_fmt.hex_laws_axioms json_ref_strings sample_store_ok [of None],
      of "[''ks'']" "sample_crypto ''sr25''" 0 "[1, 2, 3, 4]" "''//Alice''" "as_bytes ''//Alice''"
        "insert_ephemeral_pair (sample_crypto ''sr25'') (''//Alice'', None) ''//Alice'' [1, 2, 3, 4] (sample_store None)"
        sample_fs None]
  by (simp add: sample_store_def sample_fs_def is_dir_def hm_get_def scheme_generate_new_def sample_crypto_def
      insert_ephemeral_from_seed_by_type_def file_phrase_def key_path_def)

text \<open>C35: what a store with a password makes of a key from a seed: the insertion derives the pair without the password,
  the look-up derives it from the same seed with the password. So the key is found again only if the seed gives
  the same public key with the password (as the hex seeds do, for which \<^verbatim>\<open>sp_core\<close> ignores it); if it gives another
  one, the look-up reports a mismatch of the store's own entry, and if it gives none, an invalid phrase.\<close>

theorem seed_key_under_password:
  assumes "from_string C seed None = Some pair"
    and "insert_ephemeral_from_seed_by_type C seed key_type self = (Ok inserted, self')"
  shows "inserted = pair \<and>
    key_pair_by_type HX J C self' f (public_raw C inserted) key_type =
      (case from_string C seed (password self) of
         None \<Rightarrow> Err InvalidPhrase
       | Some found \<Rightarrow> if public_raw C found = public_raw C pair then Ok (Some found) else Err PublicKeyMismatch)"
  using assms
  by (auto simp: insert_ephemeral_from_seed_by_type_def key_pair_by_type_def key_phrase_by_type_def
      get_additional_pair_def insert_ephemeral_pair_def hm_get_insert password_def split: option.splits)

theorem seed_key_under_password_witness:
  "key_pair_by_type hex_ref json_ref (sample_crypto ''sr25'')
     (insert_ephemeral_pair (sample_crypto ''sr25'') (''//Alice'', None) ''//Alice'' [1, 2, 3, 4]
       (sample_store (Some ''pw''))) sample_fs (public_raw (sample_crypto ''sr25'') (''//Alice'', None)) [1, 2, 3, 4] =
     Err PublicKeyMismatch"
  using seed_key_under_password [of "sample_crypto ''sr25''" "''//Alice''" "(''//Alice'', None)" "[1, 2, 3, 4]"
      "sample_store (Some ''pw'')" "(''//Alice'', None)"
      "insert_ephemeral_pair (sample_crypto ''sr25'') (''//Alice'', None) ''//Alice'' [1, 2, 3, 4] (sample_store (Some ''pw''))"
      hex_ref json_ref sample_fs]
  by (simp add: insert_ephemeral_from_seed_by_type_def sample_crypto_def sample_store_def password_def as_bytes_def)

section \<open>Files and listings\<close>

text \<open>\<^verbatim>\<open>insert_unknown\<close> on a store with a directory writes the phrase to a file of its own that
  only its owner may read (mode 0600), under which it is found again, and leaves every
  other key alone; on a store in memory it succeeds without keeping anything.\<close>

theorem insert_unknown_keeps_phrase:
  assumes "hex_laws HX" and "json_strings J" and "store_ok J self f" and "length key_type = 4"
    and "ks_path self \<noteq> None \<longrightarrow> hm_get (ks_additional self) (key_type, public) = None"
  shows "\<exists>g. insert_unknown HX J self key_type suri public f = (Ok (), g) \<and> store_ok J self g \<and>
    (\<forall>t p. length t = 4 \<longrightarrow> key_phrase_by_type HX J self g p t =
      (if (t, p) = (key_type, public) \<and> ks_path self \<noteq> None then Ok (Some suri)
       else key_phrase_by_type HX J self f p t)) \<and>
    (\<forall>d. ks_path self = Some d \<longrightarrow>
      hm_get (fs_nodes g) (key_path HX d (key_type, public)) = Some (File 384 (str_to_json J suri)))"
proof -
  from hex_laws.insert_unknown_stored [OF assms, of suri] obtain g
    where g: "insert_unknown HX J self key_type suri public f = (Ok (), g)" "store_ok J self g"
      "\<forall>k. length (fst k) = 4 \<longrightarrow> stored HX J self g k =
        (if k = (key_type, public) \<and> ks_path self \<noteq> None then Some suri else stored HX J self f k)"
      "\<forall>p. ks_path self = Some p \<longrightarrow>
        hm_get (fs_nodes g) (key_path HX p (key_type, public)) = Some (File 384 (str_to_json J suri))"
    by blast
  note phrase = hex_laws.key_phrase_by_type_stored [OF assms(1,2)]
  have "key_phrase_by_type HX J self g p t =
      (if (t, p) = (key_type, public) \<and> ks_path self \<noteq> None then Ok (Some suri)
       else key_phrase_by_type HX J self f p t)" if "length t = 4" for t p
    unfolding phrase [OF g(2)] phrase [OF assms(3)] using g(3) [rule_format, of "(t, p)"] that by auto
  with g show ?thesis by blast
qed

theorem insert_unknown_keeps_phrase_witness:
  "\<exists>g. insert_unknown hex_ref json_ref (sample_store None) [1, 2, 3, 4] ''//Alice'' [9] sample_fs = (Ok (), g) \<and>
    key_phrase_by_type hex_ref json_ref (sample_store None) g [9] [1, 2, 3, 4] = Ok (Some ''//Alice'') \<and>
    hm_get (fs_nodes g) [''ks'', ''0102030409''] = Some (File 384 (CHR 0x22 # ''//Alice'' @ [CHR 0x22]))"
proof -
  have j: "str_to_json json_ref ''//Alice'' = CHR 0x22 # ''//Alice'' @ [CHR 0x22]"
    by (simp add: json_ref_def json_quote_def json_escape_def)
  have k: "key_path hex_ref [''ks''] ([1, 2, 3, 4], [9]) = [''ks'', ''0102030409'']"
    by (simp add: key_path_def hex_ref_def ref_hex_encode_def hex_digit_def hex_digits_def)
  from insert_unknown_keeps_phrase [OF hex_fmt.hex_laws_axioms json_ref_strings sample_store_ok [of None],
      of "[1, 2, 3, 4]" "[9]" "''//Alice''"]
  show ?thesis by (auto simp: sample_store_def hm_get_def j k)
qed

text \<open>The listings agree with the look-ups: \<^verbatim>\<open>has_keys\<close> holds exactly when every key asked for has
  a phrase, and each key that has one is listed by \<^verbatim>\<open>raw_public_keys\<close>.\<close>

theorem has_keys_and_listing:
  assumes "hex_laws HX" and "json_strings J" and "store_ok J self f"
  shows "(has_keys HX J self f wanted \<longleftrightarrow>
      (\<forall>(p, t) \<in> set wanted. \<exists>s. key_phrase_by_type HX J self f p t = Ok (Some s))) \<and>
    (\<forall>p t. has_keys HX J self f [(p, t)] \<and> length t = 4 \<and> p \<noteq> [] \<longrightarrow>
      (\<exists>l. raw_public_keys HX self f t = Ok l \<and> p \<in> set l))"
proof -
  note phrase = hex_laws.key_phrase_by_type_stored [OF assms]
  have "has_keys HX J self f ws \<longleftrightarrow> (\<forall>(p, t) \<in> set ws. \<exists>s. stored HX J self f (t, p) = Some s)" for ws
    by (induction ws) (auto simp: has_keys_def phrase)
  then show ?thesis
    using hex_laws.stored_listed [OF assms(1,3)] by (auto simp: phrase)
qed

theorem has_keys_and_listing_witness:
  "has_keys hex_ref json_ref \<lparr>ks_path = None, ks_additional = [(([1, 2, 3, 4], [9]), ''//Alice'')],
     ks_password = None\<rparr> sample_fs [([9], [1, 2, 3, 4])] \<and>
   (\<exists>l. raw_public_keys hex_ref \<lparr>ks_path = None, ks_additional = [(([1, 2, 3, 4], [9]), ''//Alice'')],
     ks_password = None\<rparr> sample_fs [1, 2, 3, 4] = Ok l \<and> [9] \<in> set l)"
proof -
  define ks where "ks = \<lparr>ks_path = None, ks_additional = [(([1, 2, 3, 4] :: bytes, [9] :: bytes), ''//Alice'')],
    ks_password = None\<rparr>"
  have "store_ok json_ref ks sample_fs" by (simp add: store_ok_def ks_def)
  from has_keys_and_listing [OF hex_fmt.hex_laws_axioms json_ref_strings this, of "[([9], [1, 2, 3, 4])]"]
  have "has_keys hex_ref json_ref ks sample_fs [([9], [1, 2, 3, 4])] \<and>
      (\<exists>l. raw_public_keys hex_ref ks sample_fs [1, 2, 3, 4] = Ok l \<and> [9] \<in> set l)"
    by (simp add: key_phrase_by_type_def get_additional_pair_def ks_def hm_get_def)
  then show ?thesis by (simp only: ks_def)
qed

text \<open>C36: the listing takes any entry of the directory whose name has the form of a key, a
  subdirectory too, although the comment there says directories are skipped; the look-up
  of such a key fails instead of finding nothing.\<close>

theorem listing_includes_directories:
  assumes "hex_laws HX" and "length kid = 4" and "public \<noteq> []" and "no_faults f" and "is_dir f p"
    and "hm_get (fs_nodes f) (key_path HX p (kid, public)) = Some Dir"
    and "ks_path self = Some p" and "hm_get (ks_additional self) (kid, public) = None"
  shows "(\<exists>l. raw_public_keys HX self f kid = Ok l \<and> public \<in> set l) \<and>
    key_phrase_by_type HX J self f public kid = Err (KsJson ''Is a directory'')"
proof
  have ok: "case ks_path self of None \<Rightarrow> True | Some p \<Rightarrow> no_faults f \<and> is_dir f p"
    using assms(4,5,7) by simp
  have "butlast (key_path HX p (kid, public)) = p" "key_path HX p (kid, public) \<noteq> []"
    by (simp_all add: key_path_def)
  then have "public \<in> set (List.map_filter (public_of_name HX kid)
      (filter (\<lambda>q. q \<noteq> [] \<and> butlast q = p) (map fst (fs_nodes f))))"
    using hex_laws.public_of_name_key [OF assms(1-3), of p] hm_get_Some_key [OF assms(6)]
    unfolding map_filter_member by (intro bexI [of _ "key_path HX p (kid, public)"]) simp_all
  then show "\<exists>l. raw_public_keys HX self f kid = Ok l \<and> public \<in> set l"
    using raw_public_keys_faultless [OF ok, of HX kid] assms(7) by simp
  show "key_phrase_by_type HX J self f public kid = Err (KsJson ''Is a directory'')"
    using assms(4,6-8)
    by (simp add: key_phrase_by_type_def get_additional_pair_def key_file_path_def path_exists_def file_open_def
        file_read_def no_faults_def key_path_def)
qed

theorem listing_includes_directories_witness:
  "(\<exists>l. raw_public_keys hex_ref (sample_store None)
      (sample_fs\<lparr>fs_nodes := [([''ks''], Dir), ([''ks'', ''0102030409''], Dir)]\<rparr>) [1, 2, 3, 4] = Ok l \<and> [9] \<in> set l) \<and>
   key_phrase_by_type hex_ref json_ref (sample_store None)
      (sample_fs\<lparr>fs_nodes := [([''ks''], Dir), ([''ks'', ''0102030409''], Dir)]\<rparr>) [9] [1, 2, 3, 4] =
     Err (KsJson ''Is a directory'')"
  by (rule listing_includes_directories [OF hex_fmt.hex_laws_axioms, where p = "[''ks'']"])
    (simp_all add: no_faults_def sample_fs_def is_dir_def hm_get_def key_path_def hex_ref_def ref_hex_encode_def
      hex_digit_def hex_digits_def sample_store_def)

text \<open>C33: a phrase is rewritten in place: when \<^verbatim>\<open>insert_unknown\<close> on a key that has a file already fails to write (the disk
  is full, say), the call reports the error, and the phrase that was there is gone: the file holds
  the part of the new text that was written, and looking the key up fails from then on.\<close>

theorem failed_rewrite_loses_phrase:
  assumes "ks_path self = Some p" and "hm_get (ks_additional self) (key_type, public) = None"
    and "is_dir f p" and "hm_get (fs_nodes f) (key_path HX p (key_type, public)) = Some (File mode (str_to_json J phrase))"
    and "\<forall>op q. fs_fault f op q = (if op = Write then Some (e, k) else None)"
    and "json_to_str J (str_to_json J phrase) = Inr phrase" and "json_to_str J (take k (str_to_json J suri)) = Inl eof"
  shows "key_phrase_by_type HX J self f public key_type = Ok (Some phrase) \<and>
    (\<exists>g. insert_unknown HX J self key_type suri public f = (Err (KsJson e), g) \<and>
      key_phrase_by_type HX J self g public key_type = Err (KsJson eof))"
proof -
  let ?q = "key_path HX p (key_type, public)"
  have path: "key_file_path HX self public key_type = Some ?q"
    using assms(1) by (simp add: key_file_path_def key_path_def)
  have q: "butlast ?q = p" "?q \<noteq> []" by (simp_all add: key_path_def)
  have "\<not> is_dir f ?q" using assms(4) q(2) by (simp add: is_dir_def)
  then show ?thesis
    using assms path q
    by (simp add: key_phrase_by_type_def get_additional_pair_def path_exists_def file_open_def file_read_def
        insert_unknown_def write_to_file_def file_create_def set_permissions_def file_write_def Let_def)
qed

theorem failed_rewrite_loses_phrase_witness:
  "\<exists>g. insert_unknown hex_ref json_ref (sample_store None) [1, 2, 3, 4] ''//Bob'' [9]
      \<lparr>fs_nodes = [([''ks''], Dir), ([''ks'', ''0102030409''], File 384 (str_to_json json_ref ''//Alice''))],
       fs_fault = (\<lambda>op _. if op = Write then Some (''No space left on device'', 0) else None), fs_default_mode = 420\<rparr> =
      (Err (KsJson ''No space left on device''), g) \<and>
    (\<exists>eof. key_phrase_by_type hex_ref json_ref (sample_store None) g [9] [1, 2, 3, 4] = Err (KsJson eof))"
proof -
  obtain eof where eof: "json_to_str json_ref (take 0 (str_to_json json_ref ''//Bob'')) = Inl eof"
    by (cases "json_to_str json_ref []") (auto simp: json_ref_def)
  have k: "key_path hex_ref [''ks''] ([1, 2, 3, 4], [9]) = [''ks'', ''0102030409'']"
    by (simp add: key_path_def hex_ref_def ref_hex_encode_def hex_digit_def hex_digits_def)
  have undo: "json_to_str json_ref (str_to_json json_ref ''//Alice'') = Inr ''//Alice''"
    using json_ref_strings by (simp add: json_strings_def)
  let ?f = "\<lparr>fs_nodes = [([''ks''], Dir), ([''ks'', ''0102030409''], File 384 (str_to_json json_ref ''//Alice''))],
    fs_fault = (\<lambda>op _. if op = Write then Some (''No space left on device'', 0) else None), fs_default_mode = 420\<rparr>"
  have "key_phrase_by_type hex_ref json_ref (sample_store None) ?f [9] [1, 2, 3, 4] = Ok (Some ''//Alice'') \<and>
     (\<exists>g. insert_unknown hex_ref json_ref (sample_store None) [1, 2, 3, 4] ''//Bob'' [9] ?f = (Err (KsJson ''No space left on device''), g) \<and>
      key_phrase_by_type hex_ref json_ref (sample_store None) g [9] [1, 2, 3, 4] = Err (KsJson eof))"
    by (rule failed_rewrite_loses_phrase [of _ "[''ks'']", OF _ _ _ _ _ undo eof])
      (simp_all add: sample_store_def hm_get_def is_dir_def k)
  then show ?thesis by blast
qed

end
