(* ===== verification/Keystore_Threads.thy ===== *)
theory Keystore_Threads
  imports Keystore_Api
begin

text \<open>
  A \<^verbatim>\<open>LocalKeystore\<close> that several threads share. A call of a method of \<^verbatim>\<open>SyncCryptoStore\<close> is at least three steps:
  the thread enters the method, the method works under the lock, and it returns, which is a step of its own because
  the guard is dropped before. Every method takes the lock once for all of its work (\<open>whole\<close>), except \<^verbatim>\<open>has_keys\<close>: its
  closure takes the read lock for each key and gives it up again, so calls of other threads come between the keys it
  looks up, and between the last of them and its return. A thread is the list of the calls it has still to make and
  what it is doing.

  The trace keeps the order of all that happens. \<open>Invoked\<close> and \<open>Returned\<close> are what a caller sees; \<open>Acted\<close> marks the
  moment at which the reply of a call is settled: its work under the lock, or in \<^verbatim>\<open>has_keys\<close> the look-up that finds
  nothing or the end of the list. The lemmas show that the calls in the order of these moments are a sequential run with
  the same replies: a phrase that is there stays there while no thread restarts the program, so the reply of
  \<^verbatim>\<open>has_keys\<close> is right at the moment it is settled.
\<close>

section \<open>Threads\<close>

datatype ks_doing =
  Idle
| Called ks_call
| Asking ks_call "(bytes \<times> key_type_id) list"
| Settled ks_call ks_reply

record ks_thread =
  th_calls :: "ks_call list"
  th_doing :: ks_doing

datatype ks_event =
  Invoked nat ks_call
| Acted nat ks_call ks_reply
| Returned nat ks_call ks_reply

record ks_world =
  kw_threads :: "nat \<Rightarrow> ks_thread"
  kw_store :: "keystore \<times> fs"
  kw_trace :: "ks_event list"

definition restarts :: "ks_call \<Rightarrow> bool" where
  "restarts c = (case c of Restart _ \<Rightarrow> True | _ \<Rightarrow> False)"

definition entered :: "ks_call \<Rightarrow> ks_doing" where
  "entered c = (case c of HasKeys wanted \<Rightarrow> Asking c wanted | _ \<Rightarrow> Called c)"

definition set_thread :: "nat \<Rightarrow> ks_call list \<Rightarrow> ks_doing \<Rightarrow> ks_world \<Rightarrow> ks_world" where
  "set_thread i cs d w = w\<lparr>kw_threads := (kw_threads w)(i := \<lparr>th_calls = cs, th_doing = d\<rparr>)\<rparr>"

definition traced :: "ks_event \<Rightarrow> ks_world \<Rightarrow> ks_world" where
  "traced e w = w\<lparr>kw_trace := kw_trace w @ [e]\<rparr>"

inductive ks_step ::
    "hex_crate \<Rightarrow> json_str \<Rightarrow> ('sr, 'ed, 'ec) cryptos \<Rightarrow> ks_world \<Rightarrow> ks_world \<Rightarrow> bool" for HX J CS where
  invoke: "kw_threads w i = \<lparr>th_calls = c # cs, th_doing = Idle\<rparr>
    \<Longrightarrow> ks_step HX J CS w (traced (Invoked i c) (set_thread i cs (entered c) w))"
| whole: "\<lbrakk>kw_threads w i = \<lparr>th_calls = cs, th_doing = Called c\<rparr>; exec HX J CS c (kw_store w) = (r, st)\<rbrakk>
    \<Longrightarrow> ks_step HX J CS w (traced (Acted i c r) (set_thread i cs (Settled c r) (w\<lparr>kw_store := st\<rparr>)))"
| found: "\<lbrakk>kw_threads w i = \<lparr>th_calls = cs, th_doing = Asking c (k # ks)\<rparr>;
      has_keys HX J (fst (kw_store w)) (snd (kw_store w)) [k]\<rbrakk>
    \<Longrightarrow> ks_step HX J CS w (set_thread i cs (Asking c ks) w)"
| missing: "\<lbrakk>kw_threads w i = \<lparr>th_calls = cs, th_doing = Asking c (k # ks)\<rparr>;
      \<not> has_keys HX J (fst (kw_store w)) (snd (kw_store w)) [k]\<rbrakk>
    \<Longrightarrow> ks_step HX J CS w (traced (Acted i c (Has False)) (set_thread i cs (Settled c (Has False)) w))"
| all_found: "kw_threads w i = \<lparr>th_calls = cs, th_doing = Asking c []\<rparr>
    \<Longrightarrow> ks_step HX J CS w (traced (Acted i c (Has True)) (set_thread i cs (Settled c (Has True)) w))"
| leave: "kw_threads w i = \<lparr>th_calls = cs, th_doing = Settled c r\<rparr>
    \<Longrightarrow> ks_step HX J CS w (traced (Returned i c r) (set_thread i cs Idle w))"

definition ks_start :: "(nat \<Rightarrow> ks_call list) \<Rightarrow> keystore \<times> fs \<Rightarrow> ks_world" where
  "ks_start progs st =
     \<lparr>kw_threads = (\<lambda>i. \<lparr>th_calls = progs i, th_doing = Idle\<rparr>), kw_store = st, kw_trace = []\<rparr>"

inductive ks_reached ::
    "hex_crate \<Rightarrow> json_str \<Rightarrow> ('sr, 'ed, 'ec) cryptos \<Rightarrow> ks_world \<Rightarrow> ks_world \<Rightarrow> bool" for HX J CS w0 where
  start: "ks_reached HX J CS w0 w0"
| more: "\<lbrakk>ks_reached HX J CS w0 w; ks_step HX J CS w w'\<rbrakk> \<Longrightarrow> ks_reached HX J CS w0 w'"

text \<open>What a trace says: the calls with their replies in the order in which they acted, the events of one thread,
  those of a call that has returned, and those of the call a thread is at.\<close>

fun acts :: "ks_event list \<Rightarrow> (ks_call \<times> ks_reply) list" where
  "acts [] = []"
| "acts (Acted _ c r # es) = (c, r) # acts es"
| "acts (_ # es) = acts es"

primrec thread_of :: "ks_event \<Rightarrow> nat" where
  "thread_of (Invoked i c) = i"
| "thread_of (Acted i c r) = i"
| "thread_of (Returned i c r) = i"

definition turn :: "nat \<Rightarrow> ks_call \<times> ks_reply \<Rightarrow> ks_event list" where
  "turn i = (\<lambda>(c, r). [Invoked i c, Acted i c r, Returned i c r])"

primrec begun :: "nat \<Rightarrow> ks_doing \<Rightarrow> ks_event list" where
  "begun i Idle = []"
| "begun i (Called c) = [Invoked i c]"
| "begun i (Asking c ks) = [Invoked i c]"
| "begun i (Settled c r) = [Invoked i c, Acted i c r]"

primrec at_call :: "ks_doing \<Rightarrow> ks_call list" where
  "at_call Idle = []"
| "at_call (Called c) = [c]"
| "at_call (Asking c ks) = [c]"
| "at_call (Settled c r) = [c]"

section \<open>Phrases stay\<close>

lemma lookup_put: "a_lookup A k \<noteq> None \<Longrightarrow> a_lookup (a_put_disk k' s A) k \<noteq> None"
  "a_lookup A k \<noteq> None \<Longrightarrow> a_lookup (a_put_mem k' s A) k \<noteq> None"
  by (auto simp: a_lookup_def a_put_disk_def a_put_mem_def split: option.splits)

lemma a_generate_keeps: "a_lookup A k \<noteq> None \<Longrightarrow> a_lookup (snd (a_generate C entropy kid seed A)) k \<noteq> None"
  using lookup_put [of A k] by (simp add: a_generate_def split: option.splits prod.splits)

lemma aexec_keeps: "a_lookup A k \<noteq> None \<Longrightarrow> \<not> restarts c \<Longrightarrow> a_lookup (snd (aexec CS c A)) k \<noteq> None"
  by (cases c) (auto simp: restarts_def lookup_put a_generate_keeps simp del: not_None_eq split: scheme.splits)

section \<open>The log is a sequential run\<close>

text \<open>\<open>asked\<close>: of the keys a thread asks for, those looked up already are in the store.\<close>

definition key_there :: "hex_crate \<Rightarrow> json_str \<Rightarrow> keystore \<times> fs \<Rightarrow> bytes \<times> key_type_id \<Rightarrow> bool" where
  "key_there HX J st k \<longleftrightarrow> a_lookup (abs_store HX J st) (snd k, fst k) \<noteq> None"

definition asked :: "hex_crate \<Rightarrow> json_str \<Rightarrow> keystore \<times> fs \<Rightarrow> ks_doing \<Rightarrow> bool" where
  "asked HX J st d \<longleftrightarrow>
     (case d of Asking c ks \<Rightarrow> (\<exists>before. c = HasKeys (before @ ks) \<and> list_all (key_there HX J st) before) | _ \<Rightarrow> True)"

text \<open>\<open>turns\<close>: the events of a thread are those of its calls, one call after the other.\<close>

definition turns :: "(nat \<Rightarrow> ks_call list) \<Rightarrow> ks_world \<Rightarrow> nat \<Rightarrow> bool" where
  "turns progs w i \<longleftrightarrow>
     (\<exists>past. filter (\<lambda>e. thread_of e = i) (kw_trace w) = concat (map (turn i) past) @ begun i (th_doing (kw_threads w i)) \<and>
        map fst past @ at_call (th_doing (kw_threads w i)) @ th_calls (kw_threads w i) = progs i)"

definition linear ::
    "hex_crate \<Rightarrow> json_str \<Rightarrow> ('sr, 'ed, 'ec) cryptos \<Rightarrow> (nat \<Rightarrow> ks_call list) \<Rightarrow> keystore \<times> fs \<Rightarrow> ks_world \<Rightarrow> bool" where
  "linear HX J CS progs st w \<longleftrightarrow>
     opened J (kw_store w) \<and>
     run HX J CS (map fst (acts (kw_trace w))) st = (map snd (acts (kw_trace w)), kw_store w) \<and>
     (\<forall>i. turns progs w i) \<and>
     (\<forall>i. asked HX J (kw_store w) (th_doing (kw_threads w i)))"

lemmas world_defs = set_thread_def traced_def

lemma acts_append [simp]: "acts (es @ es') = acts es @ acts es'"
  by (induction es rule: acts.induct) auto

lemma run_append:
  "run HX J CS (cs @ ds) st =
     (case run HX J CS cs st of (rs, st') \<Rightarrow> apfst (append rs) (run HX J CS ds st'))"
  by (induction cs arbitrary: st) (auto simp: apfst_def map_prod_def split: prod.splits)

lemma turns_step:
  assumes "turns progs w j" and "kw_threads w i = \<lparr>th_calls = cs, th_doing = d\<rparr>"
    and "kw_threads w' = (kw_threads w)(i := \<lparr>th_calls = cs', th_doing = d'\<rparr>)" and "kw_trace w' = kw_trace w @ es"
    and "list_all (\<lambda>e. thread_of e = i) es"
    and "(begun i d' = begun i d @ es \<and> at_call d' @ cs' = at_call d @ cs) \<or>
      (\<exists>c r. begun i d @ es = turn i (c, r) \<and> d' = Idle \<and> at_call d = [c] \<and> cs' = cs)"
  shows "turns progs w' j"
proof (cases "j = i")
  case True
  from assms(1,2) True obtain past where past:
    "filter (\<lambda>e. thread_of e = i) (kw_trace w) = concat (map (turn i) past) @ begun i d"
    "map fst past @ at_call d @ cs = progs i" by (auto simp: turns_def)
  have es: "filter (\<lambda>e. thread_of e = i) es = es" using assms(5) by (simp add: list_all_iff)
  from assms(6) show ?thesis
  proof (elim disjE exE conjE)
    assume "begun i d' = begun i d @ es" "at_call d' @ cs' = at_call d @ cs"
    then show ?thesis using past es assms(3,4) True by (auto simp: turns_def intro!: exI [of _ past])
  next
    fix c r
    assume "begun i d @ es = turn i (c, r)" "d' = Idle" "at_call d = [c]" "cs' = cs"
    then show ?thesis using past es assms(3,4) True by (auto simp: turns_def intro!: exI [of _ "past @ [(c, r)]"])
  qed
next
  case False
  then have "filter (\<lambda>e. thread_of e = j) es = []" using assms(5) by (auto simp: list_all_iff filter_empty_conv)
  then show ?thesis using assms(1,3,4) False by (simp add: turns_def)
qed

context hex_laws
begin

lemma has_keys_there:
  assumes "json_strings J" and "opened J st" and "list_all (\<lambda>(p, t). length t = 4) ws"
  shows "has_keys HX J (fst st) (snd st) ws \<longleftrightarrow> list_all (key_there HX J st) ws"
  using exec_sim [OF assms(1,2), of "HasKeys ws"] assms(3) by (simp add: key_there_def [abs_def] case_prod_unfold)

lemma exec_keeps_keys:
  assumes "json_strings J" and "opened J st" and "typed_call c" and "\<not> restarts c"
    and "exec HX J CS c st = (r, st')" and "key_there HX J st k"
  shows "key_there HX J st' k"
  using exec_sim [OF assms(1-3), of CS] aexec_keeps [of "abs_store HX J st" _ c CS] assms(4-6)
  by (auto simp: key_there_def)

lemma asked_kept:
  assumes "asked HX J st d" and "\<And>k. key_there HX J st k \<Longrightarrow> key_there HX J st' k"
  shows "asked HX J st' d"
  using assms by (auto simp: asked_def list_all_iff split: ks_doing.splits)

text \<open>A call acts with a reply the sequential machine gives too.\<close>

lemma linear_act:
  assumes "linear HX J CS progs st0 w" and "kw_threads w i = \<lparr>th_calls = cs, th_doing = d\<rparr>" and "begun i d = [Invoked i c]"
    and "at_call d = [c]" and "exec HX J CS c (kw_store w) = (r, st)" and "opened J st"
    and "\<And>k. key_there HX J (kw_store w) k \<Longrightarrow> key_there HX J st k"
  shows "linear HX J CS progs st0 (traced (Acted i c r) (set_thread i cs (Settled c r) (w\<lparr>kw_store := st\<rparr>)))"
  unfolding linear_def
proof (intro conjI allI)
  let ?w = "traced (Acted i c r) (set_thread i cs (Settled c r) (w\<lparr>kw_store := st\<rparr>))"
  show "opened J (kw_store ?w)" using assms(6) by (simp add: world_defs)
  show "run HX J CS (map fst (acts (kw_trace ?w))) st0 = (map snd (acts (kw_trace ?w)), kw_store ?w)"
    using assms(1,5) by (simp add: linear_def world_defs run_append)
  fix j
  have "turns progs w j" and asked: "asked HX J (kw_store w) (th_doing (kw_threads w j))"
    using assms(1) by (simp_all add: linear_def)
  then show "turns progs ?w j"
    using turns_step [OF _ assms(2), of progs j ?w cs "Settled c r" "[Acted i c r]"] assms(3,4) by (simp add: world_defs)
  show "asked HX J (kw_store ?w) (th_doing (kw_threads ?w j))"
    using asked_kept [OF asked assms(7)] by (simp add: world_defs asked_def [of _ _ _ "Settled c r"])
qed

text \<open>A thread enters a call, goes on asking or returns.\<close>

lemma linear_silent:
  assumes "linear HX J CS progs st0 w" and "asked HX J (kw_store w) d'" and "acts es = []"
    and "\<And>j. turns progs w j \<Longrightarrow> turns progs w' j"
    and "w' = w\<lparr>kw_threads := (kw_threads w)(i := \<lparr>th_calls = cs', th_doing = d'\<rparr>), kw_trace := kw_trace w @ es\<rparr>"
  shows "linear HX J CS progs st0 w'"
  using assms by (auto simp: linear_def)

lemma linear_step:
  assumes "json_strings J" and "\<forall>i. \<forall>c \<in> set (progs i). typed_call c \<and> \<not> restarts c"
    and "linear HX J CS progs st0 w" and "ks_step HX J CS w w'"
  shows "linear HX J CS progs st0 w'"
proof -
  have opened: "opened J (kw_store w)" and turns: "turns progs w i"
    and asked: "asked HX J (kw_store w) (th_doing (kw_threads w i))" for i
    using assms(3) by (simp_all add: linear_def)
  have typed: "typed_call c \<and> \<not> restarts c" if "kw_threads w i = \<lparr>th_calls = cs, th_doing = d\<rparr>" "at_call d = [c]" for c i cs d
  proof -
    have "c \<in> set (progs i)" using turns [of i] that unfolding turns_def by (metis UnCI list.set_intros(1) ks_thread.select_convs(2) set_append)
    then show ?thesis using assms(2) by blast
  qed
  have looking: "\<exists>before. c = HasKeys (before @ ks) \<and> list_all (key_there HX J (kw_store w)) before \<and>
      list_all (\<lambda>(p, t). length t = 4) (before @ ks)"
    if th: "kw_threads w i = \<lparr>th_calls = cs, th_doing = Asking c ks\<rparr>" for i cs c ks
    using asked [of i] typed [OF th] th by (auto simp: asked_def)
  note has = has_keys_there [OF assms(1) opened]
  show ?thesis
    using assms(4)
  proof cases
    case (invoke i c cs)
    have "asked HX J (kw_store w) (entered c)" by (simp add: asked_def entered_def split: ks_call.splits)
    moreover have "turns progs w' j" if "turns progs w j" for j
      using turns_step [OF that invoke(2), of w' cs "entered c" "[Invoked i c]"] invoke(1)
      by (simp add: world_defs entered_def split: ks_call.splits)
    ultimately show ?thesis
      using linear_silent [OF assms(3), of "entered c" "[Invoked i c]" w' i cs] invoke by (simp add: world_defs)
  next
    case (whole i cs c r st)
    then have c: "typed_call c \<and> \<not> restarts c" using typed [OF whole(2)] by simp
    from exec_sim [OF assms(1) opened, of c CS] c whole(3) have "opened J st" by auto
    then show ?thesis
      using linear_act [OF assms(3) whole(2) _ _ whole(3)] exec_keeps_keys [OF assms(1) opened _ _ whole(3)] c whole(1) by simp
  next
    case (found i cs c k ks)
    from looking [OF found(2)] obtain before
      where b: "c = HasKeys (before @ k # ks)" "list_all (key_there HX J (kw_store w)) before"
        "list_all (\<lambda>(p, t). length t = 4) (before @ k # ks)" by blast
    then have "key_there HX J (kw_store w) k" using has [of "[k]"] found(3) by simp
    then have "asked HX J (kw_store w) (Asking c ks)"
      using b(1,2) by (auto simp: asked_def intro: exI [of _ "before @ [k]"])
    moreover have "turns progs w' j" if "turns progs w j" for j
      using turns_step [OF that found(2), of w' cs "Asking c ks" "[]"] found(1) by (simp add: world_defs)
    ultimately show ?thesis using linear_silent [OF assms(3), of "Asking c ks" "[]" w' i cs] found(1) by (simp add: world_defs)
  next
    case (missing i cs c k ks)
    from looking [OF missing(2)] obtain before
      where b: "c = HasKeys (before @ k # ks)" "list_all (\<lambda>(p, t). length t = 4) (before @ k # ks)" by blast
    then have "\<not> key_there HX J (kw_store w) k" using has [of "[k]"] missing(3) by simp
    then have "exec HX J CS c (kw_store w) = (Has False, kw_store w)"
      using has [OF b(2)] b(1) by simp
    then show ?thesis using linear_act [OF assms(3) missing(2), where c = c and r = "Has False" and st = "kw_store w"] missing(1) opened by simp
  next
    case (all_found i cs c)
    from looking [OF all_found(2)] obtain before
      where b: "c = HasKeys before" "list_all (key_there HX J (kw_store w)) before" "list_all (\<lambda>(p, t). length t = 4) before"
      by auto
    then have "exec HX J CS c (kw_store w) = (Has True, kw_store w)"
      using has [OF b(3)] by simp
    then show ?thesis using linear_act [OF assms(3) all_found(2), where c = c and r = "Has True" and st = "kw_store w"] all_found(1) opened by simp
  next
    case (leave i cs c r)
    have "turns progs w' j" if "turns progs w j" for j
      using turns_step [OF that leave(2), of w' cs Idle "[Returned i c r]"] leave(1) by (auto simp: world_defs turn_def)
    then show ?thesis
      using linear_silent [OF assms(3), of Idle "[Returned i c r]" w' i cs] leave(1) by (simp add: world_defs asked_def)
  qed
qed

lemma linear_reached:
  assumes "json_strings J" and "\<forall>i. \<forall>c \<in> set (progs i). typed_call c \<and> \<not> restarts c" and "opened J st"
    and "ks_reached HX J CS (ks_start progs st) w"
  shows "linear HX J CS progs st w"
  using assms(4)
proof (induction rule: ks_reached.induct)
  case start
  then show ?case using assms(3) by (simp add: linear_def ks_start_def asked_def turns_def)
next
  case (more w w')
  then show ?case using linear_step [OF assms(1,2)] by blast
qed

end

section \<open>Shared keystores\<close>

text \<open>C8: a keystore that threads share is linearizable, on a disk without faults and while the program is not
  restarted: every call acts at one moment between its invocation and its return, the calls in the order of
  these moments are a sequential run that gives the replies the threads get and leads to the store there is,
  and each thread makes its calls in its order. This holds although \<^verbatim>\<open>has_keys\<close> gives the lock up
  between two keys and before it returns.\<close>

theorem shared_keystore_linearizes:
  assumes "hex_laws HX" and "json_strings J" and "opened J st"
    and "\<forall>i. \<forall>c \<in> set (progs i). typed_call c \<and> \<not> restarts c"
    and "ks_reached HX J CS (ks_start progs st) w"
  shows "run HX J CS (map fst (acts (kw_trace w))) st = (map snd (acts (kw_trace w)), kw_store w) \<and>
    (\<forall>i. \<exists>past.
       filter (\<lambda>e. thread_of e = i) (kw_trace w) = concat (map (turn i) past) @ begun i (th_doing (kw_threads w i)) \<and>
       map fst past @ at_call (th_doing (kw_threads w i)) @ th_calls (kw_threads w i) = progs i)"
  using hex_laws.linear_reached [OF assms(1,2,4,3,5)] by (simp add: linear_def turns_def)

text \<open>One thread asks for a key; another makes it and returns before the first has its answer.\<close>

definition sample_alice :: "bytes \<times> key_type_id" where
  "sample_alice = (as_bytes ''//Alice'', [1, 2, 3, 4])"

definition sample_alice_new :: ks_call where
  "sample_alice_new = GenerateNew Ed 0 [1, 2, 3, 4] (Some ''//Alice'')"

definition sample_programs :: "nat \<Rightarrow> ks_call list" where
  "sample_programs i = (if i = 0 then [HasKeys [sample_alice]] else if i = 1 then [sample_alice_new] else [])"

definition sample_alice_store :: keystore where
  "sample_alice_store = \<lparr>ks_path = None, ks_additional = [(([1, 2, 3, 4], as_bytes ''//Alice''), ''//Alice'')], ks_password = None\<rparr>"

lemma sample_shared_run:
  "\<exists>w. ks_reached hex_ref json_ref sample_cryptos (ks_start sample_programs (in_memory, sample_fs)) w \<and>
     kw_trace w =
       [Invoked 0 (HasKeys [sample_alice]), Acted 0 (HasKeys [sample_alice]) (Has False),
        Invoked 1 sample_alice_new, Acted 1 sample_alice_new (Public (Ok (as_bytes ''//Alice''))),
        Returned 1 sample_alice_new (Public (Ok (as_bytes ''//Alice''))),
        Returned 0 (HasKeys [sample_alice]) (Has False)] \<and>
     kw_store w = (sample_alice_store, sample_fs)"
proof -
  let ?gen = sample_alice_new and ?has = "HasKeys [sample_alice]"
  let ?r = "Public (Ok (as_bytes ''//Alice'')) :: ks_reply"
  let ?w0 = "ks_start sample_programs (in_memory, sample_fs)"
  let ?w1 = "traced (Invoked 0 ?has) (set_thread 0 [] (entered ?has) ?w0)"
  let ?w2 = "traced (Acted 0 ?has (Has False)) (set_thread 0 [] (Settled ?has (Has False)) ?w1)"
  let ?w3 = "traced (Invoked 1 ?gen) (set_thread 1 [] (entered ?gen) ?w2)"
  let ?w4 = "traced (Acted 1 ?gen ?r) (set_thread 1 [] (Settled ?gen ?r) (?w3\<lparr>kw_store := (sample_alice_store, sample_fs)\<rparr>))"
  let ?w5 = "traced (Returned 1 ?gen ?r) (set_thread 1 [] Idle ?w4)"
  let ?w6 = "traced (Returned 0 ?has (Has False)) (set_thread 0 [] Idle ?w5)"
  let ?step = "ks_step hex_ref json_ref sample_cryptos"
  note eval = ks_start_def world_defs sample_programs_def entered_def
  have s1: "?step ?w0 ?w1" by (rule ks_step.invoke) (simp add: eval)
  have "\<not> has_keys hex_ref json_ref in_memory sample_fs [sample_alice]"
    by (simp add: has_keys_def key_phrase_by_type_def get_additional_pair_def in_memory_def new_in_memory_def
        sample_alice_def hm_get_def key_file_path_def)
  then have s2: "?step ?w1 ?w2"
    by (intro ks_step.missing [where k = sample_alice and ks = "[]"]) (simp_all add: eval)
  have s3: "?step ?w2 ?w3" by (rule ks_step.invoke) (simp add: eval)
  have "exec hex_ref json_ref sample_cryptos ?gen (in_memory, sample_fs) = (?r, (sample_alice_store, sample_fs))"
    by (simp add: sample_alice_new_def generate_new_def ed25519_generate_new_def scheme_generate_new_def
        insert_ephemeral_from_seed_by_type_def insert_ephemeral_pair_def sample_cryptos_def sample_crypto_def in_memory_def
        new_in_memory_def hm_insert_def sample_alice_store_def)
  then have s4: "?step ?w3 ?w4" by (intro ks_step.whole) (simp_all add: eval sample_alice_new_def)
  have s5: "?step ?w4 ?w5" by (rule ks_step.leave) (simp add: eval)
  have s6: "?step ?w5 ?w6" by (rule ks_step.leave) (simp add: eval)
  note reached = ks_reached.more [OF ks_reached.more [OF ks_reached.more [OF ks_reached.more [OF ks_reached.more
    [OF ks_reached.more [OF ks_reached.start s1] s2] s3] s4] s5] s6]
  show ?thesis by (intro exI [of _ ?w6] conjI reached) (simp_all add: eval)
qed

theorem shared_keystore_linearizes_witness:
  "run hex_ref json_ref sample_cryptos [HasKeys [sample_alice], sample_alice_new] (in_memory, sample_fs) =
   ([Has False, Public (Ok (as_bytes ''//Alice''))], (sample_alice_store, sample_fs))"
proof -
  obtain w where w: "ks_reached hex_ref json_ref sample_cryptos (ks_start sample_programs (in_memory, sample_fs)) w"
    and trace: "acts (kw_trace w) = [(HasKeys [sample_alice], Has False), (sample_alice_new, Public (Ok (as_bytes ''//Alice'')))]"
    and store: "kw_store w = (sample_alice_store, sample_fs)"
    using sample_shared_run by auto
  have "opened json_ref (in_memory, sample_fs)"
    by (simp add: opened_def store_ok_def in_memory_def new_in_memory_def)
  moreover have "\<forall>i. \<forall>c \<in> set (sample_programs i). typed_call c \<and> \<not> restarts c"
    by (simp add: sample_programs_def sample_alice_new_def sample_alice_def restarts_def)
  ultimately have "run hex_ref json_ref sample_cryptos (map fst (acts (kw_trace w))) (in_memory, sample_fs) =
      (map snd (acts (kw_trace w)), kw_store w)"
    using shared_keystore_linearizes [OF hex_fmt.hex_laws_axioms json_ref_strings _ _ w] by blast
  then show ?thesis unfolding trace store by simp
qed

end
