(* ===== verification/Keystore_Tests.thy ===== *)
theory Keystore_Tests
  imports Keystore_Api "HOL-Library.List_Lexorder"
begin

text \<open>
  The unit tests of \<^verbatim>\<open>client-keystore\<close>, as functions of the key schemes, the hex crate, the JSON strings, the temporary
  directory and the file system, and their evaluation on a transparent scheme, in which the public key shows the
  phrase and the password. \<^verbatim>\<open>unwrap\<close> on a failure makes a test fail; what \<^verbatim>\<open>generate\<close> draws at random is an argument.
\<close>

section \<open>Tests\<close>

definition expect :: "('e, 'a) res \<Rightarrow> ('a \<Rightarrow> bool) \<Rightarrow> bool" where
  "expect r k = (case r of Ok x \<Rightarrow> k x | _ \<Rightarrow> False)"

definition expect_st :: "('e, 'a) res \<times> 's \<Rightarrow> ('a \<Rightarrow> 's \<Rightarrow> bool) \<Rightarrow> bool" where
  "expect_st r k = (case r of (Ok x, s) \<Rightarrow> k x s | _ \<Rightarrow> False)"

text \<open>The helpers the tests add to \<^verbatim>\<open>KeystoreInner\<close>; \<open>generate\<close> and \<open>public_keys\<close> are in \<open>Keystore\<close>.\<close>

definition insert_ephemeral_from_seed ::
    "'pair crypto \<Rightarrow> key_type_id \<Rightarrow> string \<Rightarrow> keystore \<Rightarrow> (ks_error, 'pair) res \<times> keystore" where
  "insert_ephemeral_from_seed C app_id seed self = insert_ephemeral_from_seed_by_type C seed app_id self"

definition basic_store :: "hex_crate \<Rightarrow> json_str \<Rightarrow> 'ed crypto \<Rightarrow> key_type_id \<Rightarrow> nat \<Rightarrow> path \<Rightarrow> fs \<Rightarrow> bool" where
  "basic_store HX J C app_id entropy temp_dir f =
     expect_st (open_store temp_dir None f) (\<lambda>store f.
     expect (public_keys HX C app_id store f) (\<lambda>l. l = []) \<and>
     expect_st (generate HX J C app_id entropy (store, f)) (\<lambda>key (store, f).
     expect (key_pair HX J C app_id store f (public_raw C key)) (\<lambda>found.
     case found of
       None \<Rightarrow> False
     | Some key2 \<Rightarrow>
         public_raw C key = public_raw C key2 \<and>
         expect (public_keys HX C app_id store f) (\<lambda>l. l \<noteq> [] \<and> hd l = public_raw C key))))"

definition has_keys_works ::
    "hex_crate \<Rightarrow> json_str \<Rightarrow> 'ed crypto \<Rightarrow> key_type_id \<Rightarrow> nat \<Rightarrow> 'ed \<Rightarrow> path \<Rightarrow> fs \<Rightarrow> bool" where
  "has_keys_works HX J C app_id entropy key2 temp_dir f =
     expect_st (local_open temp_dir None f) (\<lambda>store f.
     expect_st (generate HX J C app_id entropy (store, f)) (\<lambda>key (store, f).
     \<not> has_keys HX J store f [(public_raw C key2, app_id)] \<and>
     \<not> has_keys HX J store f [(public_raw C key2, app_id), (public_raw C key, app_id)] \<and>
     has_keys HX J store f [(public_raw C key, app_id)]))"

definition test_insert_ephemeral_from_seed ::
    "hex_crate \<Rightarrow> json_str \<Rightarrow> 'ed crypto \<Rightarrow> (bytes \<Rightarrow> string) \<Rightarrow> key_type_id \<Rightarrow> path \<Rightarrow> fs \<Rightarrow> bool" where
  "test_insert_ephemeral_from_seed HX J C to_ss58check app_id temp_dir f =
     expect_st (open_store temp_dir None f) (\<lambda>store f.
     expect_st (insert_ephemeral_from_seed C app_id
         ''0x3d97c819d68f9bafa7d6e79cb991eebcd77d966c5334c0b94d9e1fa7ad0869dc'' store) (\<lambda>pair store.
     to_ss58check (public_raw C pair) = ''5DKUrgFqCPV8iAXx9sjy1nyBygQCeiUYRFWurZGhnrn3HJCA'' \<and>
     expect_st (open_store temp_dir None f) (\<lambda>store f.
     expect (key_pair HX J C app_id store f (public_raw C pair)) (\<lambda>found. found = None))))"

definition password_being_used ::
    "hex_crate \<Rightarrow> json_str \<Rightarrow> 'ed crypto \<Rightarrow> key_type_id \<Rightarrow> nat \<Rightarrow> path \<Rightarrow> fs \<Rightarrow> bool" where
  "password_being_used HX J C app_id entropy temp_dir f =
     (let retrievable = (\<lambda>store f pair. expect (key_pair HX J C app_id store f (public_raw C pair)) (\<lambda>found.
            case found of None \<Rightarrow> False | Some p \<Rightarrow> public_raw C pair = public_raw C p))
      in expect_st (open_store temp_dir (Some ''password'') f) (\<lambda>store f.
         expect_st (generate HX J C app_id entropy (store, f)) (\<lambda>pair (store, f).
         retrievable store f pair \<and>
         expect_st (open_store temp_dir None f) (\<lambda>store f.
         (case key_pair HX J C app_id store f (public_raw C pair) of Err _ \<Rightarrow> True | _ \<Rightarrow> False) \<and>
         expect_st (open_store temp_dir (Some ''password'') f) (\<lambda>store f. retrievable store f pair)))))"

text \<open>The loop of \<^verbatim>\<open>public_keys_are_returned\<close>: the keys it makes, and the store after it.\<close>

primrec generate_and_insert ::
    "hex_crate \<Rightarrow> json_str \<Rightarrow> 'ed crypto \<Rightarrow> key_type_id \<Rightarrow> nat list \<Rightarrow> (nat \<Rightarrow> nat) \<Rightarrow> (nat \<Rightarrow> string) \<Rightarrow> bytes list \<Rightarrow> keystore \<times> fs \<Rightarrow>
       (ks_error, bytes list) res \<times> (keystore \<times> fs)" where
  "generate_and_insert HX J C app_id [] entropy seed_of made st = (Ok made, st)"
| "generate_and_insert HX J C app_id (i # is) entropy seed_of made st =
     st_then (generate HX J C app_id (entropy i) st) (\<lambda>key st.
     st_then (apsnd (\<lambda>self. (self, snd st)) (insert_ephemeral_from_seed C app_id (seed_of i) (fst st))) (\<lambda>pair st.
     generate_and_insert HX J C app_id is entropy seed_of (made @ [public_raw C key, public_raw C pair]) st))"

definition public_keys_are_returned ::
    "hex_crate \<Rightarrow> json_str \<Rightarrow> 'ed crypto \<Rightarrow> 'sr crypto \<Rightarrow> key_type_id \<Rightarrow> key_type_id \<Rightarrow> (nat \<Rightarrow> nat) \<Rightarrow> path \<Rightarrow> fs \<Rightarrow> bool" where
  "public_keys_are_returned HX J C C2 app_id app_id2 entropy temp_dir f =
     expect_st (open_store temp_dir None f) (\<lambda>store f.
     expect_st (generate_and_insert HX J C app_id [0..<10] entropy
         (\<lambda>i. ''0x3d97c819d68f9bafa7d6e79cb991eebcd7'' @ [''0123456789'' ! i] @ ''d966c5334c0b94d9e1fa7ad0869dc'') [] (store, f))
       (\<lambda>made st.
     expect_st (generate HX J C2 app_id2 (entropy 10) st) (\<lambda>other (store, f).
     expect (public_keys HX C app_id store f) (\<lambda>store_pubs. sort made = sort store_pubs))))"

definition store_unknown_and_extract_it ::
    "hex_crate \<Rightarrow> json_str \<Rightarrow> 'sr crypto \<Rightarrow> path \<Rightarrow> fs \<Rightarrow> bool" where
  "store_unknown_and_extract_it HX J C temp_dir f =
     expect_st (open_store temp_dir None f) (\<lambda>store f.
     case from_string C ''//Alice'' None of
       None \<Rightarrow> False
     | Some pair \<Rightarrow>
         expect_st (insert_unknown HX J store (as_bytes ''sr25'') ''//Alice'' (public_raw C pair) f) (\<lambda>_ f.
         expect (key_pair_by_type HX J C store f (public_raw C pair) (as_bytes ''sr25'')) (\<lambda>found.
         case found of None \<Rightarrow> False | Some store_pair \<Rightarrow> public_raw C pair = public_raw C store_pair)))"

definition store_ignores_files_with_invalid_name ::
    "hex_crate \<Rightarrow> ('sr, 'ed, 'ec) cryptos \<Rightarrow> path \<Rightarrow> fs \<Rightarrow> bool" where
  "store_ignores_files_with_invalid_name HX CS temp_dir f =
     expect_st (local_open temp_dir None f) (\<lambda>store f.
     let file_name = temp_dir @ [hex_encode HX (take 2 (as_bytes ''sr25''))] in
     expect_st (st_then (file_create file_name f) (\<lambda>_ f. file_write file_name ''test'' f)) (\<lambda>_ f.
     sr25519_public_keys HX CS store f (as_bytes ''sr25'') = []))"

definition generate_with_seed_is_not_stored ::
    "hex_crate \<Rightarrow> json_str \<Rightarrow> ('sr, 'ed, 'ec) cryptos \<Rightarrow> nat \<Rightarrow> path \<Rightarrow> fs \<Rightarrow> bool" where
  "generate_with_seed_is_not_stored HX J CS entropy temp_dir f =
     expect_st (local_open temp_dir None f) (\<lambda>store f.
     expect_st (sr25519_generate_new HX J CS entropy (as_bytes ''test'') (Some ''//Alice'') (store, f)) (\<lambda>_ (store, f).
     length (sr25519_public_keys HX CS store f (as_bytes ''test'')) = 1 \<and>
     expect_st (local_open temp_dir None f) (\<lambda>store f.
     length (sr25519_public_keys HX CS store f (as_bytes ''test'')) = 0)))"

definition generate_can_be_fetched_in_memory ::
    "hex_crate \<Rightarrow> json_str \<Rightarrow> ('sr, 'ed, 'ec) cryptos \<Rightarrow> nat \<Rightarrow> fs \<Rightarrow> bool" where
  "generate_can_be_fetched_in_memory HX J CS entropy f =
     expect_st (sr25519_generate_new HX J CS entropy (as_bytes ''test'') (Some ''//Alice'') (in_memory, f)) (\<lambda>_ (store, f).
     length (sr25519_public_keys HX CS store f (as_bytes ''test'')) = 1 \<and>
     expect_st (sr25519_generate_new HX J CS entropy (as_bytes ''test'') None (store, f)) (\<lambda>_ (store, f).
     length (sr25519_public_keys HX CS store f (as_bytes ''test'')) = 2))"

text \<open>\<^verbatim>\<open>0o100600\<close> is the bit of a regular file, here \<open>File\<close>, and the mode 0600.\<close>

definition uses_correct_file_permissions_on_unix ::
    "hex_crate \<Rightarrow> json_str \<Rightarrow> ('sr, 'ed, 'ec) cryptos \<Rightarrow> nat \<Rightarrow> path \<Rightarrow> fs \<Rightarrow> bool" where
  "uses_correct_file_permissions_on_unix HX J CS entropy temp_dir f =
     expect_st (local_open temp_dir None f) (\<lambda>store f.
     expect_st (sr25519_generate_new HX J CS entropy (as_bytes ''test'') None (store, f)) (\<lambda>public (store, f).
     case key_file_path HX store public (as_bytes ''test'') of
       None \<Rightarrow> False
     | Some path \<Rightarrow>
         expect (file_open path f) (\<lambda>_.
         case hm_get (fs_nodes f) path of Some (File mode _) \<Rightarrow> mode = 384 | _ \<Rightarrow> False)))"

section \<open>Evaluation\<close>

definition test_crypto :: "string \<Rightarrow> (string \<times> string option) crypto" where
  "test_crypto tag =
     (sample_crypto tag)\<lparr>generate_with_phrase := (\<lambda>entropy pw. let s = replicate entropy (CHR ''k'') in ((s, pw), s))\<rparr>"

definition test_cryptos ::
    "(string \<times> string option, string \<times> string option, string \<times> string option) cryptos" where
  "test_cryptos = \<lparr>sr25519 = test_crypto ''sr25'', ed25519 = test_crypto ''ed25'', ecdsa = test_crypto ''ecds''\<rparr>"

lemma keystore_tests_pass:
  "basic_store hex_ref json_ref (test_crypto ''ed25'') (as_bytes ''ed25'') 3 [''ks''] sample_fs"
  "has_keys_works hex_ref json_ref (test_crypto ''ed25'') (as_bytes ''ed25'') 3 (''kk'', None) [''ks''] sample_fs"
  "test_insert_ephemeral_from_seed hex_ref json_ref (test_crypto ''ed25'')
     (\<lambda>_. ''5DKUrgFqCPV8iAXx9sjy1nyBygQCeiUYRFWurZGhnrn3HJCA'') (as_bytes ''ed25'') [''ks''] sample_fs"
  "password_being_used hex_ref json_ref (test_crypto ''ed25'') (as_bytes ''ed25'') 3 [''ks''] sample_fs"
  "store_unknown_and_extract_it hex_ref json_ref (test_crypto ''sr25'') [''ks''] sample_fs"
  "store_ignores_files_with_invalid_name hex_ref test_cryptos [''ks''] sample_fs"
  "generate_with_seed_is_not_stored hex_ref json_ref test_cryptos 3 [''ks''] sample_fs"
  "generate_can_be_fetched_in_memory hex_ref json_ref test_cryptos 3 sample_fs"
  "uses_correct_file_permissions_on_unix hex_ref json_ref test_cryptos 3 [''ks''] sample_fs"
  by code_simp+

lemma public_keys_test_passes:
  "public_keys_are_returned hex_ref json_ref (test_crypto ''ed25'') (test_crypto ''sr25'') (as_bytes ''ed25'') (as_bytes ''sr25'')
     Suc [''ks''] sample_fs"
  by code_simp

end
