(* ===== verification/Json_Req.thy ===== *)
theory Json_Req
  imports Storage
begin

text \<open>
  Model of \<^verbatim>\<open>src/std/rpc/json_req.rs\<close>, the JSON-RPC requests, over the data type of
  \<^verbatim>\<open>serde_json::Value\<close> with the accessors the sources use. Text is a parameter (record
  \<open>serde\<close>): the parser, the printer and the \<^verbatim>\<open>Serialize\<close> instances of hashes and storage keys
  belong to other crates.
\<close>

section \<open>serde_json::Value\<close>

datatype json =
    JNull
  | JBool bool
  | JInt int
  | JFloat string
  | JStr string
  | JArr "json list"
  | JObj "(string \<times> json) list"

text \<open>\<^verbatim>\<open>value["key"]\<close> and \<^verbatim>\<open>value[i]\<close>: \<^verbatim>\<open>Null\<close> where there is no such member.\<close>

definition member :: "json \<Rightarrow> string \<Rightarrow> json" where
  "member v key = (case v of JObj ms \<Rightarrow> (case map_of ms key of Some x \<Rightarrow> x | None \<Rightarrow> JNull) | _ \<Rightarrow> JNull)"

definition element :: "json \<Rightarrow> nat \<Rightarrow> json" where
  "element v i = (case v of JArr xs \<Rightarrow> (if i < length xs then xs ! i else JNull) | _ \<Rightarrow> JNull)"

definition as_str :: "json \<Rightarrow> string option" where
  "as_str v = (case v of JStr s \<Rightarrow> Some s | _ \<Rightarrow> None)"

definition as_object :: "json \<Rightarrow> (string \<times> json) list option" where
  "as_object v = (case v of JObj ms \<Rightarrow> Some ms | _ \<Rightarrow> None)"

definition as_i64 :: "json \<Rightarrow> int option" where
  "as_i64 v = (case v of JInt i \<Rightarrow> (if - (2 ^ 63) \<le> i \<and> i < 2 ^ 63 then Some i else None) | _ \<Rightarrow> None)"

record serde =
  parse_json :: "string \<Rightarrow> string + json"
  print_json :: "json \<Rightarrow> string"
  ser_hash :: "hash \<Rightarrow> json"
  ser_key :: "storage_key \<Rightarrow> json"

text \<open>\<^verbatim>\<open>Option<T>\<close> is serialized as the value or \<^verbatim>\<open>null\<close>.\<close>

definition ser_option :: "('a \<Rightarrow> json) \<Rightarrow> 'a option \<Rightarrow> json" where
  "ser_option f x = (case x of None \<Rightarrow> JNull | Some y \<Rightarrow> f y)"

definition ser_u32 :: "u32 \<Rightarrow> json" where
  "ser_u32 n = JInt (uint n)"

section \<open>Requests\<close>

definition json_req :: "string \<Rightarrow> json \<Rightarrow> u32 \<Rightarrow> json" where
  "json_req method params req_id =
     JObj [(''method'', JStr method), (''params'', params), (''jsonrpc'', JStr ''2.0''),
           (''id'', JStr (show_nat (unat req_id)))]"

definition REQUEST_TRANSFER :: u32 where
  "REQUEST_TRANSFER = 3"

definition chain_get_header :: "serde \<Rightarrow> hash option \<Rightarrow> json" where
  "chain_get_header J h = json_req ''chain_getHeader'' (JArr [ser_option (ser_hash J) h]) 1"

definition chain_get_block_hash_with_id :: "u32 option \<Rightarrow> u32 \<Rightarrow> json" where
  "chain_get_block_hash_with_id number req_id =
     json_req ''chain_getBlockHash'' (JArr [ser_option ser_u32 number]) req_id"

definition chain_get_block_hash :: "u32 option \<Rightarrow> json" where
  "chain_get_block_hash number = chain_get_block_hash_with_id number 1"

definition chain_get_genesis_hash :: json where
  "chain_get_genesis_hash = chain_get_block_hash (Some 0)"

definition chain_get_block :: "serde \<Rightarrow> hash option \<Rightarrow> json" where
  "chain_get_block J h = json_req ''chain_getBlock'' (JArr [ser_option (ser_hash J) h]) 1"

definition chain_get_finalized_head :: json where
  "chain_get_finalized_head = json_req ''chain_getFinalizedHead'' JNull 1"

definition chain_subscribe_finalized_heads :: json where
  "chain_subscribe_finalized_heads = json_req ''chain_subscribeFinalizedHeads'' JNull 1"

definition payment_query_fee_details :: "serde \<Rightarrow> string \<Rightarrow> hash option \<Rightarrow> json" where
  "payment_query_fee_details J xthex_prefixed at_block =
     json_req ''payment_queryFeeDetails'' (JArr [JStr xthex_prefixed, ser_option (ser_hash J) at_block]) 1"

definition payment_query_info :: "serde \<Rightarrow> string \<Rightarrow> hash option \<Rightarrow> json" where
  "payment_query_info J xthex_prefixed at_block =
     json_req ''payment_queryInfo'' (JArr [JStr xthex_prefixed, ser_option (ser_hash J) at_block]) 1"

definition state_get_metadata_with_id :: "u32 \<Rightarrow> json" where
  "state_get_metadata_with_id req_id = json_req ''state_getMetadata'' (JArr [JNull]) req_id"

definition state_get_metadata :: json where
  "state_get_metadata = state_get_metadata_with_id 1"

definition state_get_runtime_version_with_id :: "u32 \<Rightarrow> json" where
  "state_get_runtime_version_with_id req_id = json_req ''state_getRuntimeVersion'' (JArr [JNull]) req_id"

definition state_get_runtime_version :: json where
  "state_get_runtime_version = state_get_runtime_version_with_id 1"

definition state_subscribe_storage_with_id :: "serde \<Rightarrow> storage_key list \<Rightarrow> u32 \<Rightarrow> json" where
  "state_subscribe_storage_with_id J key req_id =
     json_req ''state_subscribeStorage'' (JArr [JArr (map (ser_key J) key)]) req_id"

definition state_subscribe_storage :: "serde \<Rightarrow> storage_key list \<Rightarrow> json" where
  "state_subscribe_storage J key = state_subscribe_storage_with_id J key 1"

definition state_get_storage_with_id :: "serde \<Rightarrow> storage_key \<Rightarrow> hash option \<Rightarrow> u32 \<Rightarrow> json" where
  "state_get_storage_with_id J key at_block req_id =
     json_req ''state_getStorage'' (JArr [ser_key J key, ser_option (ser_hash J) at_block]) req_id"

definition state_get_storage :: "serde \<Rightarrow> storage_key \<Rightarrow> hash option \<Rightarrow> json" where
  "state_get_storage J key at_block =
     json_req ''state_getStorage'' (JArr [ser_key J key, ser_option (ser_hash J) at_block]) 1"

definition state_get_read_proof :: "serde \<Rightarrow> storage_key list \<Rightarrow> hash option \<Rightarrow> json" where
  "state_get_read_proof J ks at_block =
     json_req ''state_getReadProof''
       (JArr [JArr (map (ser_key J) ks), ser_option (ser_hash J) at_block]) 1"

definition state_get_keys :: "serde \<Rightarrow> storage_key \<Rightarrow> hash option \<Rightarrow> json" where
  "state_get_keys J key at_block =
     json_req ''state_getKeys'' (JArr [ser_key J key, ser_option (ser_hash J) at_block]) 1"

definition state_get_pairs :: "serde \<Rightarrow> storage_key \<Rightarrow> hash option \<Rightarrow> json" where
  "state_get_pairs J key at_block =
     json_req ''state_getPairs'' (JArr [ser_key J key, ser_option (ser_hash J) at_block]) 1"

definition author_submit_extrinsic_with_id :: "string \<Rightarrow> u32 \<Rightarrow> json" where
  "author_submit_extrinsic_with_id xthex_prefixed req_id =
     json_req ''author_submitExtrinsic'' (JArr [JStr xthex_prefixed]) req_id"

definition author_submit_extrinsic :: "string \<Rightarrow> json" where
  "author_submit_extrinsic xthex_prefixed = author_submit_extrinsic_with_id xthex_prefixed REQUEST_TRANSFER"

definition author_submit_and_watch_extrinsic_with_id :: "string \<Rightarrow> u32 \<Rightarrow> json" where
  "author_submit_and_watch_extrinsic_with_id xthex_prefixed req_id =
     json_req ''author_submitAndWatchExtrinsic'' (JArr [JStr xthex_prefixed]) req_id"

definition author_submit_and_watch_extrinsic :: "string \<Rightarrow> json" where
  "author_submit_and_watch_extrinsic xthex_prefixed =
     author_submit_and_watch_extrinsic_with_id xthex_prefixed REQUEST_TRANSFER"

section \<open>Reading a request back\<close>

lemma member_simps [simp]:
  "member (JObj ((k, v) # ms) ) key = (if k = key then v else member (JObj ms) key)"
  "member (JObj []) key = JNull"
  by (simp_all add: member_def)

lemma json_req_members:
  "member (json_req m p i) ''method'' = JStr m" "member (json_req m p i) ''params'' = p"
  "member (json_req m p i) ''jsonrpc'' = JStr ''2.0''" "member (json_req m p i) ''id'' = JStr (show_nat (unat i))"
  by (simp_all add: json_req_def)

end
