(* ===== verification/Ws_Client.thy ===== *)
theory Ws_Client
  imports Json_Req Decoder Utils
begin

text \<open>
  Model of \<^verbatim>\<open>src/std/rpc/ws_client/mod.rs\<close>, \<^verbatim>\<open>ws_client/client.rs\<close> and \<^verbatim>\<open>rpc/mod.rs\<close>: the handlers of
  the messages of a web socket connection, the thread that runs them, and the calls that wait
  for its result.

  A connection (record \<open>conn\<close>) keeps what the handler sent over the socket, whether it closed it,
  what it put into the channel to the waiting caller, and whether that caller still listens. A
  handler is a function of one message and the connection. The crate \<^verbatim>\<open>ws\<close> and the node behind it
  are a parameter: a function that gives for the text that is sent the session that follows (record
  \<open>session\<close>), that is, whether the connection comes about, the messages in their order, and whether
  it ends after them; and whether the crate goes on with a connection whose handler returned an error.
  A handler that panics ends the thread. \<^verbatim>\<open>recv\<close> returns what was put
  into the channel first; it fails if the thread is gone and nothing was; and while the session
  goes on it has no result yet, which is \<open>OutOfFuel\<close> here.
\<close>

section \<open>Errors and statuses\<close>

datatype rpc_client_error = Serde string | Extrinsic string | Send string

text \<open>An error of the crate \<^verbatim>\<open>ws\<close>: its own, or one of the client boxed into it.\<close>

datatype ws_error = WsProtocol string | WsCustom rpc_client_error

datatype xt_status = Finalized | InBlock | Broadcast | Ready | Future | SubmitOnly | XtError | Unknown

text \<open>\<^verbatim>\<open>src/std/error.rs\<close>.\<close>

datatype api_error =
    Genesis
  | RuntimeVersion
  | MetadataFetch
  | NoSigner
  | WebSocket ws_error
  | RpcClientFailed string
  | Disconnected
  | ApiMetadata metadata_error
  | ApiInvalidMetadata invalid_metadata_error
  | NodeApi error
  | StorageValueDecode codec_error
  | InvalidHexString from_hex_error
  | Deserializing string
  | UnsupportedXtStatus xt_status
  | TryFromIntError
  | OtherError string

section \<open>Connection\<close>

text \<open>A message is what \<^verbatim>\<open>as_text\<close> gives for it: an error, or its text.\<close>

type_synonym message = "string + string"

record conn =
  c_outbox :: "string list"
  c_closed :: bool
  c_results :: "string list"
  c_receiver :: bool
  c_close_error :: "string option"

type_synonym handler = "message \<Rightarrow> conn \<Rightarrow> (ws_error, unit) res \<times> conn"

definition conn_close :: "conn \<Rightarrow> (ws_error, unit) res \<times> conn" where
  "conn_close c =
     (case c_close_error c of
        Some e \<Rightarrow> (Err (WsProtocol e), c)
      | None \<Rightarrow> (Ok (), c\<lparr>c_closed := True\<rparr>))"

text \<open>\<^verbatim>\<open>Sender::send\<close> of a channel fails with the value when the receiver is gone.\<close>

definition channel_send :: "string \<Rightarrow> conn \<Rightarrow> (string, unit) res \<times> conn" where
  "channel_send v c =
     (if c_receiver c then (Ok (), c\<lparr>c_results := c_results c @ [v]\<rparr>) else (Err v, c))"

section \<open>Parsing responses\<close>

definition into_extrinsic_err :: "json \<Rightarrow> ('e, rpc_client_error) res" where
  "into_extrinsic_err resp_with_err =
     and_then (unwrap (as_object (member resp_with_err ''error''))) (\<lambda>err_obj.
     and_then (case map_of err_obj ''message'' of None \<Rightarrow> Ok [] | Some e \<Rightarrow> unwrap (as_str e)) (\<lambda>error.
     and_then (case map_of err_obj ''code'' of None \<Rightarrow> Ok (-1) | Some c \<Rightarrow> unwrap (as_i64 c)) (\<lambda>code.
     and_then (case map_of err_obj ''data'' of None \<Rightarrow> Ok [] | Some d \<Rightarrow> unwrap (as_str d)) (\<lambda>details.
     Ok (Extrinsic (''extrinsic error code '' @ show_int code @ '': '' @ error @ '': '' @ details))))))"

text \<open>\<^verbatim>\<open>return Err(f(..))\<close> where computing the error may panic.\<close>

definition fail_with :: "('e, 'e) res \<Rightarrow> ('e, 'a) res" where
  "fail_with r = and_then r Err"

definition parse_status :: "serde \<Rightarrow> string \<Rightarrow> (rpc_client_error, xt_status \<times> string option) res" where
  "parse_status J msg =
     and_then (map_err Serde (lift (parse_json J msg))) (\<lambda>value.
     if as_object (member value ''error'') \<noteq> None then fail_with (into_extrinsic_err value)
     else case as_object (member (member value ''params'') ''result'') of
       Some obj \<Rightarrow>
         (case map_of obj ''finalized'' of
            Some hash \<Rightarrow> Ok (Finalized, Some (print_json J hash))
          | None \<Rightarrow>
              (case map_of obj ''inBlock'' of
                 Some hash \<Rightarrow> Ok (InBlock, Some (print_json J hash))
               | None \<Rightarrow>
                   (case map_of obj ''broadcast'' of
                      Some array \<Rightarrow> Ok (Broadcast, Some (print_json J array))
                    | None \<Rightarrow> Ok (Unknown, None))))
     | None \<Rightarrow>
         (case as_str (member (member value ''params'') ''result'') of
            Some s \<Rightarrow>
              (if s = ''ready'' then Ok (Ready, None)
               else if s = ''future'' then Ok (Future, None)
               else Ok (Unknown, None))
          | None \<Rightarrow> Ok (Unknown, None)))"

definition result_from_json_response :: "serde \<Rightarrow> string \<Rightarrow> (rpc_client_error, string) res" where
  "result_from_json_response J resp =
     and_then (map_err Serde (lift (parse_json J resp))) (\<lambda>value.
     case as_str (member value ''result'') of
       Some resp \<Rightarrow> Ok resp
     | None \<Rightarrow> fail_with (into_extrinsic_err value))"

section \<open>Handlers\<close>

definition end_process :: "string option \<Rightarrow> conn \<Rightarrow> (ws_error, unit) res \<times> conn" where
  "end_process value c =
     (let val = (case value of Some v \<Rightarrow> v | None \<Rightarrow> []);
          c = snd (conn_close c)
      in apfst (map_err (\<lambda>v. WsCustom (Send v))) (channel_send val c))"

definition on_get_request_msg :: "serde \<Rightarrow> handler" where
  "on_get_request_msg J msg c =
     (let c = snd (conn_close c) in
      st_then (map_err WsProtocol (lift msg), c) (\<lambda>text c.
      st_then (map_err (\<lambda>e. WsCustom (Serde e)) (lift (parse_json J text)), c) (\<lambda>v c.
      let result_str = print_json J (member v ''result'') in
      apfst (map_err (\<lambda>v. WsCustom (Send v))) (channel_send result_str c))))"

text \<open>Send to the channel, and close the connection when nobody listens any more.\<close>

definition send_or_close :: "string \<Rightarrow> conn \<Rightarrow> (ws_error, unit) res \<times> conn" where
  "send_or_close v c =
     (case channel_send v c of
        (Err e, c) \<Rightarrow> conn_close c
      | (_, c) \<Rightarrow> (Ok (), c))"

definition on_subscription_msg :: "serde \<Rightarrow> handler" where
  "on_subscription_msg J msg c =
     st_then (map_err WsProtocol (lift msg), c) (\<lambda>text c.
     st_then (map_err (\<lambda>e. WsCustom (Serde e)) (lift (parse_json J text)), c) (\<lambda>value c.
     case as_str (member value ''id'') of
       Some _ \<Rightarrow> (Ok (), c)
     | None \<Rightarrow>
         (case as_str (member value ''method'') of
            None \<Rightarrow> (Ok (), c)
          | Some m \<Rightarrow>
              if m = ''state_storage'' then
                (let changes = member (member (member value ''params'') ''result'') ''changes'' in
                 case as_str (element (element changes 0) 1) of
                   Some change_set \<Rightarrow> send_or_close change_set c
                 | None \<Rightarrow> (Ok (), c))
              else if m = ''chain_finalizedHead'' then
                (let head = print_json J (member (member value ''params'') ''result'') in
                 send_or_close head c)
              else (Ok (), c))))"

text \<open>The common frame of the four handlers that watch an extrinsic: \<open>arm\<close> gives for a status that
  ends the wait the value to return.\<close>

definition on_extrinsic_msg ::
    "serde \<Rightarrow> (xt_status \<Rightarrow> string option \<Rightarrow> string option option) \<Rightarrow> handler" where
  "on_extrinsic_msg J arm msg c =
     st_then (unwrap_res (lift msg), c) (\<lambda>retstr c.
     case parse_status J retstr of
       Ok (s, val) \<Rightarrow> (case arm s val of Some v \<Rightarrow> end_process v c | None \<Rightarrow> (Ok (), c))
     | Err e \<Rightarrow> st_then (end_process None c) (\<lambda>_ c. (Err (WsCustom e), c))
     | Panic \<Rightarrow> (Panic, c)
     | OutOfFuel \<Rightarrow> (OutOfFuel, c))"

definition on_extrinsic_msg_until_finalized :: "serde \<Rightarrow> handler" where
  "on_extrinsic_msg_until_finalized J =
     on_extrinsic_msg J (\<lambda>s val.
       case s of Finalized \<Rightarrow> Some val | Future \<Rightarrow> Some None | _ \<Rightarrow> None)"

definition on_extrinsic_msg_until_in_block :: "serde \<Rightarrow> handler" where
  "on_extrinsic_msg_until_in_block J =
     on_extrinsic_msg J (\<lambda>s val.
       case s of Finalized \<Rightarrow> Some val | InBlock \<Rightarrow> Some val | Future \<Rightarrow> Some None | _ \<Rightarrow> None)"

definition on_extrinsic_msg_until_broadcast :: "serde \<Rightarrow> handler" where
  "on_extrinsic_msg_until_broadcast J =
     on_extrinsic_msg J (\<lambda>s val.
       case s of Finalized \<Rightarrow> Some val | Broadcast \<Rightarrow> Some None | Future \<Rightarrow> Some None | _ \<Rightarrow> None)"

definition on_extrinsic_msg_until_ready :: "serde \<Rightarrow> handler" where
  "on_extrinsic_msg_until_ready J =
     on_extrinsic_msg J (\<lambda>s val.
       case s of Finalized \<Rightarrow> Some val | Ready \<Rightarrow> Some None | Future \<Rightarrow> Some None | _ \<Rightarrow> None)"

definition on_extrinsic_msg_submit_only :: "serde \<Rightarrow> handler" where
  "on_extrinsic_msg_submit_only J msg c =
     st_then (unwrap_res (lift msg), c) (\<lambda>retstr c.
     case result_from_json_response J retstr of
       Ok val \<Rightarrow> end_process (Some val) c
     | Err e \<Rightarrow> st_then (end_process None c) (\<lambda>_ c. (Err (WsCustom e), c))
     | Panic \<Rightarrow> (Panic, c)
     | OutOfFuel \<Rightarrow> (OutOfFuel, c))"

section \<open>The client thread\<close>

record session =
  s_connects :: bool
  s_incoming :: "message list"
  s_ends :: bool

text \<open>\<^verbatim>\<open>RpcClient::on_open\<close>: send the request.\<close>

definition on_open :: "string \<Rightarrow> conn \<Rightarrow> conn" where
  "on_open request c = c\<lparr>c_outbox := c_outbox c @ [request]\<rparr>"

text \<open>The messages one after the other; the flag says whether the thread came to its end. After an error
  of a handler the crate goes on with the connection or gives it up: \<open>survives\<close>. A panic ends the thread.\<close>

primrec run_handler :: "(ws_error \<Rightarrow> bool) \<Rightarrow> handler \<Rightarrow> message list \<Rightarrow> conn \<Rightarrow> bool \<times> conn" where
  "run_handler survives h [] c = (False, c)"
| "run_handler survives h (m # ms) c =
     (case h m c of
        (Ok _, c') \<Rightarrow> run_handler survives h ms c'
      | (Err e, c') \<Rightarrow> if survives e then run_handler survives h ms c' else (True, c')
      | (_, c') \<Rightarrow> (True, c'))"

definition fresh_conn :: conn where
  "fresh_conn = \<lparr>c_outbox = [], c_closed = False, c_results = [], c_receiver = True, c_close_error = None\<rparr>"

record ws_env =
  spawn_error :: "string option"
  goes_on :: "ws_error \<Rightarrow> bool"
  node :: "string \<Rightarrow> session"

text \<open>The node knows what the connection brings it: the session is its answer to the text that was sent when
  the connection opened. A connection that sends nothing stays open and silent.\<close>

definition node_session :: "ws_env \<Rightarrow> conn \<Rightarrow> session" where
  "node_session env c =
     (case c_outbox c of
        [] \<Rightarrow> \<lparr>s_connects = True, s_incoming = [], s_ends = False\<rparr>
      | request # _ \<Rightarrow> node env request)"

lemma node_session [simp]:
  "node_session env (on_open req fresh_conn) = node env req"
  "node_session env \<lparr>c_outbox = req # texts, c_closed = cl, c_results = rs, c_receiver = rc, c_close_error = e\<rparr> = node env req"
  by (simp_all add: node_session_def on_open_def fresh_conn_def)

definition start_rpc_client_thread ::
    "ws_env \<Rightarrow> string \<Rightarrow> handler \<Rightarrow> (ws_error, bool \<times> conn) res" where
  "start_rpc_client_thread env jsonreq on_message_fn =
     (case spawn_error env of
        Some e \<Rightarrow> Err (WsProtocol e)
      | None \<Rightarrow>
          (let s = node_session env (on_open jsonreq fresh_conn) in
           if s_connects s then
             (let (ended, c) = run_handler (goes_on env) on_message_fn (s_incoming s) (on_open jsonreq fresh_conn)
              in Ok (ended \<or> s_ends s, c))
           else Ok (True, fresh_conn)))"

definition recv :: "bool \<times> conn \<Rightarrow> (api_error, string) res" where
  "recv t = (case c_results (snd t) of
      r # _ \<Rightarrow> Ok r
    | [] \<Rightarrow> if fst t then Err Disconnected else OutOfFuel)"

section \<open>WsRpcClient\<close>

definition ws_get :: "serde \<Rightarrow> ws_env \<Rightarrow> string \<Rightarrow> (ws_error, bool \<times> conn) res" where
  "ws_get J env req = start_rpc_client_thread env req (on_get_request_msg J)"

definition ws_submit_extrinsic :: "serde \<Rightarrow> ws_env \<Rightarrow> string \<Rightarrow> (ws_error, bool \<times> conn) res" where
  "ws_submit_extrinsic J env req = start_rpc_client_thread env req (on_extrinsic_msg_submit_only J)"

definition send_extrinsic_until_ready :: "serde \<Rightarrow> ws_env \<Rightarrow> string \<Rightarrow> (ws_error, bool \<times> conn) res" where
  "send_extrinsic_until_ready J env req = start_rpc_client_thread env req (on_extrinsic_msg_until_ready J)"

definition send_extrinsic_and_wait_until_broadcast :: "serde \<Rightarrow> ws_env \<Rightarrow> string \<Rightarrow> (ws_error, bool \<times> conn) res" where
  "send_extrinsic_and_wait_until_broadcast J env req = start_rpc_client_thread env req (on_extrinsic_msg_until_broadcast J)"

definition send_extrinsic_and_wait_until_in_block :: "serde \<Rightarrow> ws_env \<Rightarrow> string \<Rightarrow> (ws_error, bool \<times> conn) res" where
  "send_extrinsic_and_wait_until_in_block J env req = start_rpc_client_thread env req (on_extrinsic_msg_until_in_block J)"

definition send_extrinsic_and_wait_until_finalized :: "serde \<Rightarrow> ws_env \<Rightarrow> string \<Rightarrow> (ws_error, bool \<times> conn) res" where
  "send_extrinsic_and_wait_until_finalized J env req = start_rpc_client_thread env req (on_extrinsic_msg_until_finalized J)"

definition start_subscriber :: "serde \<Rightarrow> ws_env \<Rightarrow> string \<Rightarrow> (ws_error, bool \<times> conn) res" where
  "start_subscriber J env req = start_rpc_client_thread env req (on_subscription_msg J)"

lemmas ws_methods = ws_get_def ws_submit_extrinsic_def send_extrinsic_until_ready_def
  send_extrinsic_and_wait_until_broadcast_def send_extrinsic_and_wait_until_in_block_def
  send_extrinsic_and_wait_until_finalized_def start_subscriber_def

definition get_request :: "serde \<Rightarrow> ws_env \<Rightarrow> json \<Rightarrow> (api_error, string) res" where
  "get_request J env jsonreq =
     and_then (map_err WebSocket (ws_get J env (print_json J jsonreq)))
       (\<lambda>thread. and_then (recv thread) (\<lambda>str. Ok str))"

definition hash_of_hex :: "hex_crate \<Rightarrow> string \<Rightarrow> (api_error, hash) res" where
  "hash_of_hex HX s = map_err InvalidHexString (lift (hash_from_hex HX s))"

definition send_extrinsic ::
    "serde \<Rightarrow> hex_crate \<Rightarrow> ws_env \<Rightarrow> string \<Rightarrow> xt_status \<Rightarrow> (api_error, hash option) res" where
  "send_extrinsic J HX env xthex_prefixed exit_on =
     (let jsonreq = print_json J
            (case exit_on of
               SubmitOnly \<Rightarrow> author_submit_extrinsic xthex_prefixed
             | _ \<Rightarrow> author_submit_and_watch_extrinsic xthex_prefixed);
          receive = (\<lambda>call. and_then (map_err WebSocket (call J env jsonreq)) recv)
      in case exit_on of
           Finalized \<Rightarrow>
             and_then (receive send_extrinsic_and_wait_until_finalized) (\<lambda>res.
             and_then (hash_of_hex HX res) (\<lambda>h. Ok (Some h)))
         | InBlock \<Rightarrow>
             and_then (receive send_extrinsic_and_wait_until_in_block) (\<lambda>res.
             and_then (hash_of_hex HX res) (\<lambda>h. Ok (Some h)))
         | Broadcast \<Rightarrow> and_then (receive send_extrinsic_and_wait_until_broadcast) (\<lambda>res. Ok None)
         | Ready \<Rightarrow> and_then (receive send_extrinsic_until_ready) (\<lambda>res. Ok None)
         | SubmitOnly \<Rightarrow> and_then (receive ws_submit_extrinsic) (\<lambda>res. Ok None)
         | _ \<Rightarrow> Err (UnsupportedXtStatus exit_on))"

section \<open>Waiting for an event\<close>

text \<open>The first event of a decoded log that has the pallet and the variant asked for.\<close>

definition find_event :: "string \<Rightarrow> string \<Rightarrow> (phase \<times> raw) list \<Rightarrow> raw_event option" where
  "find_event module variant raws =
     (case List.find (\<lambda>(_, r). case r of Event e \<Rightarrow> re_pallet e = module \<and> re_variant e = variant | Error _ \<Rightarrow> False) raws of
        Some (_, Event e) \<Rightarrow> Some e
      | _ \<Rightarrow> None)"

text \<open>The loop over what the subscription delivers: \<open>msgs\<close> in their order, then the end of the channel
  if \<open>ends\<close>. Events that do not decode are logged and passed over.\<close>

primrec wait_loop ::
    "nat \<Rightarrow> scale \<Rightarrow> hex_crate \<Rightarrow> metadata \<Rightarrow> string \<Rightarrow> string \<Rightarrow> bool \<Rightarrow> string list \<Rightarrow> (api_error, raw_event) res" where
  "wait_loop fuel S HX M module variant ends [] = (if ends then Err Disconnected else OutOfFuel)"
| "wait_loop fuel S HX M module variant ends (event_str # rest) =
     and_then (map_err InvalidHexString (lift (vec_from_hex HX event_str))) (\<lambda>bytes.
     case decode_events fuel S M bytes of
       Ok (raw_events, _) \<Rightarrow>
         (case find_event module variant raw_events of
            Some raw \<Rightarrow> Ok raw
          | None \<Rightarrow> wait_loop fuel S HX M module variant ends rest)
     | Err _ \<Rightarrow> wait_loop fuel S HX M module variant ends rest
     | Panic \<Rightarrow> Panic
     | OutOfFuel \<Rightarrow> OutOfFuel)"

definition wait_for_raw_event ::
    "nat \<Rightarrow> scale \<Rightarrow> hex_crate \<Rightarrow> metadata \<Rightarrow> string \<Rightarrow> string \<Rightarrow> metadata option \<Rightarrow> bool \<times> conn \<Rightarrow>
       (api_error, raw_event) res" where
  "wait_for_raw_event fuel S HX own module variant decoder receiver =
     (let event_decoder = (case decoder of Some d \<Rightarrow> d | None \<Rightarrow> own) in
      wait_loop fuel S HX event_decoder module variant (fst receiver) (c_results (snd receiver)))"

definition wait_for_event ::
    "nat \<Rightarrow> scale \<Rightarrow> hex_crate \<Rightarrow> 'ev codec \<Rightarrow> metadata \<Rightarrow> string \<Rightarrow> string \<Rightarrow> metadata option \<Rightarrow> bool \<times> conn \<Rightarrow>
       (api_error, 'ev) res" where
  "wait_for_event fuel S HX E own module variant decoder receiver =
     and_then (wait_for_raw_event fuel S HX own module variant decoder receiver) (\<lambda>raw.
     and_then (map_err StorageValueDecode (lift (decode E (re_data raw)))) (\<lambda>(e, _). Ok e))"

definition subscribe_events :: "serde \<Rightarrow> hashers \<Rightarrow> ws_env \<Rightarrow> (api_error, bool \<times> conn) res" where
  "subscribe_events J H env =
     (let key = utils_storage_key H ''System'' ''Events'';
          jsonreq = print_json J (state_subscribe_storage J [key])
      in map_err WebSocket (start_subscriber J env jsonreq))"

definition subscribe_finalized_heads :: "serde \<Rightarrow> ws_env \<Rightarrow> (api_error, bool \<times> conn) res" where
  "subscribe_finalized_heads J env =
     (let jsonreq = print_json J chain_subscribe_finalized_heads
      in map_err WebSocket (start_subscriber J env jsonreq))"

section \<open>What a watched extrinsic delivers\<close>

text \<open>The abstract view of a wait: the statuses as they are parsed, up to the first that decides.\<close>

datatype outcome = Delivered string | Died | Pending

primrec watch ::
    "(xt_status \<Rightarrow> string option \<Rightarrow> string option option) \<Rightarrow>
       (rpc_client_error, xt_status \<times> string option) res list \<Rightarrow> outcome" where
  "watch arm [] = Pending"
| "watch arm (p # ps) =
     (case p of
        Ok (s, v) \<Rightarrow> (case arm s v of Some x \<Rightarrow> Delivered (case x of Some y \<Rightarrow> y | None \<Rightarrow> []) | None \<Rightarrow> watch arm ps)
      | Err e \<Rightarrow> Delivered []
      | _ \<Rightarrow> Died)"

definition outcome_of :: "bool \<Rightarrow> outcome \<Rightarrow> (api_error, string) res" where
  "outcome_of ends w =
     (case w of
        Delivered r \<Rightarrow> Ok r
      | Died \<Rightarrow> Err Disconnected
      | Pending \<Rightarrow> if ends then Err Disconnected else OutOfFuel)"

lemma end_process_fresh:
  assumes "c_receiver c"
  shows "\<exists>c'. end_process v c = (Ok (), c') \<and> c_receiver c' \<and>
    c_results c' = c_results c @ [case v of Some x \<Rightarrow> x | None \<Rightarrow> []]"
  using assms by (simp add: end_process_def channel_send_def conn_close_def Let_def split: option.splits)

text \<open>What is in the channel stays first.\<close>

lemma channel_prefix:
  assumes "\<And>m c. prefix (c_results c) (c_results (snd (h m c)))"
  shows "prefix (c_results c) (c_results (snd (run_handler survives h ms c)))"
proof (induction ms arbitrary: c)
  case (Cons m ms)
  obtain r c' where h: "h m c = (r, c')" by force
  have "prefix (c_results c) (c_results c')" using assms [of c m] by (simp add: h)
  moreover have "prefix (c_results c') (c_results (snd (run_handler survives h ms c')))" by (rule Cons.IH)
  ultimately show ?case by (cases r) (auto simp: h)
qed simp

lemma end_process_prefix: "prefix (c_results c) (c_results (snd (end_process v c)))"
  by (simp add: end_process_def channel_send_def conn_close_def Let_def split: option.splits)

lemma on_extrinsic_msg_prefix: "prefix (c_results c) (c_results (snd (on_extrinsic_msg J arm m c)))"
proof (cases m)
  case (Inr t)
  show ?thesis
  proof (cases "parse_status J t")
    case (Ok p)
    then show ?thesis using Inr end_process_prefix by (auto simp: on_extrinsic_msg_def split: prod.splits option.splits)
  next
    case (Err e)
    obtain r c' where ep: "end_process None c = (r, c')" by force
    with end_process_prefix [of c None] have "prefix (c_results c) (c_results c')" by simp
    with Err ep Inr show ?thesis by (cases r) (auto simp: on_extrinsic_msg_def)
  qed (simp_all add: Inr on_extrinsic_msg_def)
qed (simp add: on_extrinsic_msg_def)

lemma recv_hd: "prefix [r] (c_results (snd t)) \<Longrightarrow> recv t = Ok r"
  by (auto simp: recv_def prefix_def)

lemma run_watch:
  assumes "c_receiver c" and "c_results c = []"
  shows "(case run_handler survives (on_extrinsic_msg J arm) (map Inr texts) c of
      (ended, c') \<Rightarrow> recv (ended \<or> ends, c')) = outcome_of ends (watch arm (map (parse_status J) texts))"
  using assms
proof (induction texts)
  case Nil
  then show ?case by (simp add: recv_def outcome_of_def)
next
  case (Cons t ts)
  note frame = on_extrinsic_msg_def [of J arm "Inr t" c]
  show ?case
  proof (cases "parse_status J t")
    case (Ok p)
    obtain s v where p: "p = (s, v)" by force
    show ?thesis
    proof (cases "arm s v")
      case None
      then have "on_extrinsic_msg J arm (Inr t) c = (Ok (), c)" using Ok p by (simp add: frame)
      then show ?thesis using Cons Ok p None by simp
    next
      case (Some x)
      from end_process_fresh [OF Cons.prems(1), of x] Cons.prems(2) obtain c'
        where ep: "end_process x c = (Ok (), c')" and r: "c_results c' = [case x of Some y \<Rightarrow> y | None \<Rightarrow> []]"
        by auto
      have step: "on_extrinsic_msg J arm (Inr t) c = (Ok (), c')" using Ok p Some ep by (simp add: frame)
      have "prefix (c_results c') (c_results (snd (run_handler survives (on_extrinsic_msg J arm) (map Inr ts) c')))"
        by (rule channel_prefix) (rule on_extrinsic_msg_prefix)
      then show ?thesis
        using step Ok p Some r by (auto simp: outcome_of_def split: prod.splits intro!: recv_hd)
    qed
  next
    case (Err e)
    from end_process_fresh [OF Cons.prems(1), of None] Cons.prems(2) obtain c'
      where ep: "end_process None c = (Ok (), c')" and r: "c_results c' = [[]]" by auto
    then have step: "on_extrinsic_msg J arm (Inr t) c = (Err (WsCustom e), c')" using Err by (simp add: frame)
    have "prefix (c_results c') (c_results (snd (run_handler survives (on_extrinsic_msg J arm) (map Inr ts) c')))"
      by (rule channel_prefix) (rule on_extrinsic_msg_prefix)
    then show ?thesis
      using step Err r by (auto simp: outcome_of_def split: prod.splits intro!: recv_hd)
  next
    case Panic
    then have "on_extrinsic_msg J arm (Inr t) c = (Panic, c)" by (simp add: frame)
    then show ?thesis using Panic Cons.prems by (simp add: outcome_of_def recv_def)
  next
    case OutOfFuel
    then have "on_extrinsic_msg J arm (Inr t) c = (OutOfFuel, c)" by (simp add: frame)
    then show ?thesis using OutOfFuel Cons.prems by (simp add: outcome_of_def recv_def)
  qed
qed

lemma thread_watch:
  assumes "spawn_error env = None" and "node env req = \<lparr>s_connects = True, s_incoming = map Inr texts, s_ends = ends\<rparr>"
  shows "and_then (map_err WebSocket (start_rpc_client_thread env req (on_extrinsic_msg J arm))) recv =
    outcome_of ends (watch arm (map (parse_status J) texts))"
  using run_watch [where survives = "goes_on env" and c = "on_open req fresh_conn" and J = J and arm = arm and texts = texts and ends = ends] assms
  by (simp add: start_rpc_client_thread_def Let_def on_open_def fresh_conn_def split: prod.splits)

lemma watch_append:
  assumes "\<forall>p \<in> set pre. \<exists>s v. p = Ok (s, v) \<and> arm s v = None"
  shows "watch arm (pre @ ps) = watch arm ps"
  using assms by (induction pre) auto

section \<open>What a subscription delivers\<close>

definition notification :: "serde \<Rightarrow> json \<Rightarrow> string option" where
  "notification J v =
     (if as_str (member v ''id'') \<noteq> None then None
      else if as_str (member v ''method'') = Some ''state_storage'' then
        as_str (element (element (member (member (member v ''params'') ''result'') ''changes'') 0) 1)
      else if as_str (member v ''method'') = Some ''chain_finalizedHead'' then
        Some (print_json J (member (member v ''params'') ''result''))
      else None)"

definition notifications :: "serde \<Rightarrow> string list \<Rightarrow> string list" where
  "notifications J texts =
     List.map_filter (\<lambda>t. case parse_json J t of Inr v \<Rightarrow> notification J v | Inl _ \<Rightarrow> None) texts"

lemma on_subscription_msg_step:
  assumes "parse_json J t = Inr v" and "c_receiver c"
  shows "on_subscription_msg J (Inr t) c =
    (Ok (), c\<lparr>c_results := c_results c @ (case notification J v of Some r \<Rightarrow> [r] | None \<Rightarrow> [])\<rparr>)"
  using assms
  by (auto simp: on_subscription_msg_def notification_def send_or_close_def channel_send_def Let_def split: option.splits)

lemma run_subscription:
  assumes "\<forall>t \<in> set texts. \<exists>v. parse_json J t = Inr v" and "c_receiver c"
  shows "run_handler survives (on_subscription_msg J) (map Inr texts) c =
    (False, c\<lparr>c_results := c_results c @ notifications J texts\<rparr>)"
  using assms
proof (induction texts arbitrary: c)
  case Nil
  then show ?case by (simp add: notifications_def List.map_filter_simps)
next
  case (Cons t texts)
  then obtain v where v: "parse_json J t = Inr v" by auto
  define c' where "c' = c\<lparr>c_results := c_results c @ (case notification J v of Some r \<Rightarrow> [r] | None \<Rightarrow> [])\<rparr>"
  have "c_receiver c'" using Cons.prems by (simp add: c'_def)
  with Cons have "run_handler survives (on_subscription_msg J) (map Inr texts) c' =
      (False, c'\<lparr>c_results := c_results c' @ notifications J texts\<rparr>)" by simp
  then show ?case
    using on_subscription_msg_step [OF v Cons.prems(2)] v
    by (simp add: c'_def notifications_def List.map_filter_simps split: option.splits)
qed

lemma start_subscriber_delivers:
  assumes "spawn_error env = None" and "node env req = \<lparr>s_connects = True, s_incoming = map Inr texts, s_ends = ends\<rparr>"
    and "\<forall>t \<in> set texts. \<exists>v. parse_json J t = Inr v"
  shows "\<exists>c. start_subscriber J env req = Ok (ends, c) \<and> c_results c = notifications J texts"
  using run_subscription [OF assms(3), of "on_open req fresh_conn"] assms(1,2)
  by (simp add: start_subscriber_def start_rpc_client_thread_def on_open_def fresh_conn_def)

text \<open>A delivery that holds no event of the kind asked for: the wait goes on.\<close>

definition passed_over ::
    "nat \<Rightarrow> scale \<Rightarrow> hex_crate \<Rightarrow> metadata \<Rightarrow> string \<Rightarrow> string \<Rightarrow> string \<Rightarrow> bool" where
  "passed_over fuel S HX M module variant s =
     (case vec_from_hex HX s of
        Inl _ \<Rightarrow> False
      | Inr bytes \<Rightarrow>
          (case decode_events fuel S M bytes of
             Ok (raws, _) \<Rightarrow> find_event module variant raws = None
           | Err _ \<Rightarrow> True
           | _ \<Rightarrow> False))"

lemma wait_loop_passes:
  assumes "\<forall>s \<in> set pre. passed_over fuel S HX M module variant s"
  shows "wait_loop fuel S HX M module variant ends (pre @ ss) = wait_loop fuel S HX M module variant ends ss"
  using assms by (induction pre) (auto simp: passed_over_def split: sum.splits res.splits)

end
