(* ===== verification/Json_Reference.thy ===== *)
theory Json_Reference
  imports Json_Req Json_Text
begin

text \<open>
  The text of JSON values: what the client relies on of \<^verbatim>\<open>serde_json\<close> (locale \<open>serde_laws\<close>), and a printer and
  a reader on which it holds. The printer writes the compact form, the reader takes white space between
  the tokens. Numbers with a fraction or an exponent are kept as their text. The reader recurses over the
  length of the text, which bounds the depth of nesting.
\<close>

section \<open>Laws\<close>

text \<open>A value without floats.\<close>

fun json_ok :: "json \<Rightarrow> bool" where
  "json_ok (JFloat s) = False"
| "json_ok (JArr vs) = list_all json_ok vs"
| "json_ok (JObj ms) = list_all (\<lambda>kv. json_ok (snd kv)) ms"
| "json_ok _ = True"

locale serde_laws =
  fixes J :: serde
  assumes parse_print: "json_ok v \<Longrightarrow> parse_json J (print_json J v) = Inr v"
    and print_null: "print_json J JNull = ''null''"
    and print_plain: "set s \<subseteq> set hex_digits \<union> {CHR ''x''} \<Longrightarrow> print_json J (JStr s) = CHR 0x22 # s @ [CHR 0x22]"
    and ser_ok: "json_ok (ser_hash J h)" "json_ok (ser_key J k)"
begin

lemma print_inject: "json_ok v \<Longrightarrow> json_ok w \<Longrightarrow> print_json J v = print_json J w \<Longrightarrow> v = w"
  using parse_print by (metis sum.inject(2))

lemma ser_option_ok: "json_ok (ser_option (ser_hash J) h)"
  by (simp add: ser_option_def ser_ok split: option.splits)

end

section \<open>Printer\<close>

fun commas :: "string list \<Rightarrow> string" where
  "commas [] = []"
| "commas [x] = x"
| "commas (x # y # ys) = x @ CHR '','' # commas (y # ys)"

fun json_text :: "json \<Rightarrow> string" where
  "json_text JNull = ''null''"
| "json_text (JBool b) = (if b then ''true'' else ''false'')"
| "json_text (JInt i) = show_int i"
| "json_text (JFloat s) = s"
| "json_text (JStr s) = json_quote s"
| "json_text (JArr vs) = CHR ''['' # commas (map json_text vs) @ '']''"
| "json_text (JObj ms) = CHR ''{'' # commas (map (\<lambda>kv. json_quote (fst kv) @ CHR '':'' # json_text (snd kv)) ms) @ ''}''"

section \<open>Reader\<close>

definition skip_space :: "string \<Rightarrow> string" where
  "skip_space s = dropWhile (\<lambda>c. c \<in> {CHR '' '', CHR 0x09, CHR 0x0A, CHR 0x0D}) s"

definition digits :: string where
  "digits = ''0123456789''"

definition nat_of_digits :: "string \<Rightarrow> nat" where
  "nat_of_digits ds = foldl (\<lambda>n c. 10 * n + (of_char c - 48)) 0 ds"

definition int_of_token :: "string \<Rightarrow> int option" where
  "int_of_token t =
     (case t of
        [] \<Rightarrow> None
      | c # ds \<Rightarrow>
          if c = CHR ''-'' then (if ds \<noteq> [] \<and> set ds \<subseteq> set digits then Some (- int (nat_of_digits ds)) else None)
          else (if set t \<subseteq> set digits then Some (int (nat_of_digits t)) else None))"

definition read_number :: "string \<Rightarrow> (json \<times> string) option" where
  "read_number s =
     (let t = takeWhile (\<lambda>c. c \<in> set digits \<union> set ''+-.eE'') s; r = drop (length t) s
      in case int_of_token t of
           Some i \<Rightarrow> Some (JInt i, r)
         | None \<Rightarrow> if t = [] then None else Some (JFloat t, r))"

definition read_word :: "string \<Rightarrow> json \<Rightarrow> string \<Rightarrow> (json \<times> string) option" where
  "read_word w v s = (if prefix w s then Some (v, drop (length w) s) else None)"

fun read_value :: "nat \<Rightarrow> string \<Rightarrow> (json \<times> string) option"
  and read_elements :: "nat \<Rightarrow> string \<Rightarrow> (json list \<times> string) option"
  and read_members :: "nat \<Rightarrow> string \<Rightarrow> ((string \<times> json) list \<times> string) option" where
  "read_value 0 s = None"
| "read_value (Suc n) s =
     (case skip_space s of
        [] \<Rightarrow> None
      | c # r \<Rightarrow>
          if c = CHR ''n'' then read_word ''ull'' JNull r
          else if c = CHR ''t'' then read_word ''rue'' (JBool True) r
          else if c = CHR ''f'' then read_word ''alse'' (JBool False) r
          else if c = CHR 0x22 then
            (case json_unescape r of Inr (x, r') \<Rightarrow> Some (JStr x, r') | Inl _ \<Rightarrow> None)
          else if c = CHR ''['' then
            (if prefix '']'' (skip_space r) then Some (JArr [], tl (skip_space r)) else map_option (apfst JArr) (read_elements n r))
          else if c = CHR ''{'' then
            (if prefix ''}'' (skip_space r) then Some (JObj [], tl (skip_space r)) else map_option (apfst JObj) (read_members n r))
          else read_number (c # r))"
| "read_elements 0 s = None"
| "read_elements (Suc n) s =
     (case read_value n s of
        None \<Rightarrow> None
      | Some (v, r) \<Rightarrow>
          (case skip_space r of
             [] \<Rightarrow> None
           | c # r' \<Rightarrow>
               if c = CHR '','' then map_option (apfst (Cons v)) (read_elements n r')
               else if c = CHR '']'' then Some ([v], r')
               else None))"
| "read_members 0 s = None"
| "read_members (Suc n) s =
     (case skip_space s of
        [] \<Rightarrow> None
      | q # r \<Rightarrow>
          if q \<noteq> CHR 0x22 then None
          else (case json_unescape r of
              Inl _ \<Rightarrow> None
            | Inr (key, r) \<Rightarrow>
                if \<not> prefix '':'' (skip_space r) then None
                else (case read_value n (tl (skip_space r)) of
                    None \<Rightarrow> None
                  | Some (v, r) \<Rightarrow>
                      (case skip_space r of
                         [] \<Rightarrow> None
                       | c # r' \<Rightarrow>
                           if c = CHR '','' then map_option (apfst (Cons (key, v))) (read_members n r')
                           else if c = CHR ''}'' then Some ([(key, v)], r')
                           else None))))"

definition json_read :: "string \<Rightarrow> string + json" where
  "json_read s =
     (case read_value (length s) s of
        None \<Rightarrow> Inl ''expected value''
      | Some (v, r) \<Rightarrow> if skip_space r = [] then Inr v else Inl ''trailing characters'')"

definition serde_ref :: serde where
  "serde_ref =
     \<lparr>parse_json = json_read, print_json = json_text,
      ser_hash = (\<lambda>h. JStr (''0x'' @ hex_encode hex_ref h)), ser_key = (\<lambda>k. JStr (''0x'' @ hex_encode hex_ref k))\<rparr>"

section \<open>The reader takes back what the printer wrote\<close>

lemma show_nat_digits:
  "set (show_nat n) \<subseteq> set digits \<and> show_nat n \<noteq> [] \<and> nat_of_digits (show_nat n) = n"
proof (induction n rule: show_nat.induct)
  case (1 n)
  have dig: "digits ! m \<in> set digits \<and> (of_char (digits ! m) :: nat) - 48 = m" if "m < 10" for m
  proof -
    have "\<forall>m \<in> set [0..<10]. digits ! m \<in> set digits \<and> (of_char (digits ! m) :: nat) - 48 = m"
      by (simp add: upt_rec digits_def)
    with that show ?thesis by simp
  qed
  show ?case
  proof (cases "n < 10")
    case True
    then show ?thesis
      using dig [OF True] by (simp add: show_nat.simps [of n] nat_of_digits_def digits_def [symmetric])
  next
    case False
    with 1 have ih: "set (show_nat (n div 10)) \<subseteq> set digits" "nat_of_digits (show_nat (n div 10)) = n div 10" by auto
    have "10 * (n div 10) + n mod 10 = n" by simp
    then show ?thesis
      using False ih dig [of "n mod 10"]
      by (simp add: show_nat.simps [of n] nat_of_digits_def digits_def [symmetric])
  qed
qed

lemma int_of_show: "int_of_token (show_int i) = Some i"
proof -
  have d: "CHR ''-'' \<notin> set digits" by (simp add: digits_def)
  show ?thesis
  proof (cases "i < 0")
    case True
    then show ?thesis
      using show_nat_digits [of "nat (- i)"] by (simp add: show_int_def int_of_token_def)
  next
    case False
    then show ?thesis
      using show_nat_digits [of "nat i"] d
      by (cases "show_nat (nat i)") (auto simp: show_int_def int_of_token_def)
  qed
qed

lemma show_int_chars: "set (show_int i) \<subseteq> set digits \<union> set ''+-.eE'' \<and> show_int i \<noteq> []"
  using show_nat_digits [of "nat i"] show_nat_digits [of "nat (- i)"] by (auto simp: show_int_def)

text \<open>What follows a value in a text: nothing, a comma or a closing bracket.\<close>

definition stops :: "string \<Rightarrow> bool" where
  "stops r \<longleftrightarrow> r = [] \<or> hd r \<in> set '',]}''"

lemma read_number_int: "stops r \<Longrightarrow> read_number (show_int i @ r) = Some (JInt i, r)"
proof -
  assume r: "stops r"
  have "takeWhile (\<lambda>c. c \<in> set digits \<union> set ''+-.eE'') (show_int i @ r) = show_int i"
    using show_int_chars [of i] r
    by (cases r) (auto simp: takeWhile_append2 stops_def digits_def subset_iff)
  then show ?thesis by (simp only: read_number_def Let_def int_of_show) simp
qed

lemma json_text_starts:
  assumes "json_ok v"
  shows "\<exists>c r. json_text v = c # r \<and> c \<notin> {CHR '' '', CHR 0x09, CHR 0x0A, CHR 0x0D, CHR '']'', CHR ''}''}"
proof (cases v)
  case (JInt i)
  then show ?thesis
    using show_int_chars [of i] by (cases "show_int i") (auto simp: digits_def)
qed (use assms in \<open>auto simp: json_quote_def\<close>)

lemma skip_json_text: "json_ok v \<Longrightarrow> skip_space (json_text v @ r) = json_text v @ r"
  using json_text_starts [of v] by (auto simp: skip_space_def)

lemma skip_stop: "c \<in> set '',]}:\"{['' \<Longrightarrow> skip_space (c # r) = c # r"
  by (auto simp: skip_space_def)

lemma commas_Cons: "xs \<noteq> [] \<Longrightarrow> commas (x # xs) = x @ CHR '','' # commas xs"
  by (cases xs) auto

definition reads :: "json \<Rightarrow> bool" where
  "reads v \<longleftrightarrow> (\<forall>n r. length (json_text v) \<le> n \<and> stops r \<longrightarrow> read_value n (json_text v @ r) = Some (v, r))"

lemma read_elements_text:
  assumes "\<forall>v \<in> set vs. json_ok v \<and> reads v" and "vs \<noteq> []" and "length (commas (map json_text vs)) < n"
  shows "read_elements n (commas (map json_text vs) @ CHR '']'' # r) = Some (vs, r)"
  using assms
proof (induction vs arbitrary: n)
  case (Cons v vs)
  then obtain m where n: "n = Suc m" by (cases n) auto
  show ?case
  proof (cases "vs = []")
    case True
    then have "read_value m (json_text v @ CHR '']'' # r) = Some (v, CHR '']'' # r)"
      using Cons.prems n by (simp add: reads_def stops_def)
    then show ?thesis using True n by (simp add: skip_stop)
  next
    case False
    let ?rest = "CHR '','' # commas (map json_text vs) @ CHR '']'' # r"
    have "read_value m (json_text v @ ?rest) = Some (v, ?rest)"
      using Cons.prems n False by (simp add: reads_def stops_def commas_Cons)
    moreover have "read_elements m (commas (map json_text vs) @ CHR '']'' # r) = Some (vs, r)"
      using Cons.IH [of m] Cons.prems False n by (simp add: commas_Cons)
    ultimately show ?thesis using False n by (simp add: commas_Cons skip_stop)
  qed
qed simp

abbreviation member_text :: "string \<times> json \<Rightarrow> string" where
  "member_text kv \<equiv> json_quote (fst kv) @ CHR '':'' # json_text (snd kv)"

lemma read_members_text:
  assumes "\<forall>kv \<in> set ms. json_ok (snd kv) \<and> reads (snd kv)" and "ms \<noteq> []"
    and "length (commas (map member_text ms)) < n"
  shows "read_members n (commas (map member_text ms) @ CHR ''}'' # r) = Some (ms, r)"
  using assms
proof (induction ms arbitrary: n)
  case (Cons kv ms)
  then obtain m where n: "n = Suc m" by (cases n) auto
  obtain k v where kv: "kv = (k, v)" by force
  have v: "json_ok v" "reads v" using Cons.prems(1) kv by auto
  have head: "read_members n (member_text kv @ c # r') =
      (if c = CHR '','' then map_option (apfst (Cons kv)) (read_members m r') else if c = CHR ''}'' then Some ([kv], r') else None)"
    if "c \<in> set '',}''" and "length (json_text v) \<le> m" for c r'
  proof -
    have "read_value m (json_text v @ c # r') = Some (v, c # r')" using v(2) that by (auto simp: reads_def stops_def)
    then show ?thesis using that(1) by (auto simp: n kv json_quote_def skip_stop json_unescape_quoted)
  qed
  show ?case
  proof (cases "ms = []")
    case True
    have "length (json_text v) \<le> m" using Cons.prems(3) True n kv by simp
    with head [of "CHR ''}''" r] True show ?thesis by simp
  next
    case False
    have "read_members m (commas (map member_text ms) @ CHR ''}'' # r) = Some (ms, r)"
      using Cons.IH [of m] Cons.prems False n by (simp add: commas_Cons)
    moreover have "length (json_text v) \<le> m" using Cons.prems(3) False n kv by (simp add: commas_Cons)
    ultimately show ?thesis
      using False head [of "CHR '',''" "commas (map member_text ms) @ CHR ''}'' # r"] by (simp add: commas_Cons)
  qed
qed simp

lemma show_int_head: "\<exists>c t. show_int i = c # t \<and> c \<in> insert (CHR ''-'') (set digits)"
proof (cases "i < 0")
  case False
  then show ?thesis
    using show_nat_digits [of "nat i"] by (cases "show_nat (nat i)") (auto simp: show_int_def)
qed (simp add: show_int_def)

lemma read_value_number:
  "c \<in> insert (CHR ''-'') (set digits) \<Longrightarrow> read_value (Suc m) (c # t) = read_number (c # t)"
proof -
  assume "c \<in> insert (CHR ''-'') (set digits)"
  then have "skip_space (c # t) = c # t" and "c \<notin> set ''ntf[{'' \<and> c \<noteq> CHR 0x22"
    by (auto simp: skip_space_def digits_def)
  then show ?thesis by simp
qed

lemma read_value_open:
  "skip_space r = c # r' \<Longrightarrow> c \<noteq> CHR '']'' \<Longrightarrow>
     read_value (Suc m) (CHR ''['' # r) = map_option (apfst JArr) (read_elements m r)"
  "skip_space r = c # r' \<Longrightarrow> c \<noteq> CHR ''}'' \<Longrightarrow>
     read_value (Suc m) (CHR ''{'' # r) = map_option (apfst JObj) (read_members m r)"
  by (simp_all add: skip_stop)

lemma skip_elements:
  assumes "json_ok v"
  shows "\<exists>c r'. skip_space (commas (map json_text (v # ws)) @ r) = c # r' \<and> c \<noteq> CHR '']''"
proof -
  obtain r'' where "commas (map json_text (v # ws)) @ r = json_text v @ r''"
    by (cases ws) (auto simp: commas_Cons)
  with skip_json_text [OF assms, of r''] json_text_starts [OF assms] show ?thesis by auto
qed

lemma reads_intro:
  assumes "json_text v \<noteq> []"
    and "\<And>m r. length (json_text v) \<le> Suc m \<Longrightarrow> stops r \<Longrightarrow> read_value (Suc m) (json_text v @ r) = Some (v, r)"
  shows "reads v"
  unfolding reads_def
proof (intro allI impI, elim conjE)
  fix n r assume "length (json_text v) \<le> n" and "stops r"
  then show "read_value n (json_text v @ r) = Some (v, r)"
    using assms by (cases n) auto
qed

lemma read_json_text: "json_ok v \<Longrightarrow> reads v"
proof (induction v)
  case (JBool b)
  show ?case
    by (rule reads_intro) (simp_all add: skip_space_def read_word_def)
next
  case (JInt i)
  show ?case
  proof (rule reads_intro)
    fix m r assume "stops r"
    then show "read_value (Suc m) (json_text (JInt i) @ r) = Some (JInt i, r)"
      using show_int_head [of i] read_value_number read_number_int [of r i] by (auto simp del: read_value.simps)
  qed (use show_int_head [of i] in auto)
next
  case (JStr s)
  show ?case
    by (rule reads_intro) (simp_all add: json_quote_def skip_stop json_unescape_quoted)
next
  case (JArr vs)
  then have vs: "\<forall>v \<in> set vs. json_ok v \<and> reads v" by (auto simp: list_all_iff)
  show ?case
  proof (rule reads_intro)
    fix m r assume "length (json_text (JArr vs)) \<le> Suc m"
    then have n: "length (commas (map json_text vs)) < m" by simp
    show "read_value (Suc m) (json_text (JArr vs) @ r) = Some (JArr vs, r)"
    proof (cases vs)
      case Nil
      then show ?thesis by (simp add: skip_stop)
    next
      case (Cons v ws)
      with vs have "json_ok v" by simp
      from skip_elements [OF this, of ws "CHR '']'' # r"] Cons obtain c r'
        where c: "skip_space (commas (map json_text vs) @ CHR '']'' # r) = c # r'" "c \<noteq> CHR '']''" by auto
      show ?thesis
        using read_elements_text [OF vs _ n, of r] \<open>vs = v # ws\<close> read_value_open(1) [OF c, of m]
        by (simp only: json_text.simps append.simps append_assoc list.distinct simp_thms) simp
    qed
  qed simp
next
  case (JObj ms)
  then have ms: "\<forall>kv \<in> set ms. json_ok (snd kv) \<and> reads (snd kv)" by (auto simp: list_all_iff snds.simps)
  show ?case
  proof (rule reads_intro)
    fix m r assume "length (json_text (JObj ms)) \<le> Suc m"
    then have n: "length (commas (map member_text ms)) < m" by simp
    show "read_value (Suc m) (json_text (JObj ms) @ r) = Some (JObj ms, r)"
    proof (cases ms)
      case Nil
      then show ?thesis by (simp add: skip_stop)
    next
      case (Cons kv ks)
      have "\<exists>r'. skip_space (commas (map member_text ms) @ CHR ''}'' # r) = CHR 0x22 # r'"
        by (cases ks) (auto simp: Cons json_quote_def skip_stop commas_Cons)
      then obtain r' where c: "skip_space (commas (map member_text ms) @ CHR ''}'' # r) = CHR 0x22 # r'" ..
      show ?thesis
        using read_members_text [OF ms _ n, of r] \<open>ms = kv # ks\<close> read_value_open(2) [OF c, of m]
        by (simp only: json_text.simps append.simps append_assoc list.distinct simp_thms) simp
    qed
  qed simp
qed (rule reads_intro, simp_all add: skip_space_def read_word_def)

interpretation json_fmt: serde_laws serde_ref
proof (unfold_locales, goal_cases)
  case (1 v)
  have "read_value (length (json_text v)) (json_text v) = Some (v, [])"
    using read_json_text [OF 1, unfolded reads_def, rule_format, of "length (json_text v)" "[]"] by (simp add: stops_def)
  then show ?case by (simp add: serde_ref_def json_read_def skip_space_def)
qed (simp_all add: serde_ref_def json_quote_plain)

text \<open>\<^verbatim>\<open>serde_json::from_str\<close> at the types \<^verbatim>\<open>Vec<String>\<close> and \<^verbatim>\<open>Vec<(String, String)>\<close>.\<close>

definition collect_json :: "(json \<Rightarrow> 'a option) \<Rightarrow> string \<Rightarrow> string + 'a list" where
  "collect_json f s =
     (case json_read s of
        Inr (JArr vs) \<Rightarrow> (if None \<in> set (map f vs) then Inl ''invalid type'' else Inr (map (the \<circ> f) vs))
      | Inr _ \<Rightarrow> Inl ''invalid type: expected a sequence''
      | Inl e \<Rightarrow> Inl e)"

definition as_pair :: "json \<Rightarrow> (string \<times> string) option" where
  "as_pair v = (case v of JArr [JStr a, JStr b] \<Rightarrow> Some (a, b) | _ \<Rightarrow> None)"

lemma collect_json_print:
  assumes "\<And>x. f (g x) = Some x" and "\<And>x. json_ok (g x)"
  shows "collect_json f (print_json serde_ref (JArr (map g xs))) = Inr xs"
proof -
  have "json_read (print_json serde_ref (JArr (map g xs))) = Inr (JArr (map g xs))"
    using json_fmt.parse_print [of "JArr (map g xs)"] assms(2) by (simp add: serde_ref_def list_all_iff)
  then show ?thesis by (auto simp: collect_json_def assms(1) o_def)
qed

end
