(* ===== verification/Client_Tests.thy ===== *)
theory Client_Tests
  imports Ws_Client Json_Reference
begin

text \<open>
  The unit tests of the client crate (\<^verbatim>\<open>src/std/rpc/ws_client/mod.rs\<close> and \<^verbatim>\<open>src/utils.rs\<close>), as functions of the JSON
  and the hex library, and their evaluation on \<open>serde_ref\<close> and \<open>hex_ref\<close>: the model, run on the texts the
  authors of the crate chose, gives the values they expect.
\<close>

section \<open>Responses and statuses\<close>

definition assert_extrinsic_err :: "(rpc_client_error, 'a) res \<Rightarrow> string \<Rightarrow> bool" where
  "assert_extrinsic_err result msg = (case result of Err (Extrinsic m) \<Rightarrow> m = msg | _ \<Rightarrow> False)"

definition result_from_json_response_works :: "serde \<Rightarrow> bool" where
  "result_from_json_response_works J \<longleftrightarrow>
     result_from_json_response J (''{\"jsonrpc\":\"2.0\",\"result\":\"0xe7640c3e8ba8d10ed7fed07118edb0bfe2d765d3ea2f3a5f6cf781ae3237788f\",\"id\":\"3\"}'') = Ok (''0xe7640c3e8ba8d10ed7fed07118edb0bfe2d765d3ea2f3a5f6cf781ae3237788f'')"

definition result_from_json_response_errs_on_error_response :: "serde \<Rightarrow> bool" where
  "result_from_json_response_errs_on_error_response J \<longleftrightarrow>
     (let err_msg = ''extrinsic error code '' @ show_int (-32602) @ '': '' @
            ''Invalid params: invalid hex character: h, at 284.'' @ '': '' @ [];
          msg = ''{\"jsonrpc\":\"2.0\",\"error\":{\"code\":-32602,\"message\":\"Invalid params: invalid hex character: h, at 284.\"},\"id\":\"3\"}''
      in assert_extrinsic_err (result_from_json_response J msg) err_msg)"

definition extrinsic_status_parsed_correctly :: "serde \<Rightarrow> bool" where
  "extrinsic_status_parsed_correctly J \<longleftrightarrow>
     parse_status J (''{\"jsonrpc\":\"2.0\",\"result\":7185,\"id\":\"3\"}'') = Ok (Unknown, None) \<and>
     parse_status J (''{\"jsonrpc\":\"2.0\",\"method\":\"author_extrinsicUpdate\",\"params\":{\"result\":\"ready\",\"subscription\":7185}}'') = Ok (Ready, None) \<and>
     parse_status J (''{\"jsonrpc\":\"2.0\",\"method\":\"author_extrinsicUpdate\",\"params\":{\"result\":{\"broadcast\":[\"QmfSF4VYWNqNf5KYHpDEdY8Rt1nPUgSkMweDkYzhSWirGY\",\"Qmchhx9SRFeNvqjUK4ZVQ9jH4zhARFkutf9KhbbAmZWBLx\",\"QmQJAqr98EF1X3YfjVKNwQUG9RryqX4Hv33RqGChbz3Ncg\"]},\"subscription\":232}}'') = Ok (Broadcast, Some (''[\"QmfSF4VYWNqNf5KYHpDEdY8Rt1nPUgSkMweDkYzhSWirGY\",\"Qmchhx9SRFeNvqjUK4ZVQ9jH4zhARFkutf9KhbbAmZWBLx\",\"QmQJAqr98EF1X3YfjVKNwQUG9RryqX4Hv33RqGChbz3Ncg\"]'')) \<and>
     parse_status J (''{\"jsonrpc\":\"2.0\",\"method\":\"author_extrinsicUpdate\",\"params\":{\"result\":{\"inBlock\":\"0x3104d362365ff5ddb61845e1de441b56c6722e94c1aee362f8aa8ba75bd7a3aa\"},\"subscription\":232}}'') = Ok (InBlock, Some (''\"0x3104d362365ff5ddb61845e1de441b56c6722e94c1aee362f8aa8ba75bd7a3aa\"'')) \<and>
     parse_status J (''{\"jsonrpc\":\"2.0\",\"method\":\"author_extrinsicUpdate\",\"params\":{\"result\":{\"finalized\":\"0x934385b11c483498e2b5bca64c2e8ef76ad6c74d3372a05595d3a50caf758d52\"},\"subscription\":7185}}'') = Ok (Finalized, Some (''\"0x934385b11c483498e2b5bca64c2e8ef76ad6c74d3372a05595d3a50caf758d52\"'')) \<and>
     parse_status J (''{\"jsonrpc\":\"2.0\",\"method\":\"author_extrinsicUpdate\",\"params\":{\"result\":\"future\",\"subscription\":2}}'') = Ok (Future, None) \<and>
     assert_extrinsic_err (parse_status J (''{\"jsonrpc\":\"2.0\",\"error\":{\"code\":-32700,\"message\":\"Parse error\"},\"id\":null}'')) (''extrinsic error code -32700: Parse error: '') \<and>
     assert_extrinsic_err (parse_status J (''{\"jsonrpc\":\"2.0\",\"error\":{\"code\":1010,\"message\":\"Invalid Transaction\",\"data\":\"Bad Signature\"},\"id\":\"4\"}'')) (''extrinsic error code 1010: Invalid Transaction: Bad Signature'') \<and>
     assert_extrinsic_err (parse_status J (''{\"jsonrpc\":\"2.0\",\"error\":{\"code\":1001,\"message\":\"Extrinsic has invalid format.\"},\"id\":\"0\"}'')) (''extrinsic error code 1001: Extrinsic has invalid format.: '') \<and>
     assert_extrinsic_err (parse_status J (''{\"jsonrpc\":\"2.0\",\"error\":{\"code\":1002,\"message\":\"Verification Error: Execution(Wasmi(Trap(Trap { kind: Unreachable })))\",\"data\":\"RuntimeApi('' @ [CHR 0x5C] @ ''\"Execution(Wasmi(Trap(Trap { kind: Unreachable })))'' @ [CHR 0x5C] @ ''\")\"},\"id\":\"3\"}'')) (''extrinsic error code 1002: Verification Error: Execution(Wasmi(Trap(Trap { kind: Unreachable }))): RuntimeApi(\"Execution(Wasmi(Trap(Trap { kind: Unreachable })))\")'')"

text \<open>The error responses among them are read as these values, the others as these statuses.\<close>

lemma error_response_0: "parse_json serde_ref (''{\"jsonrpc\":\"2.0\",\"error\":{\"code\":-32602,\"message\":\"Invalid params: invalid hex character: h, at 284.\"},\"id\":\"3\"}'') =
    Inr (JObj [(''jsonrpc'', JStr (''2.0'')), (''error'', JObj [(''code'', JInt (-32602)), (''message'', JStr (''Invalid params: invalid hex character: h, at 284.''))]), (''id'', JStr (''3''))])"
  by code_simp

lemma error_response_1: "parse_json serde_ref (''{\"jsonrpc\":\"2.0\",\"error\":{\"code\":-32700,\"message\":\"Parse error\"},\"id\":null}'') =
    Inr (JObj [(''jsonrpc'', JStr (''2.0'')), (''error'', JObj [(''code'', JInt (-32700)), (''message'', JStr (''Parse error''))]), (''id'', JNull)])"
  by code_simp

lemma error_response_2: "parse_json serde_ref (''{\"jsonrpc\":\"2.0\",\"error\":{\"code\":1010,\"message\":\"Invalid Transaction\",\"data\":\"Bad Signature\"},\"id\":\"4\"}'') =
    Inr (JObj [(''jsonrpc'', JStr (''2.0'')), (''error'', JObj [(''code'', JInt (1010)), (''message'', JStr (''Invalid Transaction'')), (''data'', JStr (''Bad Signature''))]), (''id'', JStr (''4''))])"
  by code_simp

lemma error_response_3: "parse_json serde_ref (''{\"jsonrpc\":\"2.0\",\"error\":{\"code\":1001,\"message\":\"Extrinsic has invalid format.\"},\"id\":\"0\"}'') =
    Inr (JObj [(''jsonrpc'', JStr (''2.0'')), (''error'', JObj [(''code'', JInt (1001)), (''message'', JStr (''Extrinsic has invalid format.''))]), (''id'', JStr (''0''))])"
  by code_simp

lemma error_response_4: "parse_json serde_ref (''{\"jsonrpc\":\"2.0\",\"error\":{\"code\":1002,\"message\":\"Verification Error: Execution(Wasmi(Trap(Trap { kind: Unreachable })))\",\"data\":\"RuntimeApi('' @ [CHR 0x5C] @ ''\"Execution(Wasmi(Trap(Trap { kind: Unreachable })))'' @ [CHR 0x5C] @ ''\")\"},\"id\":\"3\"}'') =
    Inr (JObj [(''jsonrpc'', JStr (''2.0'')), (''error'', JObj [(''code'', JInt (1002)), (''message'', JStr (''Verification Error: Execution(Wasmi(Trap(Trap { kind: Unreachable })))'')), (''data'', JStr (''RuntimeApi(\"Execution(Wasmi(Trap(Trap { kind: Unreachable })))\")''))]), (''id'', JStr (''3''))])"
  by code_simp

lemma status_0: "parse_status serde_ref (''{\"jsonrpc\":\"2.0\",\"result\":7185,\"id\":\"3\"}'') = Ok (Unknown, None)"
  by code_simp

lemma status_1: "parse_status serde_ref (''{\"jsonrpc\":\"2.0\",\"method\":\"author_extrinsicUpdate\",\"params\":{\"result\":\"ready\",\"subscription\":7185}}'') = Ok (Ready, None)"
  by code_simp

lemma status_2: "parse_status serde_ref (''{\"jsonrpc\":\"2.0\",\"method\":\"author_extrinsicUpdate\",\"params\":{\"result\":{\"broadcast\":[\"QmfSF4VYWNqNf5KYHpDEdY8Rt1nPUgSkMweDkYzhSWirGY\",\"Qmchhx9SRFeNvqjUK4ZVQ9jH4zhARFkutf9KhbbAmZWBLx\",\"QmQJAqr98EF1X3YfjVKNwQUG9RryqX4Hv33RqGChbz3Ncg\"]},\"subscription\":232}}'') = Ok (Broadcast, Some (''[\"QmfSF4VYWNqNf5KYHpDEdY8Rt1nPUgSkMweDkYzhSWirGY\",\"Qmchhx9SRFeNvqjUK4ZVQ9jH4zhARFkutf9KhbbAmZWBLx\",\"QmQJAqr98EF1X3YfjVKNwQUG9RryqX4Hv33RqGChbz3Ncg\"]''))"
  by code_simp

lemma status_3: "parse_status serde_ref (''{\"jsonrpc\":\"2.0\",\"method\":\"author_extrinsicUpdate\",\"params\":{\"result\":{\"inBlock\":\"0x3104d362365ff5ddb61845e1de441b56c6722e94c1aee362f8aa8ba75bd7a3aa\"},\"subscription\":232}}'') = Ok (InBlock, Some (''\"0x3104d362365ff5ddb61845e1de441b56c6722e94c1aee362f8aa8ba75bd7a3aa\"''))"
  by code_simp

lemma status_4: "parse_status serde_ref (''{\"jsonrpc\":\"2.0\",\"method\":\"author_extrinsicUpdate\",\"params\":{\"result\":{\"finalized\":\"0x934385b11c483498e2b5bca64c2e8ef76ad6c74d3372a05595d3a50caf758d52\"},\"subscription\":7185}}'') = Ok (Finalized, Some (''\"0x934385b11c483498e2b5bca64c2e8ef76ad6c74d3372a05595d3a50caf758d52\"''))"
  by code_simp

lemma status_5: "parse_status serde_ref (''{\"jsonrpc\":\"2.0\",\"method\":\"author_extrinsicUpdate\",\"params\":{\"result\":\"future\",\"subscription\":2}}'') = Ok (Future, None)"
  by code_simp

lemmas error_texts = fail_with_def into_extrinsic_err_def assert_extrinsic_err_def as_object_def as_str_def as_i64_def
  member_def show_int_def show_nat.simps

lemma result_tests_pass:
  "result_from_json_response_works serde_ref" "result_from_json_response_errs_on_error_response serde_ref"
proof -
  show "result_from_json_response_works serde_ref" by code_simp
  show "result_from_json_response_errs_on_error_response serde_ref"
    unfolding result_from_json_response_errs_on_error_response_def result_from_json_response_def Let_def error_response_0
    by (simp add: error_texts)
qed

lemma status_tests_pass: "extrinsic_status_parsed_correctly serde_ref"
proof -
  note errors = parse_status_def [of serde_ref] error_response_1 error_response_2 error_response_3 error_response_4
  show ?thesis
    unfolding extrinsic_status_parsed_correctly_def status_0 status_1 status_2 status_3 status_4 status_5
    by (simp only: errors) (simp add: error_texts)
qed


section \<open>Hex strings\<close>

definition test_hextstr_to_vec :: "hex_crate \<Rightarrow> bool" where
  "test_hextstr_to_vec HX \<longleftrightarrow>
     vec_from_hex HX ''0x01020a'' = Inr [1, 2, 10] \<and>
     vec_from_hex HX ''null'' = Inl (InvalidHexCharacter (CHR ''n'') 0) \<and>
     vec_from_hex HX ''0x0q'' = Inl (InvalidHexCharacter (CHR ''q'') 1)"

definition test_hextstr_to_hash :: "hex_crate \<Rightarrow> bool" where
  "test_hextstr_to_hash HX \<longleftrightarrow>
     hash_from_hex HX ''0x0000000000000000000000000000000000000000000000000000000000000000'' = Inr (replicate 32 0) \<and>
     hash_from_hex HX ''0x010000000000000000'' = Inl InvalidStringLength \<and>
     hash_from_hex HX ''0x0q'' = Inl (InvalidHexCharacter (CHR ''q'') 1)"

lemma hex_tests_pass: "test_hextstr_to_vec hex_ref" "test_hextstr_to_hash hex_ref"
  by code_simp+

end
