(* ===== verification/Api.thy ===== *)
theory Api
  imports Ws_Client Compose
begin

text \<open>
  Model of \<^verbatim>\<open>src/std/mod.rs\<close>, the type \<^verbatim>\<open>Api\<close>, and of the macro \<^verbatim>\<open>compose_extrinsic!\<close>. \<^verbatim>\<open>Api\<close> is generic
  over the trait \<^verbatim>\<open>RpcClient\<close>, which is the record \<open>client\<close> of its two methods here; \<open>ws_client\<close> is
  the web socket client of \<open>Ws_Client\<close> as such a record. What other crates do with the answers
  is in the record \<open>api_env\<close>: the hex, JSON and hash functions, the codec of the prefixed
  metadata, the codec of an account id, and the deserializers. A deserializer of a type that only
  passes through (headers, blocks, proofs, payment info) is an argument of the getter.
\<close>

section \<open>State and parameters\<close>

record client =
  cl_get_request :: "json \<Rightarrow> (api_error, string) res"
  cl_send_extrinsic :: "string \<Rightarrow> xt_status \<Rightarrow> (api_error, hash option) res"

definition ws_client :: "serde \<Rightarrow> hex_crate \<Rightarrow> ws_env \<Rightarrow> client" where
  "ws_client J HX env = \<lparr>cl_get_request = get_request J env, cl_send_extrinsic = send_extrinsic J HX env\<rparr>"

record runtime_version =
  rv_spec_version :: u32
  rv_transaction_version :: u32

record api_env =
  e_serde :: serde
  e_hex :: hex_crate
  e_hashers :: hashers
  e_scale :: scale
  e_meta_reserved :: u32
  e_metadata :: "runtime_metadata_prefixed codec"
  e_account_id :: "bytes codec"
  de_runtime_version :: "string \<Rightarrow> string + runtime_version"
  de_strings :: "string \<Rightarrow> string + string list"
  de_pairs :: "string \<Rightarrow> string + (string \<times> string) list"

record ('pub, 'psig) api =
  api_signer :: "('pub, 'psig) pair option"
  api_genesis_hash :: hash
  api_metadata :: metadata
  api_runtime_version :: runtime_version
  api_client :: client

type_synonym 'a api_result = "(api_error, 'a) res"

section \<open>Requests\<close>

definition get_request_opt :: "client \<Rightarrow> json \<Rightarrow> string option api_result" where
  "get_request_opt cl jsonreq =
     and_then (cl_get_request cl jsonreq) (\<lambda>str.
     if str = ''null'' then Ok None else Ok (Some str))"

definition bytes_of_hex :: "hex_crate \<Rightarrow> string \<Rightarrow> bytes api_result" where
  "bytes_of_hex HX s = map_err InvalidHexString (lift (vec_from_hex HX s))"

definition get_genesis_hash_of :: "api_env \<Rightarrow> client \<Rightarrow> hash api_result" where
  "get_genesis_hash_of E cl =
     (let jsonreq = chain_get_genesis_hash in
      and_then (get_request_opt cl jsonreq) (\<lambda>genesis.
      case genesis of Some g \<Rightarrow> hash_of_hex (e_hex E) g | None \<Rightarrow> Err Genesis))"

definition get_runtime_version_of :: "api_env \<Rightarrow> client \<Rightarrow> runtime_version api_result" where
  "get_runtime_version_of E cl =
     (let jsonreq = state_get_runtime_version in
      and_then (get_request_opt cl jsonreq) (\<lambda>version.
      case version of
        Some v \<Rightarrow> map_err Deserializing (lift (de_runtime_version E v))
      | None \<Rightarrow> Err RuntimeVersion))"

definition get_metadata_of :: "api_env \<Rightarrow> client \<Rightarrow> runtime_metadata_prefixed api_result" where
  "get_metadata_of E cl =
     (let jsonreq = state_get_metadata in
      and_then (get_request_opt cl jsonreq) (\<lambda>meta.
      case meta of
        None \<Rightarrow> Err MetadataFetch
      | Some m \<Rightarrow>
          and_then (bytes_of_hex (e_hex E) m) (\<lambda>metadata.
          map_ok fst (map_err StorageValueDecode (lift (decode (e_metadata E) metadata))))))"

section \<open>Construction\<close>

definition api_new :: "api_env \<Rightarrow> client \<Rightarrow> ('pub, 'psig) api api_result" where
  "api_new E cl =
     and_then (get_genesis_hash_of E cl) (\<lambda>genesis_hash.
     and_then (get_metadata_of E cl) (\<lambda>prefixed.
     and_then (map_err ApiInvalidMetadata (try_from (e_meta_reserved E) prefixed)) (\<lambda>metadata.
     and_then (get_runtime_version_of E cl) (\<lambda>runtime_version.
     Ok \<lparr>api_signer = None, api_genesis_hash = genesis_hash, api_metadata = metadata,
         api_runtime_version = runtime_version, api_client = cl\<rparr>))))"

definition set_signer :: "('pub, 'psig) pair \<Rightarrow> ('pub, 'psig) api \<Rightarrow> ('pub, 'psig) api" where
  "set_signer signer self = self\<lparr>api_signer := Some signer\<rparr>"

definition default_with_url :: "api_env \<Rightarrow> ws_env \<Rightarrow> ('pub, 'psig) api api_result" where
  "default_with_url E env = (let cl = ws_client (e_serde E) (e_hex E) env in api_new E cl)"

section \<open>Getters\<close>

definition get_metadata :: "api_env \<Rightarrow> ('pub, 'psig) api \<Rightarrow> runtime_metadata_prefixed api_result" where
  "get_metadata E self = get_metadata_of E (api_client self)"

definition get_spec_version :: "api_env \<Rightarrow> ('pub, 'psig) api \<Rightarrow> u32 api_result" where
  "get_spec_version E self = map_ok rv_spec_version (get_runtime_version_of E (api_client self))"

definition get_genesis_hash :: "api_env \<Rightarrow> ('pub, 'psig) api \<Rightarrow> hash api_result" where
  "get_genesis_hash E self = get_genesis_hash_of E (api_client self)"

definition api_get_request :: "('pub, 'psig) api \<Rightarrow> json \<Rightarrow> string option api_result" where
  "api_get_request self jsonreq = get_request_opt (api_client self) jsonreq"

text \<open>\<^verbatim>\<open>match h { Some(x) => Ok(Some(f(x)?)), None => Ok(None) }\<close>.\<close>

definition some_with :: "('a \<Rightarrow> 'b api_result) \<Rightarrow> 'a option \<Rightarrow> 'b option api_result" where
  "some_with f x = (case x of Some y \<Rightarrow> and_then (f y) (\<lambda>z. Ok (Some z)) | None \<Rightarrow> Ok None)"

definition de_json :: "(string \<Rightarrow> string + 'a) \<Rightarrow> string \<Rightarrow> 'a api_result" where
  "de_json de s = map_err Deserializing (lift (de s))"

definition get_finalized_head :: "api_env \<Rightarrow> ('pub, 'psig) api \<Rightarrow> hash option api_result" where
  "get_finalized_head E self =
     and_then (api_get_request self chain_get_finalized_head) (some_with (hash_of_hex (e_hex E)))"

definition get_header ::
    "api_env \<Rightarrow> (string \<Rightarrow> string + 'h) \<Rightarrow> ('pub, 'psig) api \<Rightarrow> hash option \<Rightarrow> 'h option api_result" where
  "get_header E de self h =
     and_then (api_get_request self (chain_get_header (e_serde E) h)) (some_with (de_json de))"

definition get_block_hash :: "api_env \<Rightarrow> ('pub, 'psig) api \<Rightarrow> u32 option \<Rightarrow> hash option api_result" where
  "get_block_hash E self number =
     and_then (api_get_request self (chain_get_block_hash number)) (some_with (hash_of_hex (e_hex E)))"

text \<open>\<^verbatim>\<open>SignedBlock\<close> is used through its field \<^verbatim>\<open>block\<close>.\<close>

record ('block, 'just) signed_block =
  sb_block :: 'block
  sb_justifications :: 'just

definition get_signed_block ::
    "api_env \<Rightarrow> (string \<Rightarrow> string + ('b, 'j) signed_block) \<Rightarrow> ('pub, 'psig) api \<Rightarrow> hash option \<Rightarrow>
       ('b, 'j) signed_block option api_result" where
  "get_signed_block E de self h =
     and_then (api_get_request self (chain_get_block (e_serde E) h)) (some_with (de_json de))"

definition get_signed_block_by_num ::
    "api_env \<Rightarrow> (string \<Rightarrow> string + ('b, 'j) signed_block) \<Rightarrow> ('pub, 'psig) api \<Rightarrow> u32 option \<Rightarrow>
       ('b, 'j) signed_block option api_result" where
  "get_signed_block_by_num E de self number =
     and_then (get_block_hash E self number) (\<lambda>h. get_signed_block E de self h)"

definition get_block ::
    "api_env \<Rightarrow> (string \<Rightarrow> string + ('b, 'j) signed_block) \<Rightarrow> ('pub, 'psig) api \<Rightarrow> hash option \<Rightarrow>
       'b option api_result" where
  "get_block E de self h = map_ok (map_option sb_block) (get_signed_block E de self h)"

definition get_block_by_num ::
    "api_env \<Rightarrow> (string \<Rightarrow> string + ('b, 'j) signed_block) \<Rightarrow> ('pub, 'psig) api \<Rightarrow> u32 option \<Rightarrow>
       'b option api_result" where
  "get_block_by_num E de self number = map_ok (map_option sb_block) (get_signed_block_by_num E de self number)"

section \<open>Storage\<close>

definition get_opaque_storage_by_key_hash ::
    "api_env \<Rightarrow> ('pub, 'psig) api \<Rightarrow> storage_key \<Rightarrow> hash option \<Rightarrow> bytes option api_result" where
  "get_opaque_storage_by_key_hash E self key at_block =
     and_then (api_get_request self (state_get_storage (e_serde E) key at_block)) (some_with (bytes_of_hex (e_hex E)))"

definition get_storage_by_key_hash ::
    "api_env \<Rightarrow> 'v codec \<Rightarrow> ('pub, 'psig) api \<Rightarrow> storage_key \<Rightarrow> hash option \<Rightarrow> 'v option api_result" where
  "get_storage_by_key_hash E V self key at_block =
     and_then (get_opaque_storage_by_key_hash E self key at_block)
       (some_with (\<lambda>storage. map_ok fst (map_err StorageValueDecode (lift (decode V storage)))))"

definition get_storage_value ::
    "api_env \<Rightarrow> 'v codec \<Rightarrow> ('pub, 'psig) api \<Rightarrow> string \<Rightarrow> string \<Rightarrow> hash option \<Rightarrow> 'v option api_result" where
  "get_storage_value E V self storage_prefix storage_key_name at_block =
     and_then (map_err ApiMetadata (storage_value_key (e_hashers E) (api_metadata self) storage_prefix storage_key_name))
       (\<lambda>storagekey. get_storage_by_key_hash E V self storagekey at_block)"

definition get_storage_map ::
    "api_env \<Rightarrow> 'k codec \<Rightarrow> 'v codec \<Rightarrow> ('pub, 'psig) api \<Rightarrow> string \<Rightarrow> string \<Rightarrow> 'k \<Rightarrow> hash option \<Rightarrow>
       'v option api_result" where
  "get_storage_map E K V self storage_prefix storage_key_name map_key at_block =
     and_then (map_err ApiMetadata
         (storage_map_key (e_hashers E) K (api_metadata self) storage_prefix storage_key_name map_key))
       (\<lambda>storagekey. get_storage_by_key_hash E V self storagekey at_block)"

definition get_storage_map_key_prefix ::
    "api_env \<Rightarrow> ('pub, 'psig) api \<Rightarrow> string \<Rightarrow> string \<Rightarrow> storage_key api_result" where
  "get_storage_map_key_prefix E self storage_prefix storage_key_name =
     map_err ApiMetadata (storage_map_key_prefix (e_hashers E) (api_metadata self) storage_prefix storage_key_name)"

definition get_storage_double_map_partial_prefix ::
    "api_env \<Rightarrow> 'k codec \<Rightarrow> ('pub, 'psig) api \<Rightarrow> string \<Rightarrow> string \<Rightarrow> 'k \<Rightarrow> storage_key api_result" where
  "get_storage_double_map_partial_prefix E K self storage_prefix storage_key_name first =
     map_err ApiMetadata
       (storage_double_map_partial_key (e_hashers E) K (api_metadata self) storage_prefix storage_key_name first)"

definition get_storage_double_map ::
    "api_env \<Rightarrow> 'k codec \<Rightarrow> 'q codec \<Rightarrow> 'v codec \<Rightarrow> ('pub, 'psig) api \<Rightarrow> string \<Rightarrow> string \<Rightarrow> 'k \<Rightarrow> 'q \<Rightarrow> hash option \<Rightarrow>
       'v option api_result" where
  "get_storage_double_map E K Q V self storage_prefix storage_key_name first second at_block =
     and_then (map_err ApiMetadata
         (storage_double_map_key (e_hashers E) K Q (api_metadata self) storage_prefix storage_key_name first second))
       (\<lambda>storagekey. get_storage_by_key_hash E V self storagekey at_block)"

definition get_opaque_storage_pairs_by_key_hash ::
    "api_env \<Rightarrow> ('pub, 'psig) api \<Rightarrow> storage_key \<Rightarrow> hash option \<Rightarrow> (bytes \<times> bytes) list option api_result" where
  "get_opaque_storage_pairs_by_key_hash E self key at_block =
     and_then (api_get_request self (state_get_pairs (e_serde E) key at_block)) (some_with (\<lambda>storage.
       and_then (de_json (de_pairs E) storage) (\<lambda>deser.
       for_each (\<lambda>(k, v) kv.
         and_then (bytes_of_hex (e_hex E) k) (\<lambda>k.
         and_then (bytes_of_hex (e_hex E) v) (\<lambda>v. Ok (kv @ [(k, v)])))) deser [])))"

definition get_keys :: "api_env \<Rightarrow> ('pub, 'psig) api \<Rightarrow> storage_key \<Rightarrow> hash option \<Rightarrow> bytes list option api_result" where
  "get_keys E self key at_block =
     and_then (api_get_request self (state_get_keys (e_serde E) key at_block)) (some_with (\<lambda>ks.
       and_then (de_json (de_strings E) ks) (\<lambda>deser.
       for_each (\<lambda>k ks. and_then (bytes_of_hex (e_hex E) k) (\<lambda>k. Ok (ks @ [k]))) deser [])))"

text \<open>\<^verbatim>\<open>ReadProof<Hash>\<close>; its reader is derived by serde.\<close>

record read_proof =
  rp_at :: hash
  rp_proof :: "bytes list"

definition get_storage_proof_by_keys ::
    "api_env \<Rightarrow> (string \<Rightarrow> string + read_proof) \<Rightarrow> ('pub, 'psig) api \<Rightarrow> storage_key list \<Rightarrow> hash option \<Rightarrow>
       read_proof option api_result" where
  "get_storage_proof_by_keys E de self ks at_block =
     and_then (api_get_request self (state_get_read_proof (e_serde E) ks at_block)) (some_with (de_json de))"

definition get_storage_value_proof ::
    "api_env \<Rightarrow> (string \<Rightarrow> string + read_proof) \<Rightarrow> ('pub, 'psig) api \<Rightarrow> string \<Rightarrow> string \<Rightarrow> hash option \<Rightarrow>
       read_proof option api_result" where
  "get_storage_value_proof E de self storage_prefix storage_key_name at_block =
     and_then (map_err ApiMetadata (storage_value_key (e_hashers E) (api_metadata self) storage_prefix storage_key_name))
       (\<lambda>storagekey. get_storage_proof_by_keys E de self [storagekey] at_block)"

definition get_storage_map_proof ::
    "api_env \<Rightarrow> 'k codec \<Rightarrow> (string \<Rightarrow> string + read_proof) \<Rightarrow> ('pub, 'psig) api \<Rightarrow> string \<Rightarrow> string \<Rightarrow> 'k \<Rightarrow> hash option \<Rightarrow>
       read_proof option api_result" where
  "get_storage_map_proof E K de self storage_prefix storage_key_name map_key at_block =
     and_then (map_err ApiMetadata
         (storage_map_key (e_hashers E) K (api_metadata self) storage_prefix storage_key_name map_key))
       (\<lambda>storagekey. get_storage_proof_by_keys E de self [storagekey] at_block)"

definition get_storage_double_map_proof ::
    "api_env \<Rightarrow> 'k codec \<Rightarrow> 'q codec \<Rightarrow> (string \<Rightarrow> string + read_proof) \<Rightarrow> ('pub, 'psig) api \<Rightarrow> string \<Rightarrow> string \<Rightarrow> 'k \<Rightarrow> 'q \<Rightarrow>
       hash option \<Rightarrow> read_proof option api_result" where
  "get_storage_double_map_proof E K Q de self storage_prefix storage_key_name first second at_block =
     and_then (map_err ApiMetadata
         (storage_double_map_key (e_hashers E) K Q (api_metadata self) storage_prefix storage_key_name first second))
       (\<lambda>storagekey. get_storage_proof_by_keys E de self [storagekey] at_block)"

section \<open>Accounts, constants and fees\<close>

type_synonym account = "(u32, u128 account_data) account_info"

definition account_codec :: "scale \<Rightarrow> account codec" where
  "account_codec S = account_info_codec S (c_u32 S) (account_data_codec (c_u128 S))"

definition get_account_info :: "api_env \<Rightarrow> ('pub, 'psig) api \<Rightarrow> bytes \<Rightarrow> account option api_result" where
  "get_account_info E self address =
     and_then (map_err ApiMetadata
         (storage_map_key (e_hashers E) (e_account_id E) (api_metadata self) ''System'' ''Account'' address))
       (\<lambda>storagekey. get_storage_by_key_hash E (account_codec (e_scale E)) self storagekey None)"

definition get_account_data ::
    "api_env \<Rightarrow> ('pub, 'psig) api \<Rightarrow> bytes \<Rightarrow> u128 account_data option api_result" where
  "get_account_data E self address = map_ok (map_option ai_data) (get_account_info E self address)"

definition signer_account :: "('pub, 'psig, bytes, 'addr, 'sig) conversions \<Rightarrow> ('pub, 'psig) api \<Rightarrow> bytes option" where
  "signer_account V self = map_option (\<lambda>pair. into_account V (pair_public pair)) (api_signer self)"

definition get_nonce ::
    "api_env \<Rightarrow> ('pub, 'psig, bytes, 'addr, 'sig) conversions \<Rightarrow> ('pub, 'psig) api \<Rightarrow> u32 api_result" where
  "get_nonce E V self =
     (if api_signer self = None then Err NoSigner
      else and_then (unwrap (signer_account V self)) (\<lambda>account.
        map_ok (\<lambda>acc_opt. case acc_opt of None \<Rightarrow> 0 | Some acc \<Rightarrow> ai_nonce acc) (get_account_info E self account)))"

definition get_constant :: "'c codec \<Rightarrow> ('pub, 'psig) api \<Rightarrow> string \<Rightarrow> string \<Rightarrow> 'c api_result" where
  "get_constant C self pallet_name constant_name =
     and_then (map_err ApiMetadata (pallet (api_metadata self) pallet_name)) (\<lambda>p.
     and_then (ok_or (hm_get (pm_constants p) constant_name) (ApiMetadata (ConstantNotFound constant_name))) (\<lambda>c.
     map_ok fst (map_err StorageValueDecode (lift (decode C (k_value c))))))"

definition get_existential_deposit :: "api_env \<Rightarrow> ('pub, 'psig) api \<Rightarrow> u128 api_result" where
  "get_existential_deposit E self = get_constant (c_u128 (e_scale E)) self ''Balances'' ''ExistentialDeposit''"

record 'n inclusion_fee =
  if_base_fee :: 'n
  if_len_fee :: 'n
  if_adjusted_weight_fee :: 'n

record 'n fee_details =
  fd_inclusion_fee :: "'n inclusion_fee option"
  fd_tip :: 'n

text \<open>\<open>try_into\<close> is the conversion of a \<^verbatim>\<open>NumberOrHex\<close> to a balance of \<^verbatim>\<open>sp_rpc\<close>.\<close>

definition inclusion_fee_with_balance ::
    "('n \<Rightarrow> u128 option) \<Rightarrow> 'n inclusion_fee \<Rightarrow> u128 inclusion_fee api_result" where
  "inclusion_fee_with_balance try_into fee =
     and_then (ok_or (try_into (if_base_fee fee)) TryFromIntError) (\<lambda>base_fee.
     and_then (ok_or (try_into (if_len_fee fee)) TryFromIntError) (\<lambda>len_fee.
     and_then (ok_or (try_into (if_adjusted_weight_fee fee)) TryFromIntError) (\<lambda>adjusted_weight_fee.
     Ok \<lparr>if_base_fee = base_fee, if_len_fee = len_fee, if_adjusted_weight_fee = adjusted_weight_fee\<rparr>)))"

definition convert_fee_details :: "('n \<Rightarrow> u128 option) \<Rightarrow> 'n fee_details \<Rightarrow> u128 fee_details api_result" where
  "convert_fee_details try_into details =
     and_then (some_with (inclusion_fee_with_balance try_into) (fd_inclusion_fee details)) (\<lambda>inclusion_fee.
     and_then (ok_or (try_into (fd_tip details)) TryFromIntError) (\<lambda>tip.
     Ok \<lparr>fd_inclusion_fee = inclusion_fee, fd_tip = tip\<rparr>))"

definition get_fee_details ::
    "api_env \<Rightarrow> ('n \<Rightarrow> u128 option) \<Rightarrow> (string \<Rightarrow> string + 'n fee_details) \<Rightarrow> ('pub, 'psig) api \<Rightarrow> string \<Rightarrow>
       hash option \<Rightarrow> u128 fee_details option api_result" where
  "get_fee_details E try_into de self xthex_prefixed at_block =
     and_then (api_get_request self (payment_query_fee_details (e_serde E) xthex_prefixed at_block))
       (some_with (\<lambda>details. and_then (de_json de details) (convert_fee_details try_into)))"

definition get_payment_info ::
    "api_env \<Rightarrow> (string \<Rightarrow> string + 'info) \<Rightarrow> ('pub, 'psig) api \<Rightarrow> string \<Rightarrow> hash option \<Rightarrow> 'info option api_result" where
  "get_payment_info E de self xthex_prefixed at_block =
     and_then (api_get_request self (payment_query_info (e_serde E) xthex_prefixed at_block)) (some_with (de_json de))"

definition api_send_extrinsic :: "('pub, 'psig) api \<Rightarrow> string \<Rightarrow> xt_status \<Rightarrow> hash option api_result" where
  "api_send_extrinsic self xthex_prefixed exit_on = cl_send_extrinsic (api_client self) xthex_prefixed exit_on"

text \<open>The same method where the feature \<^verbatim>\<open>ws-client\<close> is off.\<close>

definition api_send_extrinsic_no_ws :: "('pub, 'psig) api \<Rightarrow> string \<Rightarrow> hash option api_result" where
  "api_send_extrinsic_no_ws self xthex_prefixed = cl_send_extrinsic (api_client self) xthex_prefixed Broadcast"

section \<open>The macro compose_extrinsic!\<close>

definition compose_extrinsic ::
    "api_env \<Rightarrow> ('era, 'addr, 'sig) xt_codecs \<Rightarrow> 'era \<Rightarrow> 'a codec \<Rightarrow> ('pub, 'psig, bytes, 'addr, 'sig) conversions \<Rightarrow>
       ('pub, 'psig) api \<Rightarrow> string \<Rightarrow> string \<Rightarrow> 'a \<Rightarrow>
       (unit, ('a composed_call, 'addr, 'sig, 'era) unchecked_extrinsic) res" where
  "compose_extrinsic E X immortal A V self module call_name args =
     and_then (compose_call (api_metadata self) module call_name args) (\<lambda>cl.
     case api_signer self of
       Some signer \<Rightarrow>
         and_then (unwrap_res (get_nonce E V self)) (\<lambda>nonce.
         Ok (compose_extrinsic_offline (e_scale E) (e_hashers E) X (composed_call_codec (e_scale E) A) V signer cl
               nonce immortal (api_genesis_hash self) (api_genesis_hash self)
               (rv_spec_version (api_runtime_version self)) (rv_transaction_version (api_runtime_version self))))
     | None \<Rightarrow> Ok \<lparr>x_signature = None, x_function = cl\<rparr>)"

end
