(* ===== verification/Rpc_Server.thy ===== *)
theory Rpc_Server
  imports Api Json_Reference
begin

text \<open>
  The interface between \<^verbatim>\<open>Api\<close> and the node: the trait \<^verbatim>\<open>RpcClient\<close>, as the locale \<open>rpc_node\<close>, is a client
  whose requests are answered by a function of the request. The web socket client provides it (locale
  \<open>answering_node\<close>): the node reads the text of the request, answers with a JSON-RPC response, and the
  handler of the client takes the result out of it. \<open>serves_storage\<close> is what \<^verbatim>\<open>Api\<close> needs of it for storage.
\<close>

section \<open>The first response decides\<close>

lemma on_get_request_msg_prefix: "prefix (c_results c) (c_results (snd (on_get_request_msg J m c)))"
  by (cases m; cases "parse_json J (projr m)")
    (auto simp: on_get_request_msg_def Let_def conn_close_def channel_send_def split: option.splits)

lemma on_get_request_msg_step:
  assumes "parse_json J t = Inr v"
  shows "on_get_request_msg J (Inr t) (on_open req fresh_conn) =
    (Ok (), (on_open req fresh_conn)\<lparr>c_closed := True, c_results := [print_json J (member v ''result'')]\<rparr>)"
  using assms by (simp add: on_get_request_msg_def Let_def conn_close_def channel_send_def on_open_def fresh_conn_def)

lemma get_request_first:
  assumes "node env (print_json J req) = \<lparr>s_connects = True, s_incoming = Inr t # after, s_ends = ends\<rparr>"
    and "spawn_error env = None" and "parse_json J t = Inr v"
  shows "get_request J env req = Ok (print_json J (member v ''result''))"
proof -
  define c where "c = (on_open (print_json J req) fresh_conn)\<lparr>c_closed := True, c_results := [print_json J (member v ''result'')]\<rparr>"
  have step: "on_get_request_msg J (Inr t) (on_open (print_json J req) fresh_conn) = (Ok (), c)"
    unfolding c_def by (rule on_get_request_msg_step) (rule assms(3))
  obtain ended c' where run: "run_handler (goes_on env) (on_get_request_msg J) after c = (ended, c')" by force
  have "prefix (c_results c) (c_results (snd (run_handler (goes_on env) (on_get_request_msg J) after c)))"
    by (rule channel_prefix) (rule on_get_request_msg_prefix)
  then have "prefix (c_results c) (c_results c')" by (simp only: run snd_conv)
  then have "prefix [print_json J (member v ''result'')] (c_results (snd (ended \<or> ends, c')))"
    by (simp add: c_def)
  from recv_hd [OF this] show ?thesis
    using assms(1,2) step run by (simp add: get_request_def ws_get_def start_rpc_client_thread_def)
qed

section \<open>The interface\<close>

locale rpc_node =
  fixes J :: serde and cl :: client and answer :: "json \<Rightarrow> json"
  assumes answers: "json_ok req \<Longrightarrow> cl_get_request cl req = Ok (print_json J (answer req))"
begin

lemma get_request_opt_answer:
  "json_ok req \<Longrightarrow> get_request_opt cl req =
     Ok (if print_json J (answer req) = ''null'' then None else Some (print_json J (answer req)))"
  by (simp add: get_request_opt_def answers)

end

text \<open>The JSON-RPC response to a request, and a node that gives it.\<close>

definition response :: "json \<Rightarrow> json \<Rightarrow> json" where
  "response req_id result = JObj [(''jsonrpc'', JStr ''2.0''), (''result'', result), (''id'', req_id)]"

definition responding :: "serde \<Rightarrow> (json \<Rightarrow> json) \<Rightarrow> ws_env" where
  "responding J answer =
     \<lparr>spawn_error = None, goes_on = (\<lambda>_. False),
      node = (\<lambda>text. case parse_json J text of
          Inr req \<Rightarrow> \<lparr>s_connects = True, s_incoming = [Inr (print_json J (response (member req ''id'') (answer req)))], s_ends = False\<rparr>
        | Inl _ \<Rightarrow> \<lparr>s_connects = True, s_incoming = [], s_ends = True\<rparr>)\<rparr>"

locale answering_node = serde_laws +
  fixes answer :: "json \<Rightarrow> json"
  assumes answer_ok: "json_ok req \<Longrightarrow> json_ok (answer req)"
begin

lemma member_ok: "json_ok v \<Longrightarrow> json_ok (member v key)"
  by (cases v) (auto simp: member_def list_all_iff split: option.splits dest!: map_of_SomeD)

lemma get_request_responding:
  assumes "json_ok req"
  shows "get_request J (responding J answer) req = Ok (print_json J (answer req))"
proof -
  have "json_ok (response (member req ''id'') (answer req))"
    using assms by (simp add: response_def member_ok answer_ok)
  from get_request_first [OF _ _ parse_print [OF this], of "responding J answer" req "[]" False]
  show ?thesis using parse_print [OF assms] by (simp add: responding_def response_def member_def)
qed

end

sublocale answering_node \<subseteq> over_ws: rpc_node J "ws_client J HX (responding J answer)" answer for HX
  by unfold_locales (simp add: ws_client_def get_request_responding)

section \<open>Storage\<close>

definition quoted_hex :: "hex_crate \<Rightarrow> bytes \<Rightarrow> string" where
  "quoted_hex HX b = CHR 0x22 # (''0x'' @ hex_encode HX b) @ [CHR 0x22]"

text \<open>The node answers a storage request from the table \<open>db\<close>, as the RPC interface documents it: the
  value as a hex string, or \<^verbatim>\<open>null\<close>.\<close>

definition serves_storage :: "api_env \<Rightarrow> client \<Rightarrow> (storage_key \<Rightarrow> bytes option) \<Rightarrow> bool" where
  "serves_storage E cl db \<longleftrightarrow>
     (\<forall>k at. cl_get_request cl (state_get_storage (e_serde E) k at) =
        Ok (case db k of None \<Rightarrow> ''null'' | Some b \<Rightarrow> quoted_hex (e_hex E) b))"

lemma quoted_not_null: "quoted_hex HX b \<noteq> ''null''"
  by (simp add: quoted_hex_def)

definition storage_answers :: "serde \<Rightarrow> hex_crate \<Rightarrow> (storage_key \<Rightarrow> bytes option) \<Rightarrow> (json \<Rightarrow> json) \<Rightarrow> bool" where
  "storage_answers J HX db answer \<longleftrightarrow>
     (\<forall>k at. answer (state_get_storage J k at) =
        (case db k of None \<Rightarrow> JNull | Some b \<Rightarrow> JStr (''0x'' @ hex_encode HX b)))"

context serde_laws
begin

lemma print_hex:
  assumes "hex_laws HX"
  shows "print_json J (JStr (''0x'' @ hex_encode HX b)) = quoted_hex HX b"
  unfolding quoted_hex_def
proof (rule print_plain)
  have "set ''0x'' \<subseteq> set hex_digits \<union> {CHR ''x''}" by (simp add: hex_digits_def)
  then show "set (''0x'' @ hex_encode HX b) \<subseteq> set hex_digits \<union> {CHR ''x''}"
    using hex_laws.hex_encode_digits [OF assms, of b] by (simp only: set_append) blast
qed

lemma storage_request_ok: "json_ok (state_get_storage J k at)"
  by (simp add: state_get_storage_def state_get_storage_with_id_def json_req_def ser_ok ser_option_ok)

lemma serves_storage_over:
  assumes "rpc_node (e_serde E) cl answer" and "e_serde E = J" and "hex_laws (e_hex E)"
    and "storage_answers J (e_hex E) db answer"
  shows "serves_storage E cl db"
  unfolding serves_storage_def
proof (intro allI)
  fix k at
  have "cl_get_request cl (state_get_storage J k at) = Ok (print_json J (answer (state_get_storage J k at)))"
    using rpc_node.answers [OF assms(1), of "state_get_storage J k at"] storage_request_ok assms(2) by simp
  then show "cl_get_request cl (state_get_storage (e_serde E) k at) =
      Ok (case db k of None \<Rightarrow> ''null'' | Some b \<Rightarrow> quoted_hex (e_hex E) b)"
    using assms(2,4) print_hex [OF assms(3)] by (simp add: storage_answers_def print_null split: option.splits)
qed

end

end
