(* ===== verification/Client_Api.thy ===== *)
theory Client_Api
  imports Rpc_Server Sample
begin

text \<open>
  The properties of the client crate (\<^verbatim>\<open>src/std\<close>): what the web socket client reports of an extrinsic
  and of a request, and what the getters of \<^verbatim>\<open>Api\<close> make of the answers. The instances run
  the web socket client of \<open>Ws_Client\<close> on the texts of \<open>Json_Reference\<close> against a node with a table of storage.
\<close>

section \<open>Messages\<close>

definition sample_ready :: json where
  "sample_ready = JObj [(''params'', JObj [(''result'', JStr ''ready'')])]"

definition sample_finalized :: json where
  "sample_finalized =
     JObj [(''params'', JObj [(''result'', JObj [(''finalized'', JStr (''0x'' @ hex_encode hex_ref (replicate 32 1)))])])]"

definition sample_rpc_error :: "json \<Rightarrow> json" where
  "sample_rpc_error data =
     JObj [(''jsonrpc'', JStr ''2.0''),
           (''error'', JObj [(''code'', JInt 1010), (''message'', JStr ''Invalid Transaction''), (''data'', data)]),
           (''id'', JStr ''3'')]"

definition sample_subscribed :: json where
  "sample_subscribed = JObj [(''id'', JStr ''1''), (''result'', JStr ''VXfK'')]"

definition sample_note :: "string \<Rightarrow> json" where
  "sample_note change =
     JObj [(''method'', JStr ''state_storage''),
           (''params'', JObj [(''result'', JObj [(''changes'', JArr [JArr [JStr ''0x26aa'', JStr change]])])])]"

text \<open>An event log with one record.\<close>

definition sample_log :: bytes where
  "sample_log = [4, 0, 1, 0, 0, 0, 0, 0, 7, 0, 0, 0, 1, 0]"

lemma sample_texts:
  "parse_json serde_ref (print_json serde_ref sample_ready) = Inr sample_ready"
  "parse_json serde_ref (print_json serde_ref sample_finalized) = Inr sample_finalized"
  "json_ok d \<Longrightarrow> parse_json serde_ref (print_json serde_ref (sample_rpc_error d)) = Inr (sample_rpc_error d)"
  "parse_json serde_ref (print_json serde_ref sample_subscribed) = Inr sample_subscribed"
  "parse_json serde_ref (print_json serde_ref (sample_note c)) = Inr (sample_note c)"
  by (rule json_fmt.parse_print,
      simp add: sample_ready_def sample_finalized_def sample_rpc_error_def sample_subscribed_def sample_note_def)+

text \<open>A connection on which the node sends these messages.\<close>

definition sample_ws :: "json list \<Rightarrow> ws_env" where
  "sample_ws msgs = \<lparr>spawn_error = None, goes_on = (\<lambda>_. False),
     node = (\<lambda>_. \<lparr>s_connects = True, s_incoming = map Inr (map (print_json serde_ref) msgs), s_ends = False\<rparr>)\<rparr>"

lemma sample_statuses:
  "parse_status serde_ref (print_json serde_ref sample_ready) = Ok (Ready, None)"
  "parse_status serde_ref (print_json serde_ref sample_finalized) = Ok (Finalized, Some (quoted_hex hex_ref (replicate 32 1)))"
  "\<exists>e. parse_status serde_ref (print_json serde_ref (sample_rpc_error (JStr ''Payment''))) = Err e"
  using json_fmt.print_hex [OF hex_fmt.hex_laws_axioms, of "replicate 32 1"]
  by (simp_all add: parse_status_def sample_texts)
    (simp_all add: sample_ready_def sample_finalized_def sample_rpc_error_def as_object_def as_str_def as_i64_def
      fail_with_def into_extrinsic_err_def)

section \<open>Sending an extrinsic\<close>

text \<open>The request, and the statuses that end a wait.\<close>

definition watch_request :: "serde \<Rightarrow> string \<Rightarrow> string" where
  "watch_request J xt = print_json J (author_submit_and_watch_extrinsic xt)"

definition ends_wait :: "xt_status \<Rightarrow> xt_status \<Rightarrow> bool" where
  "ends_wait exit_on s \<longleftrightarrow> s = Finalized \<or> s = Future \<or> s = exit_on"

definition arm_of :: "xt_status \<Rightarrow> xt_status \<Rightarrow> string option \<Rightarrow> string option option" where
  "arm_of exit_on s val =
     (if s = Finalized \<or> s = exit_on \<and> s = InBlock then Some val
      else if s = Future \<or> s = exit_on then Some None else None)"

lemma handlers_arm_of:
  "on_extrinsic_msg_until_finalized J = on_extrinsic_msg J (arm_of Finalized)"
  "on_extrinsic_msg_until_in_block J = on_extrinsic_msg J (arm_of InBlock)"
  "on_extrinsic_msg_until_broadcast J = on_extrinsic_msg J (arm_of Broadcast)"
  "on_extrinsic_msg_until_ready J = on_extrinsic_msg J (arm_of Ready)"
  unfolding on_extrinsic_msg_until_finalized_def on_extrinsic_msg_until_in_block_def
    on_extrinsic_msg_until_broadcast_def on_extrinsic_msg_until_ready_def arm_of_def
  by (intro arg_cong [where f = "on_extrinsic_msg J"] ext, simp split: xt_status.splits)+

lemma send_extrinsic_watch:
  assumes "spawn_error env = None"
    and "node env (watch_request J xt) = \<lparr>s_connects = True, s_incoming = map Inr texts, s_ends = ends\<rparr>"
    and "exit_on \<in> {Finalized, InBlock, Broadcast, Ready}"
  shows "send_extrinsic J HX env xt exit_on =
    and_then (outcome_of ends (watch (arm_of exit_on) (map (parse_status J) texts)))
      (\<lambda>res. if exit_on \<in> {Finalized, InBlock} then map_ok Some (hash_of_hex HX res) else Ok None)"
  using assms(3) thread_watch [OF assms(1,2), of J "arm_of exit_on"]
  by (auto simp: send_extrinsic_def ws_methods handlers_arm_of watch_request_def map_ok_def)

text \<open>C5: \<^verbatim>\<open>send_extrinsic\<close> waits for the status asked for: messages with earlier statuses are passed over,
  the first that is finalized or reaches the status ends the wait, and the block hash it carries
  is returned (for finalized and in-block) whatever follows.\<close>

theorem send_extrinsic_reports_status:
  assumes "spawn_error env = None"
    and "node env (watch_request J xt) =
      \<lparr>s_connects = True, s_incoming = map Inr (before @ t # after), s_ends = ends\<rparr>"
    and "exit_on \<in> {Finalized, InBlock, Broadcast, Ready}"
    and "\<forall>b \<in> set before. \<exists>s v. parse_status J b = Ok (s, v) \<and> \<not> ends_wait exit_on s"
    and "parse_status J t = Ok (s, val)" and "s = Finalized \<or> s = exit_on"
    and "exit_on \<in> {Finalized, InBlock} \<longrightarrow> (\<exists>v. val = Some v \<and> hash_from_hex HX v = Inr h)"
  shows "send_extrinsic J HX env xt exit_on = Ok (if exit_on \<in> {Finalized, InBlock} then Some h else None)"
proof -
  have "\<forall>p \<in> set (map (parse_status J) before). \<exists>s v. p = Ok (s, v) \<and> arm_of exit_on s v = None"
    using assms(4) by (fastforce simp: ends_wait_def arm_of_def)
  note skip = watch_append [OF this]
  have arm: "arm_of exit_on s val = Some (if s = Finalized \<or> s = InBlock then val else None)"
    using assms(6) by (auto simp: arm_of_def)
  have "watch (arm_of exit_on) (map (parse_status J) (before @ t # after)) =
      Delivered (case if s = Finalized \<or> s = InBlock then val else None of Some y \<Rightarrow> y | None \<Rightarrow> [])"
    by (simp add: skip assms(5) arm)
  then show ?thesis
    using assms(3,6,7)
    by (auto simp: send_extrinsic_watch [OF assms(1-3)] outcome_of_def hash_of_hex_def)
qed

theorem send_extrinsic_reports_status_witness:
  "send_extrinsic serde_ref hex_ref (sample_ws [sample_ready, sample_finalized, sample_ready]) ''0x01'' Finalized =
     Ok (Some (replicate 32 1))"
proof -
  have "hash_from_hex hex_ref (quoted_hex hex_ref (replicate 32 1)) = Inr (replicate 32 1)"
    by (simp only: quoted_hex_def hash_from_hex_def hex_fmt.vec_from_hex_quoted) simp
  with send_extrinsic_reports_status [of "sample_ws [sample_ready, sample_finalized, sample_ready]" serde_ref "''0x01''"
      "[print_json serde_ref sample_ready]" "print_json serde_ref sample_finalized" "[print_json serde_ref sample_ready]"
      False Finalized Finalized "Some (quoted_hex hex_ref (replicate 32 1))" hex_ref "replicate 32 1"]
  show ?thesis by (simp add: sample_ws_def sample_statuses ends_wait_def)
qed

text \<open>C37: an extrinsic the node rejects is not reported as such: the text of the error goes to the
  log only, the waiting call gets an empty string for it, and returns success without a hash when
  it waits for ready or broadcast, and a hex error when it waits for a block.\<close>

theorem send_extrinsic_swallows_errors:
  assumes "hex_laws HX" and "spawn_error env = None"
    and "node env (watch_request J xt) =
      \<lparr>s_connects = True, s_incoming = map Inr (before @ t # after), s_ends = ends\<rparr>"
    and "exit_on \<in> {Finalized, InBlock, Broadcast, Ready}"
    and "\<forall>b \<in> set before. \<exists>s v. parse_status J b = Ok (s, v) \<and> \<not> ends_wait exit_on s"
    and "parse_status J t = Err e"
  shows "send_extrinsic J HX env xt exit_on =
    (if exit_on \<in> {Broadcast, Ready} then Ok None else Err (InvalidHexString InvalidStringLength))"
proof -
  have "hex_encode HX [] = []"
    using hex_laws.hex_encode_append [OF assms(1), of "[]" "[]"] by simp
  with hex_laws.vec_from_hex_encode(2) [OF assms(1), of "[]"]
  have "hash_from_hex HX [] = Inl InvalidStringLength" by (simp add: hash_from_hex_def)
  moreover have "\<forall>p \<in> set (map (parse_status J) before). \<exists>s v. p = Ok (s, v) \<and> arm_of exit_on s v = None"
    using assms(5) by (fastforce simp: ends_wait_def arm_of_def)
  from watch_append [OF this]
  have "watch (arm_of exit_on) (map (parse_status J) (before @ t # after)) = Delivered []"
    using assms(6) by simp
  ultimately show ?thesis
    using assms(4)
    by (auto simp: send_extrinsic_watch [OF assms(2-4)] outcome_of_def hash_of_hex_def)
qed

theorem send_extrinsic_swallows_errors_witness:
  "send_extrinsic serde_ref hex_ref (sample_ws [sample_rpc_error (JStr ''Payment'')]) ''0x01'' Ready = Ok None \<and>
   send_extrinsic serde_ref hex_ref (sample_ws [sample_rpc_error (JStr ''Payment'')]) ''0x01'' Finalized =
     Err (InvalidHexString InvalidStringLength)"
proof -
  from sample_statuses(3) obtain e
    where e: "parse_status serde_ref (print_json serde_ref (sample_rpc_error (JStr ''Payment''))) = Err e" ..
  have n: "node (sample_ws [sample_rpc_error (JStr ''Payment'')]) r = \<lparr>s_connects = True,
      s_incoming = map Inr ([] @ print_json serde_ref (sample_rpc_error (JStr ''Payment'')) # []), s_ends = False\<rparr>"
    for r by (simp add: sample_ws_def)
  show ?thesis
    using send_extrinsic_swallows_errors [OF hex_fmt.hex_laws_axioms _ n _ _ e, of Ready]
      send_extrinsic_swallows_errors [OF hex_fmt.hex_laws_axioms _ n _ _ e, of Finalized]
    by (simp add: sample_ws_def)
qed

text \<open>C38: an error response whose \<^verbatim>\<open>data\<close> is not a string, or whose code or message has another type,
  makes the handler panic; the thread dies and the waiting call reports a disconnected channel.\<close>

theorem odd_error_response_panics:
  assumes "spawn_error env = None"
    and "node env (watch_request J xt) = \<lparr>s_connects = True, s_incoming = map Inr (t # after), s_ends = ends\<rparr>"
    and "exit_on \<in> {Finalized, InBlock, Broadcast, Ready}"
    and "parse_json J t = Inr v" and "as_object (member v ''error'') = Some ms"
    and "map_of ms ''data'' = Some d" and "as_str d = None"
  shows "into_extrinsic_err v = (Panic :: (rpc_client_error, rpc_client_error) res) \<and>
    send_extrinsic J HX env xt exit_on = Err Disconnected"
proof -
  have "into_extrinsic_err v = (Panic :: (rpc_client_error, rpc_client_error) res)"
    using assms(5-7) by (auto simp: into_extrinsic_err_def and_then_Panic_iff unwrap_def split: option.splits)
  moreover from this have "parse_status J t = Panic"
    using assms(4,5) by (simp add: parse_status_def fail_with_def)
  ultimately show ?thesis by (simp add: send_extrinsic_watch [OF assms(1-3)] outcome_of_def)
qed

theorem odd_error_response_panics_witness:
  "send_extrinsic serde_ref hex_ref (sample_ws [sample_rpc_error (JObj [])]) ''0x01'' Finalized = Err Disconnected"
  using odd_error_response_panics [of "sample_ws [sample_rpc_error (JObj [])]" serde_ref "''0x01''"
      "print_json serde_ref (sample_rpc_error (JObj []))" "[]" False Finalized "sample_rpc_error (JObj [])"
      "[(''code'', JInt 1010), (''message'', JStr ''Invalid Transaction''), (''data'', JObj [])]" "JObj []" hex_ref]
  by (simp add: sample_ws_def sample_texts) (simp add: sample_rpc_error_def member_def as_object_def as_str_def)

section \<open>Waiting for an event\<close>

text \<open>C6: waiting for an event ends: once the node sends an event log with an event of the pallet and
  the variant asked for, \<^verbatim>\<open>wait_for_raw_event\<close> on the subscription returns the first such event, and
  \<^verbatim>\<open>wait_for_event\<close> its decoded data, whatever comes before it: confirmations, logs without such an event,
  and logs that do not decode.\<close>

theorem subscribed_event_is_returned:
  assumes "scale_laws S" and "hex_laws HX" and "spawn_error env = None"
    and "node env (print_json J (state_subscribe_storage J [utils_storage_key H ''System'' ''Events''])) =
      \<lparr>s_connects = True, s_incoming = map Inr texts, s_ends = ends\<rparr>"
    and "\<forall>t \<in> set texts. \<exists>v. parse_json J t = Inr v"
    and "notifications J texts = before @ (''0x'' @ hex_encode HX
      (encode (c_compact_u32 S) (of_nat (length es)) @ concat (map (event_wire S) es))) # after"
    and "\<forall>s \<in> set before. passed_over fuel S HX M module variant s"
    and "\<forall>e \<in> set es. event_decodes fuel S M e" and "length es < 2 ^ 32"
    and "find_event module variant (concat (map event_report es)) = Some ev"
    and "decode E (re_data ev) = Inr (x, rest)"
  shows "\<exists>receiver. subscribe_events J H env = Ok receiver \<and>
    wait_for_raw_event fuel S HX own module variant (Some M) receiver = Ok ev \<and>
    wait_for_event fuel S HX E own module variant (Some M) receiver = Ok x"
proof -
  from start_subscriber_delivers [OF assms(3-5)] obtain c
    where sub: "start_subscriber J env (print_json J (state_subscribe_storage J [utils_storage_key H ''System'' ''Events''])) =
        Ok (ends, c)" and results: "c_results c = notifications J texts" by blast
  have "wait_for_raw_event fuel S HX own module variant (Some M) (ends, c) = Ok ev"
    using scale_laws.decode_events_wire [OF assms(1,8,9), of "[]"] hex_laws.vec_from_hex_encode(1) [OF assms(2)] assms(10)
    by (simp add: wait_for_raw_event_def results assms(6) wait_loop_passes [OF assms(7)])
  then show ?thesis
    using sub assms(11) by (simp add: subscribe_events_def wait_for_event_def)
qed

definition sample_stream :: "json list" where
  "sample_stream =
     [sample_subscribed, sample_note ''0x'', sample_note (''0x'' @ hex_encode hex_ref sample_log), sample_note ''0x'']"

lemma sample_notifications:
  "notification serde_ref sample_subscribed = None" "notification serde_ref (sample_note c) = Some c"
  by (simp_all add: notification_def sample_note_def sample_subscribed_def as_str_def element_def member_def)

theorem subscribed_event_is_returned_witness:
  "\<exists>receiver. subscribe_events serde_ref sample_hashers (sample_ws sample_stream) = Ok receiver \<and>
    wait_for_raw_event 3 scale_ref hex_ref sample_metadata ''System'' ''ExtrinsicSuccess'' (Some sample_metadata) receiver =
      Ok \<lparr>re_pallet = ''System'', re_pallet_index = 0, re_variant = ''ExtrinsicSuccess'', re_variant_index = 0,
          re_data = [7, 0, 0, 0, 1]\<rparr> \<and>
    wait_for_event 3 scale_ref hex_ref (word_codec 4 :: u32 codec) sample_metadata ''System'' ''ExtrinsicSuccess''
      (Some sample_metadata) receiver = Ok 7"
proof -
  define e :: event_record where "e =
    \<lparr>er_phase = ApplyExtrinsic 1, er_pallet = 0, er_variant = 0,
     er_meta = \<lparr>em_pallet = ''System'', em_event = ''ExtrinsicSuccess'',
       em_variant = \<lparr>v_name = ''ExtrinsicSuccess'', v_fields = [3], v_index = 0, v_docs = []\<rparr>\<rparr>,
     er_data = [7, 0, 0, 0, 1], er_errors = [], er_topics = []\<rparr>"
  have dec: "event_decodes 3 scale_ref sample_metadata e"
    by (simp add: e_def event_decodes_def sample_lookups sample_eval)
  have log: "encode (c_compact_u32 scale_ref) (of_nat (length [e])) @ concat (map (event_wire scale_ref) [e]) = sample_log"
    by (simp add: e_def event_wire_def ref_eval sample_log_def)
  have sent: "notifications serde_ref (map (print_json serde_ref) sample_stream) =
      [''0x''] @ (''0x'' @ hex_encode hex_ref (encode (c_compact_u32 scale_ref) (of_nat (length [e])) @
        concat (map (event_wire scale_ref) [e]))) # [''0x'']"
    unfolding log
    by (simp add: sample_stream_def notifications_def List.map_filter_simps sample_texts sample_notifications)
  have "vec_from_hex hex_ref ''0x'' = Inr []"
    using hex_fmt.vec_from_hex_encode(1) [of "[]"] by (simp add: hex_ref_def ref_hex_encode_def)
  then have pass: "passed_over 3 scale_ref hex_ref sample_metadata ''System'' ''ExtrinsicSuccess'' ''0x''"
    by (simp add: passed_over_def decode_events_def sample_eval)
  show ?thesis
    by (rule subscribed_event_is_returned [OF scale_fmt.scale_laws_axioms hex_fmt.hex_laws_axioms _ _ _ sent, where ends = False and rest = "[1]"])
      (simp_all add: sample_ws_def sample_stream_def sample_texts dec pass, simp_all add: e_def event_report_def find_event_def ref_eval)
qed

section \<open>Requests and storage\<close>

definition sample_env :: api_env where
  "sample_env =
     \<lparr>e_serde = serde_ref, e_hex = hex_ref, e_hashers = sample_hashers, e_scale = scale_ref,
      e_meta_reserved = sample_magic, e_metadata = \<lparr>decode = (\<lambda>bs. Inr ((sample_magic, V14 sample_v14), bs)), encode = (\<lambda>_. [])\<rparr>,
      e_account_id = array_codec 32, de_runtime_version = (\<lambda>_. Inr \<lparr>rv_spec_version = 100, rv_transaction_version = 3\<rparr>),
      de_strings = collect_json as_str, de_pairs = collect_json as_pair\<rparr>"

lemma get_storage_served:
  assumes "hex_laws (e_hex E)" and "serves_storage E (api_client self) db"
  shows "get_storage_by_key_hash E V self k at =
    (case db k of None \<Rightarrow> Ok None
     | Some b \<Rightarrow> map_ok (\<lambda>(v, _). Some v) (map_err StorageValueDecode (lift (decode V b))))"
proof (cases "db k")
  case None
  then show ?thesis
    using assms(2) by (simp add: get_storage_by_key_hash_def get_opaque_storage_by_key_hash_def api_get_request_def
        get_request_opt_def serves_storage_def some_with_def)
next
  case (Some b)
  have "vec_from_hex (e_hex E) (quoted_hex (e_hex E) b) = Inr b"
    unfolding quoted_hex_def by (rule hex_laws.vec_from_hex_quoted [OF assms(1)])
  then show ?thesis
    using Some assms(2)
    by (cases "decode V b") (auto simp: get_storage_by_key_hash_def get_opaque_storage_by_key_hash_def
        api_get_request_def get_request_opt_def serves_storage_def some_with_def bytes_of_hex_def quoted_not_null)
qed

text \<open>\<^verbatim>\<open>get_storage_map\<close> reads the node's storage: the value stored under the key of the entry is
  returned, no value where nothing is stored, and an unknown pallet or entry is an error without a
  request.\<close>

theorem get_storage_map_reads:
  assumes "hex_laws (e_hex E)" and "serves_storage E (api_client self) db" and "roundtrip_codec V ok"
    and "\<forall>k b. db k = Some b \<longrightarrow> (\<exists>v. ok v \<and> b = encode V v)"
  shows "get_storage_map E K V self p e key at =
    (case storage_map_key (e_hashers E) K (api_metadata self) p e key of
       Ok k \<Rightarrow> Ok (map_option (\<lambda>b. fst (projr (decode V b))) (db k))
     | Err err \<Rightarrow> Err (ApiMetadata err) | Panic \<Rightarrow> Panic | OutOfFuel \<Rightarrow> OutOfFuel) \<and>
   (\<forall>k v. storage_map_key (e_hashers E) K (api_metadata self) p e key = Ok k \<and> ok v \<and> db k = Some (encode V v) \<longrightarrow>
      get_storage_map E K V self p e key at = Ok (Some v))"
proof -
  have dec: "decode V (encode V v) = Inr (v, [])" if "ok v" for v
    using roundtrip_codec.decode_encode_end [OF assms(3) that] .
  have "get_storage_by_key_hash E V self k at = Ok (map_option (\<lambda>b. fst (projr (decode V b))) (db k))" for k
    using assms(4) dec by (cases "db k") (fastforce simp: get_storage_served [OF assms(1,2)])+
  then show ?thesis
    by (cases "storage_map_key (e_hashers E) K (api_metadata self) p e key")
      (simp_all add: get_storage_map_def dec)
qed

text \<open>A node that answers over the web socket: storage requests from the table \<open>db\<close>, requests for a block hash
  with the genesis hash, others with a fixed string.\<close>

definition sample_answer :: "bytes option \<Rightarrow> (storage_key \<times> bytes) list \<Rightarrow> json \<Rightarrow> json" where
  "sample_answer genesis db req =
     (if member req ''method'' = JStr ''state_getStorage'' then
        (case List.find (\<lambda>(k, _). element (member req ''params'') 0 = ser_key serde_ref k) db of
           None \<Rightarrow> JNull | Some (_, b) \<Rightarrow> JStr (''0x'' @ hex_encode hex_ref b))
      else if member req ''method'' = JStr ''chain_getBlockHash'' then
        (case genesis of None \<Rightarrow> JNull | Some h \<Rightarrow> JStr (''0x'' @ hex_encode hex_ref h))
      else JStr (''0x'' @ hex_encode hex_ref [1, 2]))"

interpretation sample_chain: answering_node serde_ref "sample_answer genesis db" for genesis db
  by unfold_locales (simp add: sample_answer_def split: option.splits)

definition sample_client :: "bytes option \<Rightarrow> (storage_key \<times> bytes) list \<Rightarrow> client" where
  "sample_client genesis db = ws_client serde_ref hex_ref (responding serde_ref (sample_answer genesis db))"

abbreviation sample_db :: "(storage_key \<times> bytes) list \<Rightarrow> client" where
  "sample_db \<equiv> sample_client None"

abbreviation sample_node :: "(storage_key \<times> bytes) list \<Rightarrow> client" where
  "sample_node \<equiv> sample_client (Some (replicate 32 1))"

lemma sample_client_answers:
  "json_ok req \<Longrightarrow> cl_get_request (sample_client genesis db) req = Ok (print_json serde_ref (sample_answer genesis db req))"
  unfolding sample_client_def by (rule sample_chain.over_ws.answers)

definition sample_api :: "(storage_key \<times> bytes) list \<Rightarrow> (bytes, bytes) api" where
  "sample_api db = \<lparr>api_signer = Some \<lparr>pair_public = replicate 32 7, pair_sign = fit 64\<rparr>, api_genesis_hash = replicate 32 1,
     api_metadata = sample_metadata, api_runtime_version = \<lparr>rv_spec_version = 100, rv_transaction_version = 3\<rparr>,
     api_client = sample_db db\<rparr>"

lemma find_map_of: "List.find (\<lambda>(k', _). P k k') db = map_option (\<lambda>v. (k, v)) (map_of db k)"
  if "\<And>k'. P k k' \<longleftrightarrow> k' = k" for db :: "('k \<times> 'v) list"
  using that by (induction db) auto

lemma sample_serves: "serves_storage sample_env (sample_client genesis db) (map_of db)"
proof -
  have "(ser_key serde_ref k = ser_key serde_ref k') \<longleftrightarrow> k' = k" for k k'
    by (auto simp: serde_ref_def dest: hex_fmt.hex_encode_inject)
  note find = find_map_of [where P = "\<lambda>k k'. ser_key serde_ref k = ser_key serde_ref k'", OF this]
  have "storage_answers serde_ref hex_ref (map_of db) (sample_answer genesis db)"
    by (auto simp: storage_answers_def sample_answer_def state_get_storage_def json_req_members element_def find
        split: option.splits)
  then show ?thesis
    unfolding sample_client_def
    by (intro json_fmt.serves_storage_over)
      (simp_all add: sample_env_def hex_fmt.hex_laws_axioms sample_chain.over_ws.rpc_node_axioms)
qed

theorem get_storage_map_reads_witness:
  "get_storage_map sample_env (word_codec 4 :: u32 codec) (word_codec 4 :: u32 codec)
     (sample_api [(key_prefix sample_hashers ''System'' ''Account'' @ key_hash sample_hashers (word_codec 4) (77 :: u32) Blake2_128Concat,
        [5, 0, 0, 0])]) ''System'' ''Account'' 77 None = Ok (Some 5)"
proof -
  define k where "k = key_prefix sample_hashers ''System'' ''Account'' @
    key_hash sample_hashers (word_codec 4) (77 :: u32) Blake2_128Concat"
  have key: "storage_map_key (e_hashers sample_env) (word_codec 4 :: u32 codec) (api_metadata (sample_api [(k, [5, 0, 0, 0])]))
      ''System'' ''Account'' 77 = Ok k"
    by (simp add: storage_map_key_def sample_api_def sample_env_def sample_lookups get_map_def sample_account_def
        hasher_at_def storage_map_bytes_def k_def key_prefix_def)
  have five: "encode (word_codec 4) (5 :: u32) = [5, 0, 0, 0]" by (simp add: ref_eval)
  have serves: "serves_storage sample_env (api_client (sample_api [(k, [5, 0, 0, 0])])) (map_of [(k, [5, 0, 0, 0])])"
    using sample_serves [of None "[(k, [5, 0, 0, 0])]"] by (simp only: sample_api_def api.select_convs)
  have vals: "\<forall>k' b. map_of [(k, [5, 0, 0, 0])] k' = Some b \<longrightarrow> (\<exists>v :: u32. True \<and> b = encode (word_codec 4) v)"
    using five by (metis map_of.simps(2) map_of.simps(1) fun_upd_apply fst_conv snd_conv option.distinct(1) option.inject)
  have hex: "hex_laws (e_hex sample_env)" by (simp add: sample_env_def hex_fmt.hex_laws_axioms)
  have rt: "roundtrip_codec (word_codec 4 :: u32 codec) (\<lambda>_. True)"
    using scale_fmt.scale_roundtrip(2) by (simp only: scale_ref_sel)
  have "get_storage_map sample_env (word_codec 4 :: u32 codec) (word_codec 4 :: u32 codec)
      (sample_api [(k, [5, 0, 0, 0])]) ''System'' ''Account'' 77 None = Ok (Some 5)"
    by (rule get_storage_map_reads [OF hex serves rt vals, THEN conjunct2, rule_format, of _ _ _ _ k])
      (simp only: key five simp_thms map_of.simps fst_conv snd_conv fun_upd_same)
  then show ?thesis by (simp only: k_def)
qed

text \<open>What a getter of the storage returns, for the key it asks for: an error of the metadata is reported without a
  request, an empty place is \<^verbatim>\<open>None\<close>, an encoded value is that value, and bytes that do not decode are an error.\<close>

definition reads_as ::
    "'v codec \<Rightarrow> ('v \<Rightarrow> bool) \<Rightarrow> (storage_key \<Rightarrow> bytes option) \<Rightarrow> (metadata_error, storage_key) res \<Rightarrow> 'v option api_result \<Rightarrow> bool" where
  "reads_as V ok db key r \<longleftrightarrow>
     (case key of
        Ok k \<Rightarrow>
          (case db k of
             None \<Rightarrow> r = Ok None
           | Some b \<Rightarrow>
               (\<forall>v. ok v \<and> b = encode V v \<longrightarrow> r = Ok (Some v)) \<and>
               (\<forall>e. decode V b = Inl e \<longrightarrow> r = Err (StorageValueDecode e)))
      | Err err \<Rightarrow> r = Err (ApiMetadata err)
      | Panic \<Rightarrow> r = Panic
      | OutOfFuel \<Rightarrow> r = OutOfFuel)"

lemma get_storage_by_key_reads:
  assumes "hex_laws (e_hex E)" and "serves_storage E (api_client self) db" and "roundtrip_codec V ok"
  shows "reads_as V ok db key (and_then (map_err ApiMetadata key) (\<lambda>k. get_storage_by_key_hash E V self k at))"
  using roundtrip_codec.decode_encode_end [OF assms(3)]
  by (cases key) (auto simp: reads_as_def get_storage_served [OF assms(1,2)] split: option.splits)

text \<open>C20: the three getters of the storage, for a value, an entry of a map and an entry of a double map,
  read what the node has under the key of the entry (\<open>reads_as\<close>).\<close>

theorem storage_getters_read:
  assumes "hex_laws (e_hex E)" and "serves_storage E (api_client self) db" and "roundtrip_codec V ok"
  shows "reads_as V ok db (storage_value_key (e_hashers E) (api_metadata self) p e) (get_storage_value E V self p e at) \<and>
    reads_as V ok db (storage_map_key (e_hashers E) K (api_metadata self) p e key) (get_storage_map E K V self p e key at) \<and>
    reads_as V ok db (storage_double_map_key (e_hashers E) K Q (api_metadata self) p e key key2)
      (get_storage_double_map E K Q V self p e key key2 at)"
  using get_storage_by_key_reads [OF assms]
  by (simp add: get_storage_value_def get_storage_map_def get_storage_double_map_def)

definition sample_number_key :: storage_key where
  "sample_number_key = key_prefix sample_hashers ''System'' ''Number''"

definition sample_nested_key :: storage_key where
  "sample_nested_key = key_prefix sample_hashers ''System'' ''Nested'' @
     key_hash sample_hashers (word_codec 2) (5 :: u16) Twox64Concat @ key_hash sample_hashers (word_codec 4) (77 :: u32) Blake2_128Concat"

lemma sample_keys:
  "storage_value_key sample_hashers sample_metadata ''System'' ''Number'' = Ok sample_number_key"
  "storage_double_map_key sample_hashers (word_codec 2) (word_codec 4) sample_metadata ''System'' ''Nested'' (5 :: u16) (77 :: u32) =
     Ok sample_nested_key"
  "storage_value_key sample_hashers sample_metadata ''System'' ''Nested'' = Err StorageTypeError"
  by (simp_all add: storage_value_key_def get_value_def storage_value_bytes_def storage_double_map_key_def get_double_map_def
      double_map_key_def sample_lookups sample_number_def sample_nested_def hasher_at_def sample_number_key_def
      sample_nested_key_def key_prefix_def)

theorem storage_getters_read_witness:
  "get_storage_value sample_env (word_codec 4 :: u32 codec) (sample_api [(sample_number_key, [5, 0, 0, 0]), (sample_nested_key, [6, 0, 0, 0])])
     ''System'' ''Number'' None = Ok (Some 5) \<and>
   get_storage_value sample_env (word_codec 4 :: u32 codec) (sample_api [(sample_number_key, [5, 0, 0, 0]), (sample_nested_key, [6, 0, 0, 0])])
     ''System'' ''Nested'' None = Err (ApiMetadata StorageTypeError) \<and>
   get_storage_double_map sample_env (word_codec 2 :: u16 codec) (word_codec 4 :: u32 codec) (word_codec 4 :: u32 codec)
     (sample_api [(sample_number_key, [5, 0, 0, 0]), (sample_nested_key, [6, 0, 0, 0])]) ''System'' ''Nested'' 5 77 None = Ok (Some 6)"
proof -
  define db where "db = [(sample_number_key, [5, 0, 0, 0]), (sample_nested_key, [6, 0, 0, 0 :: u8])]"
  have api: "api_client (sample_api db) = sample_client None db" "api_metadata (sample_api db) = sample_metadata"
    by (simp_all add: sample_api_def)
  have env: "e_hashers sample_env = sample_hashers" by (simp add: sample_env_def)
  have hex: "hex_laws (e_hex sample_env)" by (simp add: sample_env_def hex_fmt.hex_laws_axioms)
  have rt: "roundtrip_codec (word_codec 4 :: u32 codec) (\<lambda>_. True)"
    using scale_fmt.scale_roundtrip(2) by (simp only: scale_ref_sel)
  have serves: "serves_storage sample_env (api_client (sample_api db)) (map_of db)"
    unfolding api by (rule sample_serves)
  have "length sample_number_key \<noteq> length sample_nested_key"
    by (simp add: sample_number_key_def sample_nested_key_def key_hash_concat concat_hasher_def
        length_key_prefix [OF sample_hash_sizes] length_hash_part [OF sample_hash_sizes] hash_part_size_def)
  then have "sample_nested_key \<noteq> sample_number_key" by metis
  then have table: "map_of db sample_number_key = Some [5, 0, 0, 0]" "map_of db sample_nested_key = Some [6, 0, 0, 0]"
    by (simp_all add: db_def)
  have enc: "encode (word_codec 4) (5 :: u32) = [5, 0, 0, 0]" "encode (word_codec 4) (6 :: u32) = [6, 0, 0, 0]"
    by (simp_all add: ref_eval)
  note reads = storage_getters_read [OF hex serves rt, unfolded api env, of _ _ None]
  have "get_storage_value sample_env (word_codec 4 :: u32 codec) (sample_api db) ''System'' ''Number'' None = Ok (Some 5)"
    using reads [THEN conjunct1, of "''System''" "''Number''"] by (simp add: reads_as_def sample_keys table flip: enc)
  moreover have "get_storage_value sample_env (word_codec 4 :: u32 codec) (sample_api db) ''System'' ''Nested'' None =
      Err (ApiMetadata StorageTypeError)"
    using reads [THEN conjunct1, of "''System''" "''Nested''"] by (simp add: reads_as_def sample_keys)
  moreover have "get_storage_double_map sample_env (word_codec 2 :: u16 codec) (word_codec 4 :: u32 codec) (word_codec 4 :: u32 codec)
      (sample_api db) ''System'' ''Nested'' 5 77 None = Ok (Some 6)"
    using reads [THEN conjunct2, THEN conjunct2, of "word_codec 2 :: u16 codec" "word_codec 4 :: u32 codec"
        "''System''" "''Nested''" 5 77]
    by (simp add: reads_as_def sample_keys table flip: enc)
  ultimately show ?thesis unfolding db_def by blast
qed

text \<open>C39: a request takes the member \<^verbatim>\<open>result\<close> of the first response, and an error response has none: the
  web socket client answers \<^verbatim>\<open>null\<close> for it, and \<^verbatim>\<open>Api\<close> reads that as a value that is not there. A storage
  query the node refuses is so reported as empty storage.\<close>

theorem node_error_reads_as_absent:
  assumes "\<forall>req. node env req = \<lparr>s_connects = True, s_incoming = Inr t # after, s_ends = ends\<rparr>"
    and "spawn_error env = None" and "parse_json J t = Inr v" and "print_json J JNull = ''null''"
  shows "get_request J env req = Ok (print_json J (member v ''result'')) \<and>
    (member v ''result'' = JNull \<and> api_client self = ws_client J HX env \<longrightarrow>
      get_storage_by_key_hash E V self k at = Ok None)"
proof -
  have "get_request J env req = Ok (print_json J (member v ''result''))" for req
    using get_request_first assms by blast
  then show ?thesis
    using assms(4) by (simp add: get_storage_by_key_hash_def get_opaque_storage_by_key_hash_def api_get_request_def
        get_request_opt_def ws_client_def some_with_def)
qed

theorem node_error_reads_as_absent_witness:
  "get_storage_by_key_hash sample_env (word_codec 4 :: u32 codec)
     ((sample_api [])\<lparr>api_client := ws_client serde_ref hex_ref (sample_ws [sample_rpc_error (JStr ''Payment'')])\<rparr>) [1] None =
   Ok None"
  by (rule node_error_reads_as_absent [of "sample_ws [sample_rpc_error (JStr ''Payment'')]"
        "print_json serde_ref (sample_rpc_error (JStr ''Payment''))" "[]" False serde_ref "sample_rpc_error (JStr ''Payment'')",
        THEN conjunct2, rule_format])
    (simp_all add: sample_ws_def sample_texts json_fmt.print_null, simp_all add: sample_rpc_error_def member_def)

lemma get_nonce_served:
  assumes "scale_laws (e_scale E)" and "hex_laws (e_hex E)" and "serves_storage E (api_client self) db"
    and "storage_map_key (e_hashers E) (e_account_id E) (api_metadata self) ''System'' ''Account''
      (into_account V (pair_public signer)) = Ok k"
  shows "(db k = None \<longrightarrow> get_nonce E V (set_signer signer self) = Ok 0) \<and>
    (\<forall>acc. db k = Some (encode (account_codec (e_scale E)) acc) \<longrightarrow>
      get_nonce E V (set_signer signer self) = Ok (ai_nonce acc))"
proof -
  have lawful: "lawful_codec (account_codec (e_scale E)) (\<lambda>_. True)"
    unfolding account_codec_def
    by (intro scale_laws.account_info_codec_lawful [OF assms(1)] account_data_lawful
        scale_laws.u32_lawful [OF assms(1)] scale_laws.u128_lawful [OF assms(1)])
  have dec: "decode (account_codec (e_scale E)) (encode (account_codec (e_scale E)) acc) = Inr (acc, [])" for acc
    using roundtrip_codec.decode_encode_end [OF lawful_codec.axioms(2) [OF lawful] TrueI] .
  have "serves_storage E (api_client (set_signer signer self)) db" using assms(3) by (simp add: set_signer_def)
  note read = get_storage_served [OF assms(2) this, of "account_codec (e_scale E)" k None]
  have "get_account_info E (set_signer signer self) (into_account V (pair_public signer)) =
      get_storage_by_key_hash E (account_codec (e_scale E)) (set_signer signer self) k None"
    using assms(4) by (simp add: get_account_info_def set_signer_def)
  then have "get_nonce E V (set_signer signer self) =
      map_ok (\<lambda>acc_opt. case acc_opt of None \<Rightarrow> 0 | Some acc \<Rightarrow> ai_nonce acc)
        (get_storage_by_key_hash E (account_codec (e_scale E)) (set_signer signer self) k None)"
    by (simp add: get_nonce_def signer_account_def) (simp add: set_signer_def)
  then show ?thesis
    using read dec by simp
qed

text \<open>\<^verbatim>\<open>get_nonce\<close> needs a signer; with one it returns the nonce the node stores for the signer's
  account, and 0 for an account that does not exist.\<close>

theorem get_nonce_reads_account:
  assumes "scale_laws (e_scale E)" and "hex_laws (e_hex E)" and "serves_storage E (api_client self) db"
    and "storage_map_key (e_hashers E) (e_account_id E) (api_metadata self) ''System'' ''Account''
      (into_account V (pair_public signer)) = Ok k"
  shows "get_nonce E V (self\<lparr>api_signer := None\<rparr>) = Err NoSigner \<and>
    (db k = None \<longrightarrow> get_nonce E V (set_signer signer self) = Ok 0) \<and>
    (\<forall>acc. db k = Some (encode (account_codec (e_scale E)) acc) \<longrightarrow>
      get_nonce E V (set_signer signer self) = Ok (ai_nonce acc))"
  using get_nonce_served [OF assms] by (simp add: get_nonce_def)

definition sample_conv :: "(bytes, bytes, bytes, multi_address, multi_signature) conversions" where
  "sample_conv = \<lparr>into_account = (\<lambda>p. p), address_from = Id, into_signature = Sr25519\<rparr>"

definition sample_key_pair :: "(bytes, bytes) pair" where
  "sample_key_pair = \<lparr>pair_public = replicate 32 7, pair_sign = fit 64\<rparr>"

lemma sample_account_key:
  "storage_map_key (e_hashers sample_env) (e_account_id sample_env) (api_metadata (sample_api db)) ''System'' ''Account''
     (into_account sample_conv (pair_public sample_key_pair)) =
   Ok (key_prefix sample_hashers ''System'' ''Account'' @
     key_hash sample_hashers (array_codec 32) (replicate 32 7) Blake2_128Concat)"
  by (simp add: storage_map_key_def sample_api_def sample_env_def sample_lookups get_map_def sample_account_def
      hasher_at_def storage_map_bytes_def key_prefix_def sample_conv_def sample_key_pair_def)

theorem get_nonce_reads_account_witness:
  "get_nonce sample_env sample_conv ((sample_api [])\<lparr>api_signer := None\<rparr>) = Err NoSigner \<and>
   get_nonce sample_env sample_conv (set_signer sample_key_pair (sample_api [])) = Ok 0"
proof -
  have "serves_storage sample_env (api_client (sample_api [])) (map_of [])"
    using sample_serves [of None "[]"] by (simp only: sample_api_def api.select_convs)
  moreover have "scale_laws (e_scale sample_env)" "hex_laws (e_hex sample_env)"
    by (simp_all add: sample_env_def scale_fmt.scale_laws_axioms hex_fmt.hex_laws_axioms)
  ultimately have "get_nonce sample_env sample_conv ((sample_api [])\<lparr>api_signer := None\<rparr>) = Err NoSigner \<and>
      (map_of [] (key_prefix sample_hashers ''System'' ''Account'' @
        key_hash sample_hashers (array_codec 32) (replicate 32 7) Blake2_128Concat) = (None :: bytes option) \<longrightarrow>
      get_nonce sample_env sample_conv (set_signer sample_key_pair (sample_api [])) = Ok 0)"
    using get_nonce_reads_account sample_account_key by blast
  then show ?thesis by simp
qed

section \<open>A new Api\<close>

lemma hash_of_hex_length: "hash_of_hex HX s = Ok h \<Longrightarrow> length h = 32"
  by (auto simp: hash_of_hex_def hash_from_hex_def split: sum.splits if_splits)

lemma get_genesis_hash_of_length: "get_genesis_hash_of E cl = Ok g \<Longrightarrow> length g = 32"
  by (auto simp: get_genesis_hash_of_def dest: hash_of_hex_length split: option.splits)

lemmas new_requests =
  chain_get_genesis_hash_def chain_get_block_hash_def chain_get_block_hash_with_id_def
  state_get_metadata_def state_get_metadata_with_id_def state_get_runtime_version_def state_get_runtime_version_with_id_def
  json_req_members

lemma sample_answers_new:
  "cl_get_request (sample_client genesis db) chain_get_genesis_hash =
     Ok (case genesis of None \<Rightarrow> ''null'' | Some h \<Rightarrow> quoted_hex hex_ref h)"
  "cl_get_request (sample_client genesis db) state_get_metadata = Ok (quoted_hex hex_ref [1, 2])"
  "cl_get_request (sample_client genesis db) state_get_runtime_version = Ok (quoted_hex hex_ref [1, 2])"
proof -
  note hex = json_fmt.print_hex [OF hex_fmt.hex_laws_axioms, simplified] json_fmt.print_null
  have "json_ok chain_get_genesis_hash" "json_ok state_get_metadata" "json_ok state_get_runtime_version"
    by (simp_all add: new_requests json_req_def ser_option_def ser_u32_def)
  note answers = this [THEN sample_client_answers [of _ genesis db]]
  show "cl_get_request (sample_client genesis db) chain_get_genesis_hash =
      Ok (case genesis of None \<Rightarrow> ''null'' | Some h \<Rightarrow> quoted_hex hex_ref h)"
    unfolding answers by (simp add: sample_answer_def new_requests hex split: option.splits)
  show "cl_get_request (sample_client genesis db) state_get_metadata = Ok (quoted_hex hex_ref [1, 2])"
    unfolding answers by (simp add: sample_answer_def new_requests hex)
  show "cl_get_request (sample_client genesis db) state_get_runtime_version = Ok (quoted_hex hex_ref [1, 2])"
    unfolding answers by (simp add: sample_answer_def new_requests hex)
qed

lemma sample_node_answers:
  "get_genesis_hash_of sample_env (sample_node db) = Ok (replicate 32 1)"
  "get_metadata_of sample_env (sample_node db) = Ok (sample_magic, V14 sample_v14)"
  "get_runtime_version_of sample_env (sample_node db) = Ok \<lparr>rv_spec_version = 100, rv_transaction_version = 3\<rparr>"
proof -
  have hex: "vec_from_hex hex_ref (quoted_hex hex_ref b) = Inr b" for b
    unfolding quoted_hex_def by (rule hex_fmt.vec_from_hex_quoted)
  show "get_genesis_hash_of sample_env (sample_node db) = Ok (replicate 32 1)"
    by (simp add: get_genesis_hash_of_def get_request_opt_def sample_answers_new quoted_not_null
        hash_of_hex_def hash_from_hex_def sample_env_def hex)
  show "get_metadata_of sample_env (sample_node db) = Ok (sample_magic, V14 sample_v14)"
    by (simp add: get_metadata_of_def get_request_opt_def sample_answers_new quoted_not_null
        bytes_of_hex_def sample_env_def hex)
  show "get_runtime_version_of sample_env (sample_node db) = Ok \<lparr>rv_spec_version = 100, rv_transaction_version = 3\<rparr>"
    by (simp add: get_runtime_version_of_def get_request_opt_def sample_answers_new quoted_not_null sample_env_def)
qed

lemma sample_node_new:
  "api_new sample_env (sample_node db) = Ok \<lparr>api_signer = None, api_genesis_hash = replicate 32 1, api_metadata = sample_metadata,
     api_runtime_version = \<lparr>rv_spec_version = 100, rv_transaction_version = 3\<rparr>, api_client = sample_node db\<rparr>"
proof -
  have "try_from (e_meta_reserved sample_env) (sample_magic, V14 sample_v14) = Ok sample_metadata"
    by (simp add: sample_env_def sample_try_from)
  then show ?thesis by (simp add: api_new_def sample_node_answers)
qed

text \<open>C12: an \<^verbatim>\<open>Api\<close> that \<^verbatim>\<open>new\<close> returns is well formed: its genesis hash has 32 bytes, its tables are those
  of the version 14 metadata the node sent, every key occurs once in them and every entry is filed
  under its own name and index in a pallet that exists, and no signer is set; \<^verbatim>\<open>set_signer\<close> keeps all of this. A
  node without a genesis block is reported before anything else is asked.\<close>

theorem api_new_is_well_formed:
  "(api_new E cl = Ok (a :: ('pub, 'psig) api) \<longrightarrow>
      api_signer a = None \<and> api_client a = cl \<and> get_runtime_version_of E cl = Ok (api_runtime_version a) \<and>
      (\<exists>md. get_metadata_of E cl = Ok (e_meta_reserved E, V14 md) \<and>
        try_from (e_meta_reserved E) (e_meta_reserved E, V14 md) = Ok (api_metadata a)) \<and>
      (\<forall>b \<in> {a, set_signer signer a}. length (api_genesis_hash b) = 32 \<and> metadata_wf (api_metadata b))) \<and>
   (cl_get_request cl chain_get_genesis_hash = Ok ''null'' \<longrightarrow> api_new E cl = (Err Genesis :: ('pub, 'psig) api api_result))"
proof (intro conjI impI)
  assume "cl_get_request cl chain_get_genesis_hash = Ok ''null''"
  then show "api_new E cl = (Err Genesis :: ('pub, 'psig) api api_result)"
    by (simp add: api_new_def get_genesis_hash_of_def get_request_opt_def)
next
  assume new: "api_new E cl = Ok a"
  then obtain g p m rv where g: "get_genesis_hash_of E cl = Ok g" and p: "get_metadata_of E cl = Ok p"
    and m: "try_from (e_meta_reserved E) p = Ok m" and rv: "get_runtime_version_of E cl = Ok rv"
    and a: "a = \<lparr>api_signer = None, api_genesis_hash = g, api_metadata = m, api_runtime_version = rv, api_client = cl\<rparr>"
    by (auto simp: api_new_def)
  obtain pre v where pv: "p = (pre, v)" by force
  with m obtain md where v: "v = V14 md" "pre = e_meta_reserved E"
    by (cases v) (auto simp: try_from_def split: if_splits)
  with m pv p a show "\<exists>md. get_metadata_of E cl = Ok (e_meta_reserved E, V14 md) \<and>
      try_from (e_meta_reserved E) (e_meta_reserved E, V14 md) = Ok (api_metadata a)" by auto
  show "\<forall>b \<in> {a, set_signer signer a}. length (api_genesis_hash b) = 32 \<and> metadata_wf (api_metadata b)"
    using get_genesis_hash_of_length [OF g] try_from_wf [of "e_meta_reserved E" md m] m v pv a by (simp add: set_signer_def)
  show "api_signer a = None" "api_client a = cl" "get_runtime_version_of E cl = Ok (api_runtime_version a)"
    using a rv by simp_all
qed

theorem api_new_is_well_formed_witness:
  "metadata_wf sample_metadata \<and> api_new sample_env (sample_db []) = (Err Genesis :: (bytes, bytes) api api_result)"
proof
  show "metadata_wf sample_metadata"
    using api_new_is_well_formed [THEN conjunct1, rule_format, OF sample_node_new [of "[]"], of sample_key_pair] by simp
  show "api_new sample_env (sample_db []) = (Err Genesis :: (bytes, bytes) api api_result)"
    by (rule api_new_is_well_formed [THEN conjunct2, rule_format]) (simp add: sample_answers_new)
qed

section \<open>Fees\<close>

definition fee_values :: "('n \<Rightarrow> nat) \<Rightarrow> 'n fee_details \<Rightarrow> nat list" where
  "fee_values value_of d = value_of (fd_tip d) #
     (case fd_inclusion_fee d of None \<Rightarrow> []
      | Some i \<Rightarrow> map value_of [if_base_fee i, if_len_fee i, if_adjusted_weight_fee i])"

text \<open>C40: the fees \<^verbatim>\<open>get_fee_details\<close> returns are the numbers the node sent, without wrap-around: the call succeeds
  exactly when the tip and the three parts of the inclusion fee, if there is one, are below
  2 to the power of 128, and is the error \<^verbatim>\<open>TryFromIntError\<close> otherwise. \<open>value_of\<close> is the number a \<^verbatim>\<open>NumberOrHex\<close> stands for.\<close>

theorem fee_details_are_exact:
  assumes "\<forall>n. try_into n = (if value_of n < 2 ^ 128 then Some (of_nat (value_of n)) else None)"
    and "cl_get_request (api_client self) (payment_query_fee_details (e_serde E) xt at) = Ok answer"
    and "answer \<noteq> ''null''" and "de answer = Inr details"
  shows "(if \<forall>v \<in> set (fee_values value_of details). v < 2 ^ 128
     then \<exists>d. get_fee_details E try_into de self xt at = Ok (Some d) \<and>
       fee_values unat d = fee_values value_of details \<and>
       (fd_inclusion_fee d = None \<longleftrightarrow> fd_inclusion_fee details = None)
     else get_fee_details E try_into de self xt at = Err TryFromIntError)"
proof -
  have get: "get_fee_details E try_into de self xt at = map_ok Some (convert_fee_details try_into details)"
    using assms(2-4) by (cases "convert_fee_details try_into details")
      (simp_all add: get_fee_details_def api_get_request_def get_request_opt_def some_with_def de_json_def)
  have exact: "unat (of_nat v :: u128) = v" if "v < 2 ^ 128" for v :: nat
    using that by (simp add: unat_of_nat)
  show ?thesis
    unfolding get using assms(1)
    by (cases "fd_inclusion_fee details")
      (auto simp: convert_fee_details_def inclusion_fee_with_balance_def some_with_def fee_values_def exact)
qed

theorem fee_details_are_exact_witness:
  "\<exists>d. get_fee_details sample_env (\<lambda>n. if n < 2 ^ 128 then Some (of_nat n) else None)
      (\<lambda>_. Inr \<lparr>fd_inclusion_fee = Some \<lparr>if_base_fee = 5, if_len_fee = 6, if_adjusted_weight_fee = 7\<rparr>, fd_tip = 1\<rparr>)
      ((sample_api [])\<lparr>api_client := sample_node []\<rparr>) ''0x01'' None = Ok (Some d) \<and> fee_values unat d = [1, 5, 6, 7]"
proof -
  have req: "cl_get_request (api_client ((sample_api [])\<lparr>api_client := sample_node []\<rparr>))
      (payment_query_fee_details (e_serde sample_env) ''0x01'' None) = Ok (quoted_hex hex_ref [1, 2])"
    using sample_client_answers [of "payment_query_fee_details serde_ref ''0x01'' None" "Some (replicate 32 1)" "[]"]
      json_fmt.print_hex [OF hex_fmt.hex_laws_axioms, of "[1, 2]"]
    by (simp add: sample_env_def sample_answer_def payment_query_fee_details_def json_req_members json_req_def ser_option_def
        json_req_members [unfolded json_req_def])
  from fee_details_are_exact [of "\<lambda>n. if n < 2 ^ 128 then Some (of_nat n) else None" "\<lambda>n. n", OF _ req quoted_not_null,
      of "\<lambda>_. Inr \<lparr>fd_inclusion_fee = Some \<lparr>if_base_fee = 5, if_len_fee = 6, if_adjusted_weight_fee = 7\<rparr>, fd_tip = 1\<rparr>"]
  show ?thesis by (auto simp: fee_values_def)
qed

end
