(* ===== verification/Ws_Threads.thy ===== *)
theory Ws_Threads
  imports Ws_Client
begin

text \<open>
  The two threads of a request: the thread that \<^verbatim>\<open>start_rpc_client_thread\<close> spawns
  (\<^verbatim>\<open>src/std/rpc/ws_client/client.rs\<close>), which runs the handler of the connection on the messages as
  they come, and the caller, who takes the results out of the channel between them, with \<^verbatim>\<open>recv\<close> or in the
  loop of \<^verbatim>\<open>wait_for_raw_event\<close>. Any step of one may come between any two steps of the other: \<open>thread_step\<close>.

  \<open>Ws_Client\<close> runs the handler to its end first and reads the channel then. The lemmas here show
  that no schedule gives the caller another answer. What they need of a handler is the
  locale \<open>channel_handler\<close>: it never looks at what is in the channel, and puts at most one result into it.
\<close>

section \<open>The caller\<close>

text \<open>A caller reads the channel until it has an answer; \<^verbatim>\<open>recv\<close> fails when the other end is gone.\<close>

type_synonym 'a reader = "string \<Rightarrow> (api_error, 'a) res option"

primrec read_all :: "'a reader \<Rightarrow> bool \<Rightarrow> string list \<Rightarrow> (api_error, 'a) res" where
  "read_all rd ended [] = (if ended then Err Disconnected else OutOfFuel)"
| "read_all rd ended (s # ss) = (case rd s of Some a \<Rightarrow> a | None \<Rightarrow> read_all rd ended ss)"

definition caller :: "'a reader \<Rightarrow> bool \<times> conn \<Rightarrow> (api_error, 'a) res" where
  "caller rd t = read_all rd (fst t) (c_results (snd t))"

definition recv_reader :: "string reader" where
  "recv_reader s = Some (Ok s)"

text \<open>One round of the loop of \<^verbatim>\<open>wait_for_raw_event\<close>.\<close>

definition event_reader ::
    "nat \<Rightarrow> scale \<Rightarrow> hex_crate \<Rightarrow> metadata \<Rightarrow> string \<Rightarrow> string \<Rightarrow> raw_event reader" where
  "event_reader fuel S HX M module variant event_str =
     (case map_err InvalidHexString (lift (vec_from_hex HX event_str)) of
        Ok bytes \<Rightarrow>
          (case decode_events fuel S M bytes of
             Ok (raw_events, _) \<Rightarrow> map_option Ok (find_event module variant raw_events)
           | Err _ \<Rightarrow> None
           | Panic \<Rightarrow> Some Panic
           | OutOfFuel \<Rightarrow> Some OutOfFuel)
      | Err e \<Rightarrow> Some (Err e)
      | Panic \<Rightarrow> Some Panic
      | OutOfFuel \<Rightarrow> Some OutOfFuel)"

lemma recv_caller: "recv = caller recv_reader"
  by (rule ext) (auto simp: recv_def caller_def recv_reader_def split: list.splits)

lemma wait_loop_reads:
  "wait_loop fuel S HX M module variant ends msgs = read_all (event_reader fuel S HX M module variant) ends msgs"
  by (induction msgs) (auto simp: event_reader_def split: res.splits option.splits sum.splits)

lemma wait_for_raw_event_caller:
  "wait_for_raw_event fuel S HX own module variant decoder =
    caller (event_reader fuel S HX (case decoder of Some d \<Rightarrow> d | None \<Rightarrow> own) module variant)"
  by (rule ext) (simp add: wait_for_raw_event_def caller_def wait_loop_reads)

section \<open>Handlers\<close>

definition queued :: "string list \<Rightarrow> conn \<Rightarrow> conn" where
  "queued ps c = c\<lparr>c_results := ps @ c_results c\<rparr>"

locale channel_handler =
  fixes h :: handler
  assumes oblivious: "h m (queued ps c) = apsnd (queued ps) (h m c)"
    and one_result: "length (c_results (snd (h m c))) \<le> Suc (length (c_results c))"
    and same_receiver: "c_receiver (snd (h m c)) = c_receiver c"
    and same_outbox: "c_outbox (snd (h m c)) = c_outbox c"
begin

lemma run_outbox: "c_outbox (snd (run_handler survives h ms c)) = c_outbox c"
proof (induction ms arbitrary: c)
  case (Cons m ms)
  obtain r c' where "h m c = (r, c')" by force
  then show ?case using same_outbox [of m c] Cons.IH [of c'] by (cases r) auto
qed simp

text \<open>The request is all that goes out over the connection.\<close>

lemma sends_request:
  assumes "start_rpc_client_thread env req h = Ok t" and "s_connects (node env req)"
  shows "c_outbox (snd t) = [req]"
  using assms run_outbox [of "goes_on env" "s_incoming (node env req)" "on_open req fresh_conn"]
  by (auto simp: start_rpc_client_thread_def Let_def on_open_def fresh_conn_def split: option.splits prod.splits)

lemma run_queued:
  "run_handler survives h ms (queued ps c) = apsnd (queued ps) (run_handler survives h ms c)"
proof (induction ms arbitrary: c)
  case (Cons m ms)
  obtain r c' where "h m c = (r, c')" by force
  then show ?case using oblivious [of m ps c] Cons.IH [of c'] by (cases r) auto
qed simp

end

lemma apfst_apsnd: "apfst f (apsnd g p) = apsnd g (apfst f p)"
  by (cases p) simp

lemma conn_close_queued: "conn_close (queued ps c) = apsnd (queued ps) (conn_close c)"
  by (simp add: conn_close_def queued_def split: option.splits)

lemma channel_send_queued: "channel_send v (queued ps c) = apsnd (queued ps) (channel_send v c)"
  by (simp add: channel_send_def queued_def)

lemma conn_close_results [simp]: "c_results (snd (conn_close c)) = c_results c"
  by (simp add: conn_close_def split: option.splits)

lemma channel_send_results: "length (c_results (snd (channel_send v c))) \<le> Suc (length (c_results c))"
  by (simp add: channel_send_def)

lemma end_process_queued: "end_process v (queued ps c) = apsnd (queued ps) (end_process v c)"
  by (simp add: end_process_def Let_def conn_close_queued channel_send_queued apfst_apsnd)

lemma end_process_results: "length (c_results (snd (end_process v c))) \<le> Suc (length (c_results c))"
  using channel_send_results [of _ "snd (conn_close c)"] by (simp add: end_process_def Let_def)

lemma send_or_close_queued: "send_or_close v (queued ps c) = apsnd (queued ps) (send_or_close v c)"
  by (cases "channel_send v c") (auto simp: send_or_close_def channel_send_queued conn_close_queued split: res.splits)

lemma send_or_close_results: "length (c_results (snd (send_or_close v c))) \<le> Suc (length (c_results c))"
  by (simp add: send_or_close_def channel_send_def)

lemma st_then_queued:
  assumes "\<And>x c. k x (queued ps c) = apsnd (queued ps) (k x c)"
  shows "st_then (apsnd (queued ps) rc) k = apsnd (queued ps) (st_then rc k)"
  by (cases rc; cases "fst rc") (auto simp: assms)

lemma conn_receiver [simp]:
  "c_receiver (snd (conn_close c)) = c_receiver c" "c_receiver (snd (channel_send v c)) = c_receiver c"
  "c_receiver (snd (end_process v' c)) = c_receiver c" "c_receiver (snd (send_or_close v c)) = c_receiver c"
  by (simp_all add: conn_close_def channel_send_def end_process_def send_or_close_def Let_def split: option.splits)

lemma conn_outbox [simp]:
  "c_outbox (snd (conn_close c)) = c_outbox c" "c_outbox (snd (channel_send v c)) = c_outbox c"
  "c_outbox (snd (end_process v' c)) = c_outbox c" "c_outbox (snd (send_or_close v c)) = c_outbox c"
  by (simp_all add: conn_close_def channel_send_def end_process_def send_or_close_def Let_def split: option.splits)

text \<open>The laws are kept by the sequencing \<open>st_then\<close> of a handler's steps.\<close>

lemma st_then_same:
  assumes "\<And>x c. field (snd (k x c)) = field c"
  shows "field (snd (st_then rc k)) = field (snd rc)"
  using assms by (cases rc; cases "fst rc") auto

lemma st_then_results:
  assumes "length (c_results (snd rc)) \<le> n"
    and "\<And>x c. length (c_results c) \<le> n \<Longrightarrow> length (c_results (snd (k x c))) \<le> m" and "n \<le> m"
  shows "length (c_results (snd (st_then rc k))) \<le> m"
  using assms by (cases rc; cases "fst rc") auto

lemma st_then_pure_queued:
  assumes "\<And>x. k x (queued ps c) = apsnd (queued ps) (k x c)"
  shows "st_then (r, queued ps c) k = apsnd (queued ps) (st_then (r, c) k)"
  by (cases r) (auto simp: assms)

interpretation get_handler: channel_handler "on_get_request_msg J" for J
proof
  show "on_get_request_msg J m (queued ps c) = apsnd (queued ps) (on_get_request_msg J m c)" for m ps c
    by (auto simp: on_get_request_msg_def Let_def conn_close_queued channel_send_queued apfst_apsnd
        intro!: st_then_pure_queued)
  show "length (c_results (snd (on_get_request_msg J m c))) \<le> Suc (length (c_results c))" for m c
    by (cases m; cases "parse_json J (projr m)") (auto simp: on_get_request_msg_def Let_def channel_send_def)
  show "c_receiver (snd (on_get_request_msg J m c)) = c_receiver c" for m c
    by (cases m; cases "parse_json J (projr m)") (auto simp: on_get_request_msg_def Let_def)
  show "c_outbox (snd (on_get_request_msg J m c)) = c_outbox c" for m c
    by (cases m; cases "parse_json J (projr m)") (auto simp: on_get_request_msg_def Let_def)
qed

interpretation extrinsic_handler: channel_handler "on_extrinsic_msg J arm" for J arm
proof
  fix m ps c
  show "on_extrinsic_msg J arm m (queued ps c) = apsnd (queued ps) (on_extrinsic_msg J arm m c)"
    unfolding on_extrinsic_msg_def
    by (rule st_then_pure_queued)
      (auto simp: end_process_queued intro!: st_then_queued split: res.splits option.splits)
  have "length (c_results (snd (st_then (end_process None c) (\<lambda>_ c. (Err e, c))))) \<le> Suc (length (c_results c))" for e
    by (rule st_then_results [OF end_process_results]) auto
  then show "length (c_results (snd (on_extrinsic_msg J arm m c))) \<le> Suc (length (c_results c))"
    using end_process_results
    by (cases m) (auto simp: on_extrinsic_msg_def split: res.splits option.splits)
  show "c_receiver (snd (on_extrinsic_msg J arm m c)) = c_receiver c"
    by (cases m) (auto simp: on_extrinsic_msg_def st_then_same [where field = c_receiver] split: res.splits option.splits)
  show "c_outbox (snd (on_extrinsic_msg J arm m c)) = c_outbox c"
    by (cases m) (auto simp: on_extrinsic_msg_def st_then_same [where field = c_outbox] split: res.splits option.splits)
qed

interpretation submit_handler: channel_handler "on_extrinsic_msg_submit_only J" for J
proof
  fix m ps c
  show "on_extrinsic_msg_submit_only J m (queued ps c) = apsnd (queued ps) (on_extrinsic_msg_submit_only J m c)"
    unfolding on_extrinsic_msg_submit_only_def
    by (rule st_then_pure_queued)
      (auto simp: end_process_queued intro!: st_then_queued split: res.splits)
  have "length (c_results (snd (st_then (end_process None c) (\<lambda>_ c. (Err e, c))))) \<le> Suc (length (c_results c))" for e
    by (rule st_then_results [OF end_process_results]) auto
  then show "length (c_results (snd (on_extrinsic_msg_submit_only J m c))) \<le> Suc (length (c_results c))"
    using end_process_results
    by (cases m) (auto simp: on_extrinsic_msg_submit_only_def split: res.splits)
  show "c_receiver (snd (on_extrinsic_msg_submit_only J m c)) = c_receiver c"
    by (cases m) (auto simp: on_extrinsic_msg_submit_only_def st_then_same [where field = c_receiver] split: res.splits)
  show "c_outbox (snd (on_extrinsic_msg_submit_only J m c)) = c_outbox c"
    by (cases m) (auto simp: on_extrinsic_msg_submit_only_def st_then_same [where field = c_outbox] split: res.splits)
qed

interpretation subscription_handler: channel_handler "on_subscription_msg J" for J
proof
  fix m ps c
  show "on_subscription_msg J m (queued ps c) = apsnd (queued ps) (on_subscription_msg J m c)"
    unfolding on_subscription_msg_def
    by (intro st_then_pure_queued) (auto simp: send_or_close_queued Let_def intro!: st_then_pure_queued split: option.splits)
  show "length (c_results (snd (on_subscription_msg J m c))) \<le> Suc (length (c_results c))"
    using send_or_close_results
    by (cases m; cases "parse_json J (projr m)")
      (auto simp: on_subscription_msg_def Let_def split: option.splits)
  show "c_receiver (snd (on_subscription_msg J m c)) = c_receiver c"
    by (cases m; cases "parse_json J (projr m)")
      (auto simp: on_subscription_msg_def Let_def split: option.splits)
  show "c_outbox (snd (on_subscription_msg J m c)) = c_outbox c"
    by (cases m; cases "parse_json J (projr m)")
      (auto simp: on_subscription_msg_def Let_def split: option.splits)
qed

text \<open>The handlers the client installs.\<close>

definition client_handlers :: "serde \<Rightarrow> handler set" where
  "client_handlers J =
     {on_get_request_msg J, on_subscription_msg J, on_extrinsic_msg_submit_only J, on_extrinsic_msg_until_ready J,
      on_extrinsic_msg_until_broadcast J, on_extrinsic_msg_until_in_block J, on_extrinsic_msg_until_finalized J}"

lemma client_handlers: "h \<in> client_handlers J \<Longrightarrow> channel_handler h"
  unfolding client_handlers_def on_extrinsic_msg_until_ready_def on_extrinsic_msg_until_broadcast_def
    on_extrinsic_msg_until_in_block_def on_extrinsic_msg_until_finalized_def
  by (auto intro: get_handler.channel_handler_axioms extrinsic_handler.channel_handler_axioms
      submit_handler.channel_handler_axioms subscription_handler.channel_handler_axioms)

section \<open>The steps of the two threads\<close>

record 'a world =
  w_conn :: conn
  w_todo :: "message list"
  w_alive :: bool
  w_answer :: "(api_error, 'a) res option"

definition keeps :: "(ws_error \<Rightarrow> bool) \<Rightarrow> (ws_error, unit) res \<Rightarrow> bool" where
  "keeps survives r = (case r of Ok _ \<Rightarrow> True | Err e \<Rightarrow> survives e | _ \<Rightarrow> False)"

text \<open>The thread handles a message, or comes to its end; the caller takes a result out of the channel, finds the
  channel closed, or, once it has its answer, drops its end of it.\<close>

inductive thread_step ::
    "(ws_error \<Rightarrow> bool) \<Rightarrow> handler \<Rightarrow> bool \<Rightarrow> 'a reader \<Rightarrow> 'a world \<Rightarrow> 'a world \<Rightarrow> bool"
  for survives h ends rd where
  message: "\<lbrakk>w_alive w; w_todo w = m # ms; h m (w_conn w) = (r, c)\<rbrakk>
    \<Longrightarrow> thread_step survives h ends rd w (w\<lparr>w_conn := c, w_todo := ms, w_alive := keeps survives r\<rparr>)"
| finish: "\<lbrakk>w_alive w; w_todo w = []; ends\<rbrakk> \<Longrightarrow> thread_step survives h ends rd w (w\<lparr>w_alive := False\<rparr>)"
| take_result: "\<lbrakk>w_answer w = None; c_results (w_conn w) = s # ss\<rbrakk>
    \<Longrightarrow> thread_step survives h ends rd w (w\<lparr>w_conn := (w_conn w)\<lparr>c_results := ss\<rparr>, w_answer := rd s\<rparr>)"
| disconnected: "\<lbrakk>w_answer w = None; c_results (w_conn w) = []; \<not> w_alive w\<rbrakk>
    \<Longrightarrow> thread_step survives h ends rd w (w\<lparr>w_answer := Some (Err Disconnected)\<rparr>)"
| hang_up: "\<lbrakk>w_answer w = Some a; c_receiver (w_conn w)\<rbrakk>
    \<Longrightarrow> thread_step survives h ends rd w (w\<lparr>w_conn := (w_conn w)\<lparr>c_receiver := False\<rparr>\<rparr>)"

text \<open>A schedule of \<open>n\<close> steps.\<close>

inductive schedule ::
    "(ws_error \<Rightarrow> bool) \<Rightarrow> handler \<Rightarrow> bool \<Rightarrow> 'a reader \<Rightarrow> 'a world \<Rightarrow> nat \<Rightarrow> 'a world \<Rightarrow> bool"
  for survives h ends rd w where
  start: "schedule survives h ends rd w 0 w"
| more: "\<lbrakk>schedule survives h ends rd w n w'; thread_step survives h ends rd w' w''\<rbrakk>
    \<Longrightarrow> schedule survives h ends rd w (Suc n) w''"

inductive_cases thread_stepE: "thread_step survives h ends rd w w'"

text \<open>The steps on a world given by its fields.\<close>

lemma world_steps:
  "h m c = (r, c') \<Longrightarrow> thread_step survives h ends rd
     \<lparr>w_conn = c, w_todo = m # ms, w_alive = True, w_answer = a\<rparr>
     \<lparr>w_conn = c', w_todo = ms, w_alive = keeps survives r, w_answer = a\<rparr>"
  "c_results c = s # ss \<Longrightarrow> thread_step survives h ends rd
     \<lparr>w_conn = c, w_todo = ms, w_alive = up, w_answer = None\<rparr>
     \<lparr>w_conn = c\<lparr>c_results := ss\<rparr>, w_todo = ms, w_alive = up, w_answer = rd s\<rparr>"
  "c_receiver c \<Longrightarrow> thread_step survives h ends rd
     \<lparr>w_conn = c, w_todo = ms, w_alive = up, w_answer = Some b\<rparr>
     \<lparr>w_conn = c\<lparr>c_receiver := False\<rparr>, w_todo = ms, w_alive = up, w_answer = Some b\<rparr>"
  using message [of "\<lparr>w_conn = c, w_todo = m # ms, w_alive = True, w_answer = a\<rparr>" m ms h r c' survives ends rd]
    take_result [of "\<lparr>w_conn = c, w_todo = ms, w_alive = up, w_answer = None\<rparr>" s ss survives h ends rd]
    hang_up [of "\<lparr>w_conn = c, w_todo = ms, w_alive = up, w_answer = Some b\<rparr>" b survives h ends rd]
  by simp_all

text \<open>The world after \<^verbatim>\<open>spawn\<close>: the caller waits, the connection comes about or the thread has nothing to do
  but end.\<close>

definition spawned :: "ws_env \<Rightarrow> string \<Rightarrow> 'a world" where
  "spawned env jsonreq =
     (let s = node_session env (on_open jsonreq fresh_conn) in
      if s_connects s
      then \<lparr>w_conn = on_open jsonreq fresh_conn, w_todo = s_incoming s, w_alive = True, w_answer = None\<rparr>
      else \<lparr>w_conn = fresh_conn, w_todo = [], w_alive = True, w_answer = None\<rparr>)"

definition comes_to_end :: "ws_env \<Rightarrow> string \<Rightarrow> bool" where
  "comes_to_end env jsonreq =
     (let s = node_session env (on_open jsonreq fresh_conn) in s_connects s \<longrightarrow> s_ends s)"

section \<open>What is left to happen\<close>

text \<open>The end of the thread if it runs alone from here.\<close>

definition run_out :: "(ws_error \<Rightarrow> bool) \<Rightarrow> handler \<Rightarrow> bool \<Rightarrow> 'a world \<Rightarrow> bool \<times> conn" where
  "run_out survives h ends w =
     (if w_alive w then apfst (\<lambda>ended. ended \<or> ends) (run_handler survives h (w_todo w) (w_conn w))
      else (True, w_conn w))"

definition promised ::
    "(ws_error \<Rightarrow> bool) \<Rightarrow> handler \<Rightarrow> bool \<Rightarrow> 'a reader \<Rightarrow> 'a world \<Rightarrow> (api_error, 'a) res" where
  "promised survives h ends rd w =
     (case w_answer w of Some a \<Rightarrow> a | None \<Rightarrow> caller rd (run_out survives h ends w))"

lemma run_out_message:
  assumes "w_alive w" and "w_todo w = m # ms" and "h m (w_conn w) = (r, c)"
  shows "run_out survives h ends (w\<lparr>w_conn := c, w_todo := ms, w_alive := keeps survives r\<rparr>) = run_out survives h ends w"
  using assms by (cases r) (auto simp: run_out_def keeps_def)

text \<open>The steps that are left at most.\<close>

definition budget :: "'a world \<Rightarrow> nat" where
  "budget w = 2 * length (w_todo w) + length (c_results (w_conn w)) + (if w_alive w then 1 else 0) +
     (case w_answer w of None \<Rightarrow> 1 | Some _ \<Rightarrow> 0) + (if c_receiver (w_conn w) then 1 else 0)"

context channel_handler
begin

lemma run_out_queued:
  assumes "w_conn w = queued ps c"
  shows "run_out survives h ends w = apsnd (queued ps) (run_out survives h ends (w\<lparr>w_conn := c\<rparr>))"
  using assms by (simp add: run_out_def run_queued apfst_apsnd)

lemma step_keeps_promise:
  assumes "thread_step survives h ends rd w w'"
  shows "promised survives h ends rd w' = promised survives h ends rd w"
  using assms
proof cases
  case (message m ms r c)
  then show ?thesis using run_out_message [of w m ms h r c survives ends] by (simp add: promised_def split: option.splits)
next
  case finish
  then show ?thesis by (simp add: promised_def run_out_def split: option.splits)
next
  case (take_result s ss)
  let ?w = "w\<lparr>w_conn := (w_conn w)\<lparr>c_results := ss\<rparr>\<rparr>"
  have "w_conn w = queued [s] (w_conn ?w)" using take_result by (simp add: queued_def)
  from run_out_queued [OF this] have "run_out survives h ends w = apsnd (queued [s]) (run_out survives h ends ?w)"
    by simp
  moreover have "run_out survives h ends w' = run_out survives h ends ?w" using take_result by (simp add: run_out_def)
  ultimately show ?thesis
    using take_result by (cases "rd s") (simp_all add: promised_def caller_def queued_def)
next
  case disconnected
  then show ?thesis by (simp add: promised_def caller_def run_out_def)
next
  case (hang_up a)
  then show ?thesis by (simp add: promised_def)
qed

lemma step_spends:
  assumes "thread_step survives h ends rd w w'"
  shows "budget w' < budget w"
  using assms
proof cases
  case (message m ms r c)
  then show ?thesis using one_result [of m "w_conn w"] same_receiver [of m "w_conn w"] by (simp add: budget_def)
qed (auto simp: budget_def split: option.splits)

lemma schedule_keeps_promise:
  "schedule survives h ends rd w n w' \<Longrightarrow> promised survives h ends rd w' = promised survives h ends rd w"
  by (induction rule: schedule.induct) (auto simp: step_keeps_promise)

lemma schedule_spends: "schedule survives h ends rd w n w' \<Longrightarrow> n + budget w' \<le> budget w"
  by (induction rule: schedule.induct) (auto dest!: step_spends)

end

text \<open>A world without a step to take has its answer, unless none is coming.\<close>

lemma stuck_waits:
  assumes "\<nexists>w'. thread_step survives h ends rd w w'" and "w_answer w = None"
  shows "promised survives h ends rd w = OutOfFuel"
proof -
  have results: "c_results (w_conn w) = []"
    using assms take_result [of w _ _ survives h ends rd] by (cases "c_results (w_conn w)") auto
  then have alive: "w_alive w" using assms disconnected by blast
  have "w_todo w = []"
  proof (cases "w_todo w")
    case (Cons m ms)
    obtain r c where "h m (w_conn w) = (r, c)" by force
    with Cons alive have False using assms(1) message by blast
    then show ?thesis ..
  qed
  moreover from this have "\<not> ends" using assms(1) finish alive by blast
  ultimately show ?thesis
    using assms(2) results alive by (simp add: promised_def run_out_def caller_def)
qed

lemma spawned_promise:
  assumes "start_rpc_client_thread env req h = Ok t"
  shows "promised (goes_on env) h (comes_to_end env req) rd (spawned env req) = caller rd t"
  using assms
  by (auto simp: start_rpc_client_thread_def spawned_def comes_to_end_def run_out_def promised_def Let_def
      split: prod.splits option.splits if_splits)

end
