(* ===== verification/Client_Threads.thy ===== *)
theory Client_Threads
  imports Client_Api Ws_Threads
begin

text \<open>
  What the schedules of \<open>Ws_Threads\<close> mean for the calls of the client: whatever the order in which the
  thread of the connection and the caller take their steps, the call returns what \<open>Ws_Client\<close> says,
  and it does so within a bounded number of steps. The instance is a request answered by the first message.
\<close>

section \<open>A schedule\<close>

definition sample_answered :: "string \<Rightarrow> json list \<Rightarrow> string world" where
  "sample_answered req later =
     \<lparr>w_conn = (on_open req fresh_conn)\<lparr>c_closed := True, c_results := [], c_receiver := False\<rparr>,
      w_todo = map Inr (map (print_json serde_ref) later), w_alive = True, w_answer = Some (Ok (print_json serde_ref (JStr ''VXfK'')))\<rparr>"

lemma sample_schedule:
  "schedule (goes_on (sample_ws (sample_subscribed # later))) (on_get_request_msg serde_ref)
     (comes_to_end (sample_ws (sample_subscribed # later)) req) recv_reader
     (spawned (sample_ws (sample_subscribed # later)) req) 3 (sample_answered req later)"
proof -
  define c where "c = (on_open req fresh_conn)\<lparr>c_closed := True, c_results := [print_json serde_ref (JStr ''VXfK'')]\<rparr>"
  have "member sample_subscribed ''result'' = JStr ''VXfK''" by (simp add: sample_subscribed_def member_def)
  with on_get_request_msg_step [OF sample_texts(4), of req]
  have step: "on_get_request_msg serde_ref (Inr (print_json serde_ref sample_subscribed)) (on_open req fresh_conn) = (Ok (), c)"
    by (simp only: c_def)
  let ?ms = "map Inr (map (print_json serde_ref) later) :: message list"
  let ?step = "thread_step (\<lambda>_. False) (on_get_request_msg serde_ref) False recv_reader"
  let ?w0 = "\<lparr>w_conn = on_open req fresh_conn, w_todo = Inr (print_json serde_ref sample_subscribed) # ?ms,
      w_alive = True, w_answer = None\<rparr>"
  let ?w1 = "\<lparr>w_conn = c, w_todo = ?ms, w_alive = True, w_answer = None\<rparr>"
  let ?w2 = "\<lparr>w_conn = c\<lparr>c_results := []\<rparr>, w_todo = ?ms, w_alive = True,
      w_answer = Some (Ok (print_json serde_ref (JStr ''VXfK'')))\<rparr>"
  have "?step ?w0 ?w1" using world_steps(1) [of "on_get_request_msg serde_ref", OF step] by (simp add: keeps_def)
  moreover have "c_results c = [print_json serde_ref (JStr ''VXfK'')]" unfolding c_def by simp
  then have "?step ?w1 ?w2" using world_steps(2) [where c = c and rd = recv_reader] unfolding recv_reader_def by blast
  moreover have "c_receiver (c\<lparr>c_results := []\<rparr>)" by (simp add: c_def on_open_def fresh_conn_def)
  note world_steps(3) [OF this]
  then have "?step ?w2 (sample_answered req later)" unfolding sample_answered_def c_def by simp
  ultimately have "schedule (\<lambda>_. False) (on_get_request_msg serde_ref) False recv_reader ?w0 (Suc (Suc (Suc 0))) (sample_answered req later)"
    by (blast intro: schedule.intros)
  then show ?thesis by (simp add: spawned_def sample_ws_def comes_to_end_def numeral_3_eq_3)
qed

section \<open>Every schedule\<close>

text \<open>C7: whatever the order of the steps of the connection's thread and of the caller, an answer the caller gets
  is the one of the run in which the thread comes to its end first and the caller reads then, for
  each of the client's handlers and any caller that reads until it has its answer; \<^verbatim>\<open>recv\<close> and
  \<^verbatim>\<open>wait_for_raw_event\<close> are such callers.\<close>

theorem schedules_agree:
  assumes "h \<in> client_handlers J" and "start_rpc_client_thread env req h = Ok t"
    and "schedule (goes_on env) h (comes_to_end env req) rd (spawned env req) n w" and "w_answer w = Some a"
  shows "a = caller rd t \<and> recv t = caller recv_reader t \<and>
    wait_for_raw_event fuel S HX own module variant (Some d) t = caller (event_reader fuel S HX d module variant) t"
proof -
  have "promised (goes_on env) h (comes_to_end env req) rd w = promised (goes_on env) h (comes_to_end env req) rd (spawned env req)"
    by (rule channel_handler.schedule_keeps_promise [OF client_handlers [OF assms(1)] assms(3)])
  also have "\<dots> = caller rd t" by (rule spawned_promise [OF assms(2)])
  finally show ?thesis using assms(4) by (simp add: promised_def recv_caller wait_for_raw_event_caller)
qed

theorem schedules_agree_witness:
  "get_request serde_ref (sample_ws [sample_subscribed, sample_ready]) (JArr []) = Ok (print_json serde_ref (JStr ''VXfK''))"
proof -
  let ?env = "sample_ws [sample_subscribed, sample_ready]" and ?req = "print_json serde_ref (JArr [])"
  obtain t where t: "start_rpc_client_thread ?env ?req (on_get_request_msg serde_ref) = Ok t"
    by (simp add: start_rpc_client_thread_def sample_ws_def split: prod.splits)
  have "on_get_request_msg serde_ref \<in> client_handlers serde_ref" by (simp add: client_handlers_def)
  from schedules_agree [OF this t sample_schedule, of "Ok (print_json serde_ref (JStr ''VXfK''))"]
  have "recv t = Ok (print_json serde_ref (JStr ''VXfK''))" by (simp add: sample_answered_def)
  with t show ?thesis by (simp add: get_request_def ws_get_def)
qed

text \<open>C21: no schedule goes on for ever: it has at most two steps for a message of the node and three more. When neither
  thread can take another step, the caller has its answer, unless the node keeps the
  connection open and says nothing that answers.\<close>

theorem schedules_end:
  assumes "h \<in> client_handlers J" and "start_rpc_client_thread env req h = Ok t"
    and "schedule (goes_on env) h (comes_to_end env req) rd (spawned env req) n w"
  shows "n \<le> 2 * length (s_incoming (node env req)) + 3 \<and>
    ((\<nexists>w'. thread_step (goes_on env) h (comes_to_end env req) rd w w') \<longrightarrow>
      caller rd t = OutOfFuel \<or> w_answer w = Some (caller rd t))"
proof
  note handler = client_handlers [OF assms(1)]
  have "budget (spawned env req :: 'a world) \<le> 2 * length (s_incoming (node env req)) + 3"
    by (simp add: budget_def spawned_def on_open_def fresh_conn_def Let_def)
  with channel_handler.schedule_spends [OF handler assms(3)]
  show "n \<le> 2 * length (s_incoming (node env req)) + 3" by linarith
  have keep: "promised (goes_on env) h (comes_to_end env req) rd w = caller rd t"
    using channel_handler.schedule_keeps_promise [OF handler assms(3)] spawned_promise [OF assms(2)] by simp
  show "(\<nexists>w'. thread_step (goes_on env) h (comes_to_end env req) rd w w') \<longrightarrow>
      caller rd t = OutOfFuel \<or> w_answer w = Some (caller rd t)"
    using stuck_waits [of "goes_on env" h "comes_to_end env req" rd w] keep
    by (cases "w_answer w") (auto simp: promised_def)
qed

lemma sample_stuck: "\<not> thread_step (goes_on (sample_ws [sample_subscribed])) h (comes_to_end (sample_ws [sample_subscribed]) req) rd
    (sample_answered req []) w"
  by (auto elim!: thread_stepE simp: sample_answered_def comes_to_end_def sample_ws_def)

theorem schedules_end_witness:
  "\<exists>t. start_rpc_client_thread (sample_ws [sample_subscribed]) (print_json serde_ref (JArr [])) (on_get_request_msg serde_ref) = Ok t \<and>
    w_answer (sample_answered (print_json serde_ref (JArr [])) []) = Some (caller recv_reader t)"
proof -
  let ?env = "sample_ws [sample_subscribed]" and ?req = "print_json serde_ref (JArr [])"
  obtain t where t: "start_rpc_client_thread ?env ?req (on_get_request_msg serde_ref) = Ok t"
    by (simp add: start_rpc_client_thread_def sample_ws_def split: prod.splits)
  have "node ?env ?req = \<lparr>s_connects = True, s_incoming = Inr (print_json serde_ref sample_subscribed) # [], s_ends = False\<rparr>"
    by (simp add: sample_ws_def)
  then have "get_request serde_ref ?env (JArr []) = Ok (print_json serde_ref (member sample_subscribed ''result''))"
    by (rule get_request_first) (simp_all add: sample_ws_def sample_texts)
  with t have "caller recv_reader t \<noteq> OutOfFuel" by (auto simp: get_request_def ws_get_def recv_caller)
  moreover have "on_get_request_msg serde_ref \<in> client_handlers serde_ref" by (simp add: client_handlers_def)
  ultimately show ?thesis using schedules_end [OF _ t sample_schedule] sample_stuck t by blast
qed

end
