(* ===== verification/Submission.thy ===== *)
theory Submission
  imports Client_Threads Xt_Api
begin

text \<open>
  The way of an extrinsic from the client to the node, across the components: \<^verbatim>\<open>hex_encode\<close> of
  \<^verbatim>\<open>primitives\<close>, the request of \<^verbatim>\<open>json_req.rs\<close>, the web socket client, and on the other side a node that
  reads the text of the request. What the node does with it is \<open>read_submission\<close>: the JSON, the first
  parameter, the bytes of the hex string after \<^verbatim>\<open>0x\<close> (\<open>request_bytes\<close>), and the extrinsic in them. What it
  answers is open.
\<close>

definition request_bytes :: "serde \<Rightarrow> hex_crate \<Rightarrow> string \<Rightarrow> (string \<times> bytes) option" where
  "request_bytes J HX request =
     (case parse_json J request of
        Inl _ \<Rightarrow> None
      | Inr req \<Rightarrow>
          (case (as_str (member req ''method''), as_str (element (member req ''params'') 0)) of
             (Some method, Some xthex) \<Rightarrow>
               (if take 2 xthex = ''0x''
                then (case hex_decode HX (drop 2 xthex) of Inl _ \<Rightarrow> None | Inr bs \<Rightarrow> Some (method, bs))
                else None)
           | _ \<Rightarrow> None))"

definition submit_method :: "xt_status \<Rightarrow> string" where
  "submit_method exit_on =
     (if exit_on = SubmitOnly then ''author_submitExtrinsic'' else ''author_submitAndWatchExtrinsic'')"

definition submit_request :: "serde \<Rightarrow> string \<Rightarrow> xt_status \<Rightarrow> string" where
  "submit_request J xthex exit_on = print_json J (json_req (submit_method exit_on) (JArr [JStr xthex]) REQUEST_TRANSFER)"

definition supported :: "xt_status set" where
  "supported = {Finalized, InBlock, Broadcast, Ready, SubmitOnly}"

lemma submit_request_bytes:
  assumes "serde_laws J" and "hex_laws HX"
  shows "request_bytes J HX (submit_request J (''0x'' @ hex_encode HX bs) exit_on) = Some (submit_method exit_on, bs)"
  by (simp add: request_bytes_def submit_request_def serde_laws.parse_print [OF assms(1)] json_req_def as_str_def element_def
      hex_laws.hex_decode_encode [OF assms(2)])

text \<open>The handler that waits for the status.\<close>

definition handler_for :: "serde \<Rightarrow> xt_status \<Rightarrow> handler" where
  "handler_for J exit_on =
     (case exit_on of
        Finalized \<Rightarrow> on_extrinsic_msg_until_finalized J
      | InBlock \<Rightarrow> on_extrinsic_msg_until_in_block J
      | Broadcast \<Rightarrow> on_extrinsic_msg_until_broadcast J
      | Ready \<Rightarrow> on_extrinsic_msg_until_ready J
      | _ \<Rightarrow> on_extrinsic_msg_submit_only J)"

lemma handler_for_client: "exit_on \<in> supported \<Longrightarrow> handler_for J exit_on \<in> client_handlers J"
  by (auto simp: handler_for_def client_handlers_def supported_def)

lemma send_extrinsic_sends:
  assumes "exit_on \<in> supported"
    and "start_rpc_client_thread env (submit_request J xthex exit_on) (handler_for J exit_on) = Ok t"
  shows "send_extrinsic J HX env xthex exit_on =
    and_then (recv t) (\<lambda>res. if exit_on \<in> {Finalized, InBlock} then map_ok Some (hash_of_hex HX res) else Ok None)"
  using assms
  by (auto simp: supported_def handler_for_def send_extrinsic_def ws_methods submit_request_def submit_method_def map_ok_def
      author_submit_extrinsic_def author_submit_extrinsic_with_id_def
      author_submit_and_watch_extrinsic_def author_submit_and_watch_extrinsic_with_id_def)

text \<open>The messages of a session, handled on the connection over which the request went out.\<close>

definition listen :: "(ws_error \<Rightarrow> bool) \<Rightarrow> handler \<Rightarrow> session \<Rightarrow> string \<Rightarrow> bool \<times> conn" where
  "listen survives h s request =
     apfst (\<lambda>ended. ended \<or> s_ends s) (run_handler survives h (s_incoming s) (fresh_conn\<lparr>c_outbox := [request]\<rparr>))"

lemma thread_listens:
  assumes "spawn_error env = None" and "s_connects (node env request)"
  shows "start_rpc_client_thread env request h = Ok (listen (goes_on env) h (node env request) request)"
  using assms
  by (auto simp: start_rpc_client_thread_def listen_def Let_def on_open_def fresh_conn_def split: prod.splits)

text \<open>What a node reads in the text of a request: the method, and what the bytes are as an extrinsic.\<close>

definition read_submission ::
    "serde \<Rightarrow> hex_crate \<Rightarrow> scale \<Rightarrow> ('era, 'addr, 'sig) xt_codecs \<Rightarrow> 'call codec \<Rightarrow> string \<Rightarrow>
      (string \<times> (codec_error + ('call, 'addr, 'sig, 'era) unchecked_extrinsic \<times> bytes)) option" where
  "read_submission J HX S X C text =
     map_option (\<lambda>(method, bs). (method, decode_extrinsic S X C bs)) (request_bytes J HX text)"

text \<open>C16: \<^verbatim>\<open>send_extrinsic\<close> sends the extrinsic it is given, and nothing else: take a node that knows nothing but
  what it reads in the text it is sent, and answers it in any way. For every status the call can wait for, what it
  returns is made of the first result its handler puts into the channel in the session with which the node answers
  the method for the status and the extrinsic; and the request that goes out, the only text, reads as this method
  and the bytes of the extrinsic.\<close>

theorem submitted_extrinsic_is_read_back:
  assumes "serde_laws J" and "hex_laws HX" and "xt_laws S X C era_ok addr_ok sig_ok call_ok"
    and "ok_xt era_ok addr_ok sig_ok call_ok xt" and "length (extrinsic_body S X C xt) < 2 ^ 32"
    and "exit_on \<in> supported" and "spawn_error env = None"
    and "node env = (\<lambda>text. answer (read_submission J HX S X C text))"
    and "answer (Some (submit_method exit_on, Inr (xt, []))) = s" and "s_connects s"
  shows "\<exists>request thread.
    send_extrinsic J HX env (xt_hex_encode HX S sz X C xt) exit_on =
      and_then (recv thread) (\<lambda>res. if exit_on \<in> {Finalized, InBlock} then map_ok Some (hash_of_hex HX res) else Ok None) \<and>
    start_rpc_client_thread env request (handler_for J exit_on) = Ok thread \<and>
    thread = listen (goes_on env) (handler_for J exit_on) s request \<and> c_outbox (snd thread) = [request] \<and>
    request_bytes J HX request = Some (submit_method exit_on, encode_extrinsic S sz X C xt)"
proof -
  let ?xthex = "xt_hex_encode HX S sz X C xt" and ?h = "handler_for J exit_on"
  let ?request = "submit_request J ?xthex exit_on"
  have bytes: "request_bytes J HX ?request = Some (submit_method exit_on, encode_extrinsic S sz X C xt)"
    using submit_request_bytes [OF assms(1,2)] by (simp add: xt_hex_encode_def)
  have "decode_extrinsic S X C (encode_extrinsic S sz X C xt) = Inr (xt, [])"
    using xt_laws.decode_body [OF assms(3,4,5), of "[]"] by (simp add: encode_extrinsic_eq)
  then have node: "node env ?request = s" using bytes assms(8,9) by (simp add: read_submission_def)
  then have t: "start_rpc_client_thread env ?request ?h = Ok (listen (goes_on env) ?h s ?request)"
    using thread_listens [OF assms(7), of ?request ?h] assms(10) by simp
  moreover have "c_outbox (snd (listen (goes_on env) ?h s ?request)) = [?request]"
    using channel_handler.sends_request [OF client_handlers [OF handler_for_client [OF assms(6)]] t] node assms(10) by simp
  ultimately show ?thesis using send_extrinsic_sends [OF assms(6) t] bytes by blast
qed

text \<open>A node that says ready to the sample extrinsic, when it is to be watched, and closes any other connection.\<close>

definition sample_answer :: "(string \<times> (codec_error + (bytes, multi_address, multi_signature, era) unchecked_extrinsic \<times> bytes)) option \<Rightarrow> session" where
  "sample_answer read =
     (if read = Some (''author_submitAndWatchExtrinsic'', Inr (sample_xt, []))
      then \<lparr>s_connects = True, s_incoming = [Inr (print_json serde_ref sample_ready)], s_ends = False\<rparr>
      else \<lparr>s_connects = True, s_incoming = [], s_ends = True\<rparr>)"

definition sample_reader :: ws_env where
  "sample_reader = \<lparr>spawn_error = None, goes_on = (\<lambda>_. False),
     node = (\<lambda>text. sample_answer (read_submission serde_ref hex_ref scale_ref xt_ref byte_vec_codec text))\<rparr>"

theorem submitted_extrinsic_is_read_back_witness:
  "send_extrinsic serde_ref hex_ref sample_reader (xt_hex_encode hex_ref scale_ref 200 xt_ref byte_vec_codec sample_xt) Ready = Ok None"
proof -
  let ?s = "\<lparr>s_connects = True, s_incoming = [Inr (print_json serde_ref sample_ready)], s_ends = False\<rparr>"
  have "recv (listen survives (handler_for serde_ref Ready) ?s request) = Ok []" for survives request
    by (simp add: recv_def listen_def handler_for_def on_extrinsic_msg_until_ready_def on_extrinsic_msg_def sample_statuses
        end_process_def conn_close_def channel_send_def fresh_conn_def)
  then show ?thesis
    using submitted_extrinsic_is_read_back [OF json_fmt.serde_laws_axioms hex_fmt.hex_laws_axioms xt_fmt.xt_laws_axioms sample_xt_ok,
        of Ready sample_reader sample_answer ?s 200]
    by (auto simp: sample_xt_body supported_def sample_reader_def sample_answer_def submit_method_def)
qed

end
