(* ===== verification/Map_Listing.thy ===== *)
theory Map_Listing
  imports Client_Api
begin

text \<open>
  Listing a map of the chain's storage. A client asks for the keys under the prefix of a map
  (\<^verbatim>\<open>get_keys\<close>) or for the keys with their values (\<^verbatim>\<open>get_opaque_storage_pairs_by_key_hash\<close>) and takes the map
  keys out of the storage keys (\<^verbatim>\<open>extract_map_identifier\<close>). What it needs of the node and of the reader of JSON is the
  locale \<open>storage_listing\<close>; what it gets is the map (\<open>holds_map\<close>).
\<close>

section \<open>What the node lists\<close>

definition prefixed :: "hex_crate \<Rightarrow> bytes \<Rightarrow> string" where
  "prefixed HX b = ''0x'' @ hex_encode HX b"

definition prefixed_pair :: "hex_crate \<Rightarrow> (storage_key \<Rightarrow> bytes option) \<Rightarrow> storage_key \<Rightarrow> string \<times> string" where
  "prefixed_pair HX db k = (prefixed HX k, prefixed HX (the (db k)))"

definition json_of_pair :: "string \<times> string \<Rightarrow> json" where
  "json_of_pair ab = JArr [JStr (fst ab), JStr (snd ab)]"

text \<open>Every key of the table that starts with the prefix, once, in some order.\<close>

definition keys_under :: "(storage_key \<Rightarrow> bytes option) \<Rightarrow> storage_key \<Rightarrow> storage_key list \<Rightarrow> bool" where
  "keys_under db pre ks \<longleftrightarrow> distinct ks \<and> set ks = {k. prefix pre k \<and> db k \<noteq> None}"

locale storage_listing =
  fixes E :: api_env and cl :: client and db :: "storage_key \<Rightarrow> bytes option"
  assumes hex: "hex_laws (e_hex E)"
    and serde: "serde_laws (e_serde E)"
    and strings: "de_strings E (print_json (e_serde E) (JArr (map JStr ss))) = Inr ss"
    and pairs: "de_pairs E (print_json (e_serde E) (JArr (map json_of_pair kvs))) = Inr kvs"
    and lists_keys: "\<exists>ks. keys_under db pre ks \<and> cl_get_request cl (state_get_keys (e_serde E) pre at) =
      Ok (print_json (e_serde E) (JArr (map JStr (map (prefixed (e_hex E)) ks))))"
    and lists_pairs: "\<exists>ks. keys_under db pre ks \<and> cl_get_request cl (state_get_pairs (e_serde E) pre at) =
      Ok (print_json (e_serde E) (JArr (map json_of_pair (map (prefixed_pair (e_hex E) db) ks))))"
begin

lemma array_not_null: "json_ok (JArr vs) \<Longrightarrow> print_json (e_serde E) (JArr vs) \<noteq> ''null''"
  using serde_laws.print_inject [OF serde, of "JArr vs" JNull] serde_laws.print_null [OF serde] by auto

lemma bytes_of_prefixed [simp]: "bytes_of_hex (e_hex E) (prefixed (e_hex E) b) = Ok b"
  using hex_laws.vec_from_hex_encode(1) [OF hex, of b] by (simp add: bytes_of_hex_def prefixed_def)

lemma get_keys_lists:
  assumes "api_client self = cl"
  shows "\<exists>ks. keys_under db pre ks \<and> get_keys E self pre at = Ok (Some ks)"
proof -
  from lists_keys [of pre at] obtain ks where ks: "keys_under db pre ks"
    and sent: "cl_get_request cl (state_get_keys (e_serde E) pre at) =
      Ok (print_json (e_serde E) (JArr (map JStr (map (prefixed (e_hex E)) ks))))" by blast
  have "for_each (\<lambda>k ks. and_then (bytes_of_hex (e_hex E) k) (\<lambda>k. Ok (ks @ [k]))) (map (prefixed (e_hex E)) ks) acc =
      Ok (acc @ ks)" for acc
    by (induction ks arbitrary: acc) simp_all
  then have "get_keys E self pre at = Ok (Some ks)"
    using sent strings array_not_null [of "map JStr (map (prefixed (e_hex E)) ks)"] assms
    by (simp add: get_keys_def api_get_request_def get_request_opt_def some_with_def de_json_def list_all_iff del: map_map)
  with ks show ?thesis by blast
qed

lemma get_pairs_lists:
  assumes "api_client self = cl"
  shows "\<exists>ks. keys_under db pre ks \<and>
    get_opaque_storage_pairs_by_key_hash E self pre at = Ok (Some (map (\<lambda>k. (k, the (db k))) ks))"
proof -
  from lists_pairs [of pre at] obtain ks where ks: "keys_under db pre ks"
    and sent: "cl_get_request cl (state_get_pairs (e_serde E) pre at) =
      Ok (print_json (e_serde E) (JArr (map json_of_pair (map (prefixed_pair (e_hex E) db) ks))))" by blast
  have "for_each (\<lambda>(k, v) kv. and_then (bytes_of_hex (e_hex E) k) (\<lambda>k.
      and_then (bytes_of_hex (e_hex E) v) (\<lambda>v. Ok (kv @ [(k, v)])))) (map (prefixed_pair (e_hex E) db) ks) acc =
      Ok (acc @ map (\<lambda>k. (k, the (db k))) ks)" for acc
    by (induction ks arbitrary: acc) (simp_all add: prefixed_pair_def)
  then have "get_opaque_storage_pairs_by_key_hash E self pre at = Ok (Some (map (\<lambda>k. (k, the (db k))) ks))"
    using sent pairs array_not_null [of "map json_of_pair (map (prefixed_pair (e_hex E) db) ks)"] assms
    by (simp add: get_opaque_storage_pairs_by_key_hash_def api_get_request_def get_request_opt_def some_with_def
        de_json_def list_all_iff json_of_pair_def del: map_map)
  with ks show ?thesis by blast
qed

end

section \<open>What the client reads\<close>

text \<open>The table holds a map: the keys under its prefix are those of its entries, each with
  the encoded value of the entry. \<open>key\<close> gives the storage key of an entry.\<close>

definition holds_map ::
    "('e, storage_key) res \<Rightarrow> ('k \<Rightarrow> ('e, storage_key) res) \<Rightarrow> 'v codec \<Rightarrow> ('k \<rightharpoonup> 'v) \<Rightarrow> (storage_key \<Rightarrow> bytes option) \<Rightarrow> bool" where
  "holds_map pre key V m db \<longleftrightarrow>
     (\<forall>k. (\<exists>p. pre = Ok p \<and> prefix p k) \<and> db k \<noteq> None \<longleftrightarrow> (\<exists>x \<in> dom m. key x = Ok k)) \<and>
     (\<forall>x v k. m x = Some v \<and> key x = Ok k \<longrightarrow> db k = Some (encode V v))"

text \<open>An entry of a map out of a storage key, in which \<open>ident\<close> finds the key of the map, and the bytes stored under it.\<close>

definition read_entry :: "(bytes \<Rightarrow> (error, 'k \<times> bytes) res) \<Rightarrow> 'v codec \<Rightarrow> bytes \<times> bytes \<Rightarrow> ('k \<times> 'v) option" where
  "read_entry ident V kb =
     (case (ident (fst kb), decode V (snd kb)) of
        (Ok (x, []), Inr (v, [])) \<Rightarrow> Some (x, v)
      | _ \<Rightarrow> None)"

text \<open>Both ways to list give the map, every entry once.\<close>

definition lists_map ::
    "api_env \<Rightarrow> ('pub, 'psig) api \<Rightarrow> hash option \<Rightarrow> storage_key api_result \<Rightarrow> (bytes \<Rightarrow> (error, 'k \<times> bytes) res) \<Rightarrow> 'v codec \<Rightarrow>
       ('k \<rightharpoonup> 'v) \<Rightarrow> bool" where
  "lists_map E self at pre ident V m \<longleftrightarrow>
     (\<exists>p ks xs kvs entries. pre = Ok p \<and>
       get_keys E self p at = Ok (Some ks) \<and> map ident ks = map (\<lambda>x. Ok (x, [])) xs \<and> distinct xs \<and> set xs = dom m \<and>
       get_opaque_storage_pairs_by_key_hash E self p at = Ok (Some kvs) \<and>
       map (read_entry ident V) kvs = map Some entries \<and> distinct (map fst entries) \<and> map_of entries = m)"

lemma images_of_list:
  assumes "distinct ks" and "set ks = f ` D" and "\<And>x. x \<in> D \<Longrightarrow> g (f x) = x"
  shows "\<exists>xs. ks = map f xs \<and> distinct xs \<and> set xs = D"
proof (intro exI conjI)
  have fg: "f (g k) = k" if "k \<in> set ks" for k using assms(2,3) that by auto
  show "ks = map f (map g ks)" by (simp add: map_idI fg)
  show "distinct (map g ks)" using assms(1) fg by (metis distinct_map inj_on_inverseI)
  show "set (map g ks) = D" using assms(2,3) by force
qed

context storage_listing
begin

lemma lists_held_map:
  assumes "api_client self = cl" and "holds_map (Ok pre) (\<lambda>x. Ok (f x)) V m db" and "roundtrip_codec V val_ok"
    and "\<And>x v. m x = Some v \<Longrightarrow> val_ok v \<and> ident (f x) = Ok (x, [])"
  shows "lists_map E self at (Ok pre) ident V m"
proof -
  define g where "g k = (case ident k of Ok (x, _) \<Rightarrow> x | _ \<Rightarrow> undefined)" for k
  have found: "ident (f x) = Ok (x, [])" if "x \<in> dom m" for x using assms(4) that by auto
  have stored: "db (f x) = Some (encode V (the (m x)))" if "x \<in> dom m" for x
    using assms(2) that by (auto simp: holds_map_def)
  have under: "{k. prefix pre k \<and> db k \<noteq> None} = f ` dom m" using assms(2) by (auto simp: holds_map_def)
  have listed: "\<exists>xs. ks = map f xs \<and> distinct xs \<and> set xs = dom m" if "keys_under db pre ks" for ks
    using that under by (intro images_of_list [of ks f "dom m" g]) (auto simp: keys_under_def g_def found)
  obtain xs where keys: "get_keys E self pre at = Ok (Some (map f xs))" "distinct xs" "set xs = dom m"
    using get_keys_lists [OF assms(1), of pre at] listed by blast
  obtain ys where pairs: "get_opaque_storage_pairs_by_key_hash E self pre at = Ok (Some (map (\<lambda>k. (k, the (db k))) (map f ys)))"
    "distinct ys" "set ys = dom m"
    using get_pairs_lists [OF assms(1), of pre at] listed by blast
  let ?entries = "map (\<lambda>x. (x, the (m x))) ys"
  have "read_entry ident V (f x, the (db (f x))) = Some (x, the (m x))" if "x \<in> dom m" for x
    using that found [OF that] stored [OF that] assms(4) roundtrip_codec.decode_encode_end [OF assms(3)]
    by (auto simp: read_entry_def)
  then have "map (read_entry ident V) (map (\<lambda>k. (k, the (db k))) (map f ys)) = map Some ?entries"
    using pairs(3) by simp
  moreover have "map_of ?entries = m"
    using pairs(3) by (auto simp: map_of_map_restrict restrict_map_def dom_def)
  moreover have "map ident (map f xs) = map (\<lambda>x. Ok (x, [])) xs" using keys(3) found by simp
  moreover have "distinct (map fst ?entries)" using pairs(2) by (simp add: o_def)
  ultimately show ?thesis unfolding lists_map_def using keys pairs(1) by blast
qed

end

text \<open>C17: a map of the storage can be listed: the keys the node has under the prefix of the map are those of
  its entries, \<^verbatim>\<open>extract_map_identifier\<close> on each gives the map keys, every one once; and the pairs of keys
  and values read as the entries of the map.\<close>

theorem listing_recovers_map:
  assumes "scale_laws S" and "hash_sizes (e_hashers E)" and "storage_listing E (api_client self) db"
    and "roundtrip_codec K key_ok" and "roundtrip_codec V val_ok"
    and "pallet (api_metadata self) p = Ok pm" and "storage pm e = Ok se" and "get_map se p = Ok sm"
    and "concat_hasher (sm_hasher sm)" and "\<forall>x v. m x = Some v \<longrightarrow> key_ok x \<and> val_ok v"
    and "holds_map (storage_map_key_prefix (e_hashers E) (api_metadata self) p e)
      (storage_map_key (e_hashers E) K (api_metadata self) p e) V m db"
  shows "lists_map E self at (get_storage_map_key_prefix E self p e) (extract_map_identifier S K (sm_hasher sm)) V m"
proof -
  define pre where "pre = key_prefix (e_hashers E) p (se_name se)"
  have "\<exists>hs a b. se_ty se = MapEntry hs a b"
    using assms(8) by (auto simp: get_map_def split: storage_entry_type.splits)
  then have "storage_map_key_prefix (e_hashers E) (api_metadata self) p e = Ok pre"
    using assms(6,7) by (simp add: storage_map_key_prefix_def get_map_prefix_Ok_iff pre_def)
  then have prefix_key: "storage_map_key_prefix (e_hashers E) (api_metadata self) p e = Ok pre" by simp
  have key: "storage_map_key (e_hashers E) K (api_metadata self) p e = (\<lambda>x. Ok (pre @ key_hash (e_hashers E) K x (sm_hasher sm)))"
    using assms(6-8) by (intro ext) (simp add: storage_map_key_def get_map_key pre_def)
  note held = assms(11) [unfolded prefix_key key]
  have "val_ok v \<and> extract_map_identifier S K (sm_hasher sm) (pre @ key_hash (e_hashers E) K x (sm_hasher sm)) = Ok (x, [])"
    if "m x = Some v" for x v
    using assms(10) that scale_laws.extract_map_identifier_key [OF assms(1,9,2,4), of x p "se_name se" "[]"]
    by (simp add: pre_def)
  from storage_listing.lists_held_map [OF assms(3) refl held assms(5) this]
  show ?thesis by (simp add: get_storage_map_key_prefix_def prefix_key)
qed

text \<open>C24: the entries of a double map with a given first key can be listed: under the partial key that
  \<^verbatim>\<open>get_storage_double_map_partial_prefix\<close> gives, and \<^verbatim>\<open>extract_double_map_identifier\<close> finds the second keys.\<close>

theorem listing_recovers_double_map:
  assumes "scale_laws S" and "hash_sizes (e_hashers E)" and "storage_listing E (api_client self) db"
    and "roundtrip_codec Q key_ok" and "roundtrip_codec V val_ok"
    and "pallet (api_metadata self) p = Ok pm" and "storage pm e = Ok se" and "get_double_map se p = Ok sd"
    and "concat_hasher (sd_hasher sd)" and "concat_hasher (sd_key2_hasher sd)"
    and "\<forall>x v. m x = Some v \<longrightarrow> key_ok x \<and> val_ok v"
    and "holds_map (storage_double_map_partial_key (e_hashers E) K (api_metadata self) p e key1)
      (storage_double_map_key (e_hashers E) K Q (api_metadata self) p e key1) V m db"
  shows "lists_map E self at (get_storage_double_map_partial_prefix E K self p e key1)
    (extract_double_map_identifier S Q K (sd_hasher sd) (sd_key2_hasher sd) key1) V m"
proof -
  define pre where "pre = key_prefix (e_hashers E) p (se_name se) @ key_hash (e_hashers E) K key1 (sd_hasher sd)"
  have "double_map_partial_key (e_hashers E) K sd key1 = pre"
    using assms(8) by (auto simp: get_double_map_def double_map_partial_key_def key_prefix_def pre_def
        split: storage_entry_type.splits)
  with partial_key_agrees [OF assms(8), of "e_hashers E" K key1]
  have prefix_key: "storage_double_map_partial_key (e_hashers E) K (api_metadata self) p e key1 = Ok pre"
    using assms(6,7) by (simp add: storage_double_map_partial_key_def)
  have key: "storage_double_map_key (e_hashers E) K Q (api_metadata self) p e key1 =
      (\<lambda>x. Ok (pre @ key_hash (e_hashers E) Q x (sd_key2_hasher sd)))"
    using assms(6-8) get_double_map_key [OF assms(8)] by (intro ext) (simp add: storage_double_map_key_def pre_def)
  note held = assms(12) [unfolded prefix_key key]
  have "val_ok v \<and> extract_double_map_identifier S Q K (sd_hasher sd) (sd_key2_hasher sd) key1
      (pre @ key_hash (e_hashers E) Q x (sd_key2_hasher sd)) = Ok (x, [])" if "m x = Some v" for x v
    using assms(11) that
      scale_laws.extract_double_map_identifier_key [OF assms(1,9,10,2,4), of x K key1 p "se_name se" "[]"]
    by (simp add: pre_def)
  from storage_listing.lists_held_map [OF assms(3) refl held assms(5) this]
  show ?thesis by (simp add: get_storage_double_map_partial_prefix_def prefix_key)
qed

section \<open>A node that lists its table\<close>

definition list_answer :: "(storage_key \<times> bytes) list \<Rightarrow> json \<Rightarrow> json" where
  "list_answer db req =
     (case (as_str (member req ''method''), as_str (element (member req ''params'') 0)) of
        (Some method, Some param) \<Rightarrow>
          (case hex_decode hex_ref (drop 2 param) of
             Inl _ \<Rightarrow> JNull
           | Inr pre \<Rightarrow>
               (let ks = filter (prefix pre) (remdups (map fst db)) in
                if method = ''state_getKeys'' then JArr (map JStr (map (prefixed hex_ref) ks))
                else if method = ''state_getPairs'' then JArr (map json_of_pair (map (prefixed_pair hex_ref (map_of db)) ks))
                else JNull))
      | _ \<Rightarrow> JNull)"

interpretation list_chain: answering_node serde_ref "list_answer db" for db
  by unfold_locales (simp add: list_answer_def Let_def list_all_iff json_of_pair_def split: option.splits sum.splits)

definition list_client :: "(storage_key \<times> bytes) list \<Rightarrow> client" where
  "list_client db = ws_client serde_ref hex_ref (responding serde_ref (list_answer db))"

lemma keys_under_filter: "keys_under (map_of db) pre (filter (prefix pre) (remdups (map fst db)))"
  by (auto simp: keys_under_def map_of_eq_None_iff)

lemma list_answers:
  "list_answer db (state_get_keys serde_ref pre at) =
     JArr (map JStr (map (prefixed hex_ref) (filter (prefix pre) (remdups (map fst db)))))"
  "list_answer db (state_get_pairs serde_ref pre at) =
     JArr (map json_of_pair (map (prefixed_pair hex_ref (map_of db)) (filter (prefix pre) (remdups (map fst db)))))"
  by (simp_all add: list_answer_def state_get_keys_def state_get_pairs_def json_req_def element_def as_str_def serde_ref_def
      hex_fmt.hex_decode_encode)

interpretation listing: storage_listing sample_env "list_client db" "map_of db" for db
proof (rule storage_listing.intro)
  show "hex_laws (e_hex sample_env)" by (simp add: sample_env_def hex_fmt.hex_laws_axioms)
  show "serde_laws (e_serde sample_env)" by (simp add: sample_env_def json_fmt.serde_laws_axioms)
  show "de_strings sample_env (print_json (e_serde sample_env) (JArr (map JStr ss))) = Inr ss" for ss
    using collect_json_print [of as_str JStr ss] by (simp add: sample_env_def as_str_def)
  show "de_pairs sample_env (print_json (e_serde sample_env) (JArr (map json_of_pair kvs))) = Inr kvs" for kvs
    using collect_json_print [of as_pair json_of_pair kvs] by (simp add: sample_env_def as_pair_def json_of_pair_def)
  have keys: "json_ok (state_get_keys serde_ref pre at)" and pairs: "json_ok (state_get_pairs serde_ref pre at)" for pre at
    by (simp_all add: state_get_keys_def state_get_pairs_def json_req_def json_fmt.ser_ok json_fmt.ser_option_ok)
  show "\<exists>ks. keys_under (map_of db) pre ks \<and> cl_get_request (list_client db) (state_get_keys (e_serde sample_env) pre at) =
      Ok (print_json (e_serde sample_env) (JArr (map JStr (map (prefixed (e_hex sample_env)) ks))))" for pre at
    using keys_under_filter list_chain.over_ws.answers [OF keys, of hex_ref db pre at] list_answers(1)
    unfolding list_client_def sample_env_def by (simp del: map_map) blast
  show "\<exists>ks. keys_under (map_of db) pre ks \<and> cl_get_request (list_client db) (state_get_pairs (e_serde sample_env) pre at) =
      Ok (print_json (e_serde sample_env) (JArr (map json_of_pair (map (prefixed_pair (e_hex sample_env) (map_of db)) ks))))" for pre at
    using keys_under_filter list_chain.over_ws.answers [OF pairs, of hex_ref db pre at] list_answers(2)
    unfolding list_client_def sample_env_def by (simp del: map_map) blast
qed

text \<open>Two accounts, two entries of a double map under the first key 5, and a key that is none of these.\<close>

definition account_key :: "u32 \<Rightarrow> storage_key" where
  "account_key x = key_prefix sample_hashers ''System'' ''Account'' @ key_hash sample_hashers (word_codec 4) x Blake2_128Concat"

definition nested_prefix :: storage_key where
  "nested_prefix = key_prefix sample_hashers ''System'' ''Nested'' @ key_hash sample_hashers (word_codec 2) (5 :: u16) Twox64Concat"

definition nested_key :: "u32 \<Rightarrow> storage_key" where
  "nested_key x = nested_prefix @ key_hash sample_hashers (word_codec 4) x Blake2_128Concat"

definition sample_accounts :: "(storage_key \<times> bytes) list" where
  "sample_accounts = [(account_key 77, [5, 0, 0, 0]), ([1], [9]), (account_key 78, [6, 0, 0, 0])]"

definition sample_slice :: "(storage_key \<times> bytes) list" where
  "sample_slice = [(nested_key 78, [6, 0, 0, 0]), (nested_key 77, [5, 0, 0, 0]), ([1], [9])]"

definition list_api :: "(storage_key \<times> bytes) list \<Rightarrow> (bytes, bytes) api" where
  "list_api db = (sample_api [])\<lparr>api_client := list_client db\<rparr>"

lemma sample_account_map:
  "get_map sample_account ''System'' = Ok \<lparr>sm_module_prefix = as_bytes ''System'', sm_storage_prefix = as_bytes ''Account'',
     sm_hasher = Blake2_128Concat\<rparr>"
  "storage_map_key sample_hashers (word_codec 4) sample_metadata ''System'' ''Account'' x = Ok (account_key x)"
  "storage_map_key_prefix sample_hashers sample_metadata ''System'' ''Account'' = Ok (key_prefix sample_hashers ''System'' ''Account'')"
  by (simp_all add: get_map_def sample_account_def hasher_at_def storage_map_key_def storage_map_key_prefix_def
      get_map_prefix_def sample_lookups storage_map_bytes_def account_key_def key_prefix_def)

lemma sample_nested_map:
  "get_double_map sample_nested ''System'' = Ok \<lparr>sd_module_prefix = as_bytes ''System'', sd_storage_prefix = as_bytes ''Nested'',
     sd_hasher = Twox64Concat, sd_key2_hasher = Blake2_128Concat\<rparr>"
  "storage_double_map_key sample_hashers (word_codec 2) (word_codec 4) sample_metadata ''System'' ''Nested'' (5 :: u16) x = Ok (nested_key x)"
  "storage_double_map_partial_key sample_hashers (word_codec 2) sample_metadata ''System'' ''Nested'' (5 :: u16) = Ok nested_prefix"
  by (simp_all add: get_double_map_def sample_nested_def hasher_at_def storage_double_map_key_def storage_double_map_partial_key_def
      get_double_map_prefix_def sample_lookups double_map_key_def nested_key_def nested_prefix_def key_prefix_def)

text \<open>A table with the keys 77 and 78 below a prefix holds the map of both.\<close>

lemma sample_holds:
  assumes "32 \<le> length pre" and "\<And>x. key x = pre @ key_hash sample_hashers (word_codec 4 :: u32 codec) x Blake2_128Concat"
    and "set db = {(key 77, [5, 0, 0, 0]), (key 78, [6, 0, 0, 0]), ([1], [9])}" and "distinct (map fst db)"
  shows "holds_map (Ok pre) (\<lambda>x. Ok (key x)) (word_codec 4) ([77 \<mapsto> 5, 78 \<mapsto> 6] :: u32 \<rightharpoonup> u32) (map_of db)"
proof -
  have under: "prefix pre (key x)" for x by (simp add: assms(2))
  have other: "\<not> prefix pre [1]" using assms(1) by (auto dest: prefix_length_le)
  have inj: "key x = key y \<longleftrightarrow> x = y" for x y
    using concat_key_hash_inject [OF scale_fmt.scale_roundtrip(2) TrueI TrueI _ sample_hash_sizes, of Blake2_128Concat x "[]" y "[]"]
    by (auto simp: assms(2) concat_hasher_def scale_ref_sel)
  have enc: "encode (word_codec 4) (5 :: u32) = [5, 0, 0, 0]" "encode (word_codec 4) (6 :: u32) = [6, 0, 0, 0]"
    by (simp_all add: ref_eval)
  have table: "map_of db k = Some b \<longleftrightarrow> (k, b) \<in> set db" for k b
    using assms(4) by (rule map_of_eq_Some_iff)
  have "map_of db k \<noteq> None \<longleftrightarrow> k \<in> {key 77, key 78, [1]}" for k
    using table [of k] assms(3) by auto
  then have "prefix pre k \<and> map_of db k \<noteq> None \<longleftrightarrow> k \<in> {key 77, key 78}" for k
    using under other by auto
  moreover have "map_of db (key 77) = Some [5, 0, 0, 0]" "map_of db (key 78) = Some [6, 0, 0, 0]"
    by (simp_all add: table assms(3))
  ultimately show ?thesis
    unfolding holds_map_def by (auto simp: inj enc split: if_splits)
qed

lemma nested_prefix_length: "32 \<le> length nested_prefix"
  by (simp add: nested_prefix_def length_key_prefix [OF sample_hash_sizes])

lemma sample_held:
  "holds_map (storage_map_key_prefix sample_hashers sample_metadata ''System'' ''Account'')
     (storage_map_key sample_hashers (word_codec 4) sample_metadata ''System'' ''Account'') (word_codec 4)
     ([77 \<mapsto> 5, 78 \<mapsto> 6] :: u32 \<rightharpoonup> u32) (map_of sample_accounts)"
  "holds_map (storage_double_map_partial_key sample_hashers (word_codec 2) sample_metadata ''System'' ''Nested'' (5 :: u16))
     (storage_double_map_key sample_hashers (word_codec 2) (word_codec 4) sample_metadata ''System'' ''Nested'' (5 :: u16)) (word_codec 4)
     ([77 \<mapsto> 5, 78 \<mapsto> 6] :: u32 \<rightharpoonup> u32) (map_of sample_slice)"
proof -
  have lengths: "length (account_key x) \<noteq> Suc 0" "length (nested_key x) \<noteq> Suc 0" for x
    using nested_prefix_length by (simp_all add: account_key_def nested_key_def length_key_prefix [OF sample_hash_sizes])
  then have other: "account_key x \<noteq> [1]" "nested_key x \<noteq> [1]" for x by (metis One_nat_def length_Cons list.size(3))+
  have inj: "pre @ key_hash sample_hashers (word_codec 4 :: u32 codec) 77 Blake2_128Concat \<noteq>
      pre @ key_hash sample_hashers (word_codec 4 :: u32 codec) 78 Blake2_128Concat" for pre
    using concat_key_hash_inject [OF scale_fmt.scale_roundtrip(2) TrueI TrueI _ sample_hash_sizes, of Blake2_128Concat 77 "[]" 78 "[]"]
    by (auto simp: concat_hasher_def scale_ref_sel)
  have keys: "distinct (map fst sample_accounts)" "distinct (map fst sample_slice)"
    using other other [symmetric] inj [of "key_prefix sample_hashers ''System'' ''Account''"] inj [of nested_prefix]
    by (simp_all add: sample_accounts_def sample_slice_def account_key_def nested_key_def)
  show "holds_map (storage_map_key_prefix sample_hashers sample_metadata ''System'' ''Account'')
     (storage_map_key sample_hashers (word_codec 4) sample_metadata ''System'' ''Account'') (word_codec 4)
     ([77 \<mapsto> 5, 78 \<mapsto> 6] :: u32 \<rightharpoonup> u32) (map_of sample_accounts)"
    unfolding sample_account_map
    by (rule sample_holds [OF _ account_key_def _ keys(1)])
      (auto simp: length_key_prefix [OF sample_hash_sizes] sample_accounts_def)
  show "holds_map (storage_double_map_partial_key sample_hashers (word_codec 2) sample_metadata ''System'' ''Nested'' (5 :: u16))
     (storage_double_map_key sample_hashers (word_codec 2) (word_codec 4) sample_metadata ''System'' ''Nested'' (5 :: u16)) (word_codec 4)
     ([77 \<mapsto> 5, 78 \<mapsto> 6] :: u32 \<rightharpoonup> u32) (map_of sample_slice)"
    unfolding sample_nested_map
    by (rule sample_holds [OF nested_prefix_length nested_key_def _ keys(2)]) (auto simp: sample_slice_def)
qed

lemma list_api_sel: "api_client (list_api db) = list_client db" "api_metadata (list_api db) = sample_metadata"
  by (simp_all add: list_api_def sample_api_def)

theorem listing_recovers_map_witness:
  "lists_map sample_env (list_api sample_accounts) None
     (get_storage_map_key_prefix sample_env (list_api sample_accounts) ''System'' ''Account'')
     (extract_map_identifier scale_ref (word_codec 4) Blake2_128Concat) (word_codec 4) ([77 \<mapsto> 5, 78 \<mapsto> 6] :: u32 \<rightharpoonup> u32)"
proof -
  have env: "e_hashers sample_env = sample_hashers" by (simp add: sample_env_def)
  have rt: "roundtrip_codec (word_codec 4 :: u32 codec) (\<lambda>_. True)"
    using scale_fmt.scale_roundtrip(2) by (simp only: scale_ref_sel)
  note listing.storage_listing_axioms [of sample_accounts, folded list_api_sel(1) [of sample_accounts]]
  note listing_recovers_map [OF scale_fmt.scale_laws_axioms _ this rt rt, unfolded list_api_sel env,
      OF sample_hash_sizes sample_lookups(1,5) sample_account_map(1) _ _ sample_held(1), of None]
  then show ?thesis by (simp add: concat_hasher_def)
qed

theorem listing_recovers_double_map_witness:
  "lists_map sample_env (list_api sample_slice) None
     (get_storage_double_map_partial_prefix sample_env (word_codec 2) (list_api sample_slice) ''System'' ''Nested'' (5 :: u16))
     (extract_double_map_identifier scale_ref (word_codec 4) (word_codec 2) Twox64Concat Blake2_128Concat (5 :: u16)) (word_codec 4)
     ([77 \<mapsto> 5, 78 \<mapsto> 6] :: u32 \<rightharpoonup> u32)"
proof -
  have env: "e_hashers sample_env = sample_hashers" by (simp add: sample_env_def)
  have rt: "roundtrip_codec (word_codec 4 :: u32 codec) (\<lambda>_. True)"
    using scale_fmt.scale_roundtrip(2) by (simp only: scale_ref_sel)
  note listing.storage_listing_axioms [of sample_slice, folded list_api_sel(1) [of sample_slice]]
  note listing_recovers_double_map [OF scale_fmt.scale_laws_axioms _ this rt rt, unfolded list_api_sel env,
      OF sample_hash_sizes sample_lookups(1,7) sample_nested_map(1) _ _ _ sample_held(2), of None]
  then show ?thesis by (simp add: concat_hasher_def)
qed

end
