(* ===== verification/Stored_Signer.thy ===== *)
theory Stored_Signer
  imports Keystore_Api Xt_Api
begin

text \<open>
  The keystore as the source of signers: a key that \<^verbatim>\<open>KeystoreExt::generate\<close> made is listed and found again
  after the program was started anew, and an extrinsic composed with it is accepted by a node. Both
  components see the same key scheme: \<open>scheme_pair\<close> is the pair of the scheme as the macros of
  \<^verbatim>\<open>compose-macros\<close> use it.
\<close>

definition scheme_pair :: "'pair crypto \<Rightarrow> 'pair \<Rightarrow> (bytes, bytes) pair" where
  "scheme_pair C p = \<lparr>pair_public = public_raw C p, pair_sign = sign_encoded C p\<rparr>"

text \<open>The signatures of a scheme verify under the address of the pair that made them, and both are
  values of the types of an extrinsic.\<close>

definition scheme_verifies ::
    "'pair crypto \<Rightarrow> (bytes, bytes, 'acc, 'addr, 'sig) conversions \<Rightarrow> ('addr \<Rightarrow> bool) \<Rightarrow> ('sig \<Rightarrow> bool) \<Rightarrow>
       ('addr \<Rightarrow> 'sig \<Rightarrow> bytes \<Rightarrow> bool) \<Rightarrow> bool" where
  "scheme_verifies C V addr_ok sig_ok verify \<longleftrightarrow>
     (\<forall>p. addr_ok (address_from V (into_account V (public_raw C p)))) \<and>
     (\<forall>p m. sig_ok (into_signature V (sign_encoded C p m)) \<and>
       verify (address_from V (into_account V (public_raw C p))) (into_signature V (sign_encoded C p m)) m)"

context hex_laws
begin

lemma reopened:
  assumes "opened J (self, f)" and "ks_path self = Some p"
  shows "local_open p pw f = (Ok \<lparr>ks_path = Some p, ks_additional = [], ks_password = pw\<rparr>, f)"
    and "opened J (\<lparr>ks_path = Some p, ks_additional = [], ks_password = pw\<rparr>, f)"
proof -
  have "create_dir_all p f = (Ok (), f)"
    using assms by (intro create_dir_all_exists) (auto simp: opened_def store_ok_def store_dir_def)
  then show "local_open p pw f = (Ok \<lparr>ks_path = Some p, ks_additional = [], ks_password = pw\<rparr>, f)"
    by (simp add: local_open_def open_store_def)
  show "opened J (\<lparr>ks_path = Some p, ks_additional = [], ks_password = pw\<rparr>, f)"
    using assms by (simp add: opened_def store_ok_def)
qed

lemma generated_pair_survives:
  assumes "json_strings J" and "phrases_recover C" and "opened J (self, f)" and "ks_path self = Some p"
    and "length app_id = 4"
    and "\<forall>q. public_raw C q \<noteq> [] \<and> public_from_slice C (public_raw C q) = Some (public_raw C q)"
  shows "\<exists>pair g store l. generate HX J C app_id entropy (self, f) = (Ok pair, (self, g)) \<and>
    local_open p (ks_password self) g = (Ok store, g) \<and>
    public_keys HX C app_id store g = Ok l \<and> public_raw C pair \<in> set l \<and>
    key_pair HX J C app_id store g (public_raw C pair) = Ok (Some pair)"
proof -
  obtain pair phrase where gen: "generate_with_phrase C entropy (password self) = (pair, phrase)" by force
  let ?k = "(app_id, public_raw C pair)"
  from insert_unknown_sim [OF assms(1,3,5), of phrase "public_raw C pair"] obtain g
    where g: "insert_unknown HX J self app_id phrase (public_raw C pair) f = (Ok (), g)" "opened J (self, g)"
      and abs: "abs_store HX J (self, g) = a_put_disk ?k phrase (abs_store HX J (self, f))"
    by blast
  have new: "generate HX J C app_id entropy (self, f) = (Ok pair, (self, g))"
    using generate_by_type_file [OF _ gen g(1)] assms(4) by (simp add: generate_def)
  define store where "store = \<lparr>ks_path = Some p, ks_additional = [], ks_password = ks_password self\<rparr>"
  note reopen = reopened [OF g(2) assms(4), of "ks_password self", folded store_def]
  have ok: "store_ok J store g" using reopen(2) by (simp add: opened_def)
  have "a_disk (abs_store HX J (self, g)) \<noteq> None \<and> the (a_disk (abs_store HX J (self, g))) ?k = Some phrase"
    using abs assms(4) by (simp add: a_put_disk_def abs_store_def)
  then have phrase: "stored HX J store g ?k = Some phrase"
    using assms(4,5) by (simp add: abs_store_def typed_keys_def stored_def store_def hm_get_empty)
  have "from_string C phrase (password self) = Some pair"
    using assms(2) gen unfolding phrases_recover_def by (metis fst_conv snd_conv)
  then have "key_pair HX J C app_id store g (public_raw C pair) = Ok (Some pair)"
    using key_phrase_by_type_stored [OF assms(1) ok] phrase
    by (simp add: key_pair_def key_pair_by_type_def password_def store_def)
  moreover obtain l where "raw_public_keys HX store g app_id = Ok l" "public_raw C pair \<in> set l"
    using stored_listed [OF ok phrase assms(5)] assms(6) by blast
  then have "\<exists>l. public_keys HX C app_id store g = Ok l \<and> public_raw C pair \<in> set l"
    using assms(6) by (auto simp: public_keys_def map_filter_member)
  ultimately show ?thesis using new reopen(1) by blast
qed

end

text \<open>C18: a key of the keystore signs transactions: \<^verbatim>\<open>generate\<close> makes a key; when the program is started anew and
  opens the store with the same password, \<^verbatim>\<open>public_keys\<close> lists the key, \<^verbatim>\<open>key_pair\<close> finds it,
  and a node accepts what \<^verbatim>\<open>compose_extrinsic_offline!\<close> composes with it.\<close>

theorem stored_key_signs_transactions:
  assumes "hex_laws HX" and "json_strings KJ" and "phrases_recover KC" and "opened KJ (self, f)"
    and "ks_path self = Some p" and "length app_id = 4"
    and "\<forall>q. public_raw KC q \<noteq> [] \<and> public_from_slice KC (public_raw KC q) = Some (public_raw KC q)"
    and "xt_laws S X C era_ok addr_ok sig_ok call_ok" and "call_ok cl" and "era_ok era"
    and "scheme_verifies KC V addr_ok sig_ok verify"
    and "\<forall>q. length (extrinsic_body S X C (compose_extrinsic_offline S H X C V (scheme_pair KC q) cl nonce era
      genesis current spec tx)) < 2 ^ 32"
  shows "\<exists>pair g store l. generate HX KJ KC app_id entropy (self, f) = (Ok pair, (self, g)) \<and>
    local_open p (ks_password self) g = (Ok store, g) \<and>
    public_keys HX KC app_id store g = Ok l \<and> public_raw KC pair \<in> set l \<and>
    key_pair HX KJ KC app_id store g (public_raw KC pair) = Ok (Some pair) \<and>
    node_accepts verify S H X C (spec, tx, genesis, current, (), (), ())
      (encode_extrinsic S sz X C
        (compose_extrinsic_offline S H X C V (scheme_pair KC pair) cl nonce era genesis current spec tx))"
proof -
  have "node_accepts verify S H X C (spec, tx, genesis, current, (), (), ())
      (encode_extrinsic S sz X C
        (compose_extrinsic_offline S H X C V (scheme_pair KC q) cl nonce era genesis current spec tx))" for q
    by (rule xt_laws.node_accepts_composed [OF assms(8-10) _ _ _ refl])
      (use assms(11,12) in \<open>simp_all add: scheme_verifies_def scheme_pair_def\<close>)
  then show ?thesis using hex_laws.generated_pair_survives [OF assms(1-7), of entropy] by blast
qed

text \<open>The scheme of the example puts 32 bytes made of phrase and password into a public key, and 64 made of the
  public key and the message into a signature.\<close>

definition sample_public :: "string \<times> string option \<Rightarrow> bytes" where
  "sample_public q = fit 32 (as_bytes (fst q) @ (case snd q of None \<Rightarrow> [] | Some pw \<Rightarrow> as_bytes pw))"

definition sample_scheme :: "(string \<times> string option) crypto" where
  "sample_scheme = (sample_crypto ''sr25'')
     \<lparr>public_raw := sample_public, sign_encoded := (\<lambda>q msg. fit 64 (sample_public q @ msg))\<rparr>"

definition sample_scheme_verify :: "multi_address \<Rightarrow> multi_signature \<Rightarrow> bytes \<Rightarrow> bool" where
  "sample_scheme_verify a s m = (case a of Id public \<Rightarrow> s = Sr25519 (fit 64 (public @ m)) | _ \<Rightarrow> False)"

theorem stored_key_signs_transactions_witness:
  "\<exists>pair g store l. generate hex_ref json_ref sample_scheme [1, 2, 3, 4] 42 (sample_store (Some ''pw''), sample_fs) =
      (Ok pair, (sample_store (Some ''pw''), g)) \<and>
    local_open [''ks''] (Some ''pw'') g = (Ok store, g) \<and>
    public_keys hex_ref sample_scheme [1, 2, 3, 4] store g = Ok l \<and> public_raw sample_scheme pair \<in> set l \<and>
    key_pair hex_ref json_ref sample_scheme [1, 2, 3, 4] store g (public_raw sample_scheme pair) = Ok (Some pair) \<and>
    node_accepts sample_scheme_verify scale_ref sample_hashers xt_ref byte_vec_codec
      (100, 3, replicate 32 1, replicate 32 1, (), (), ())
      (encode_extrinsic scale_ref 200 xt_ref byte_vec_codec
        (compose_extrinsic_offline scale_ref sample_hashers xt_ref byte_vec_codec sample_conversions
          (scheme_pair sample_scheme pair) [1, 1, 1] 5 Immortal (replicate 32 1) (replicate 32 1) 100 3))"
proof -
  have opened: "opened json_ref (sample_store (Some ''pw''), sample_fs)"
    using sample_store_ok [of "Some ''pw''"] by (auto simp: opened_def sample_store_def sample_fs_def is_dir_def hm_get_def)
  have recover: "phrases_recover sample_scheme"
    by (simp add: phrases_recover_def sample_scheme_def sample_crypto_def)
  have "fit 32 x \<noteq> []" for x by (metis length_fit list.size(3) zero_neq_numeral)
  then have public: "\<forall>q. public_raw sample_scheme q \<noteq> [] \<and>
      public_from_slice sample_scheme (public_raw sample_scheme q) = Some (public_raw sample_scheme q)"
    by (simp add: sample_scheme_def sample_crypto_def sample_public_def)
  have verifies: "scheme_verifies sample_scheme sample_conversions ok_address ok_multi_signature sample_scheme_verify"
    by (simp add: scheme_verifies_def sample_scheme_def sample_conversions_def sample_scheme_verify_def sample_public_def length_fit)
  have len: "\<forall>q. length (extrinsic_body scale_ref xt_ref byte_vec_codec (compose_extrinsic_offline scale_ref sample_hashers
      xt_ref byte_vec_codec sample_conversions (scheme_pair sample_scheme q) [1, 1, 1] 5 Immortal
      (replicate 32 1) (replicate 32 1) 100 3)) < 2 ^ 32"
    by (simp add: scheme_pair_def sample_scheme_def sample_public_def sample_conversions_def length_fit extrinsic_body_def
      compose_extrinsic_offline_def Let_def new_signed_def signature_codec_def pair_codec_def xt_ref_def
      address_codec_def multi_signature_codec_def generic_extra_codec_def wrap_codec_def generic_extra_new_def
      era_codec_def scale_ref_def compact_codec_def enc_compact_def byte_vec_codec_def using_encoded_def split: prod.splits)
  have "length [1, 1, 1 :: u8] < 2 ^ 32" "ok_era Immortal" "ks_path (sample_store (Some ''pw'')) = Some [''ks'']"
      "length [1, 2, 3, 4 :: u8] = 4" "ks_password (sample_store (Some ''pw'')) = Some ''pw''"
    by (simp_all add: sample_store_def)
  with stored_key_signs_transactions [OF hex_fmt.hex_laws_axioms json_ref_strings recover opened _ _ public
      xt_fmt.xt_laws_axioms _ _ verifies len, of "[''ks'']" "[1, 2, 3, 4]" 42 200]
  show ?thesis by simp
qed

end
