(* ===== verification/Composing.thy ===== *)
theory Composing
  imports Client_Api Xt_Api
begin

text \<open>
  The macro \<^verbatim>\<open>compose_extrinsic!\<close> over an \<^verbatim>\<open>Api\<close> whose node serves the account of the signer, and what a node finds in
  the extrinsic: the lemmas that connect \<open>Client_Api\<close> (the nonce that is read) with \<open>Xt_Api\<close> (the extrinsic that is
  accepted).
\<close>

lemma compose_extrinsic_served:
  assumes "scale_laws (e_scale E)" and "hex_laws (e_hex E)" and "serves_storage E (api_client self) db"
    and "storage_map_key (e_hashers E) (e_account_id E) (api_metadata self) ''System'' ''Account''
      (into_account V (pair_public signer)) = Ok k" and "db k = Some (encode (account_codec (e_scale E)) account)"
    and "compose_call (api_metadata self) module call_name args = (Ok c :: (unit, 'args composed_call) res)"
  shows "compose_extrinsic E X immortal A V (set_signer signer self) module call_name args =
    Ok (compose_extrinsic_offline (e_scale E) (e_hashers E) X (composed_call_codec (e_scale E) A) V signer c (ai_nonce account)
      immortal (api_genesis_hash self) (api_genesis_hash self) (rv_spec_version (api_runtime_version self))
      (rv_transaction_version (api_runtime_version self)))"
  using get_nonce_served [OF assms(1-4), THEN conjunct2, rule_format, OF assms(5)] assms(6)
  by (simp add: compose_extrinsic_def set_signer_def)

text \<open>What a node must find of a signer: its address and its signatures are values of the extrinsic's types,
  and the signatures verify.\<close>

definition signer_verifies ::
    "('pub, 'psig, 'acc, 'addr, 'sig) conversions \<Rightarrow> ('addr \<Rightarrow> bool) \<Rightarrow> ('sig \<Rightarrow> bool) \<Rightarrow>
       ('addr \<Rightarrow> 'sig \<Rightarrow> bytes \<Rightarrow> bool) \<Rightarrow> ('pub, 'psig) pair \<Rightarrow> bool" where
  "signer_verifies V addr_ok sig_ok verify signer \<longleftrightarrow>
     addr_ok (address_from V (into_account V (pair_public signer))) \<and>
     (\<forall>m. sig_ok (into_signature V (pair_sign signer m)) \<and>
       verify (address_from V (into_account V (pair_public signer))) (into_signature V (pair_sign signer m)) m)"

lemma composed_call_accepted:
  assumes "xt_laws S X A era_ok addr_ok sig_ok args_ok" and "signer_verifies V addr_ok sig_ok verify signer"
    and "compose_call M module call_name args = (Ok c :: (unit, 'args composed_call) res)" and "args_ok args" and "era_ok era"
    and "xt = compose_extrinsic_offline S H X (composed_call_codec S A) V signer c nonce era genesis current spec tx"
    and "length (extrinsic_body S X (composed_call_codec S A) xt) < 2 ^ 32"
  shows "node_accepts verify S H X (composed_call_codec S A) (spec, tx, genesis, current, (), (), ())
      (encode_extrinsic S sz X (composed_call_codec S A) xt)"
    and "decode_extrinsic S X (composed_call_codec S A) (encode_extrinsic S sz X (composed_call_codec S A) xt) = Inr (xt, [])"
proof -
  note laws = composed_xt_laws [OF assms(1)]
  have "length (fst c) = 2" "snd c = args" using assms(3) by (auto simp: compose_call_Ok_iff)
  then have c: "(\<lambda>(ix, args). length ix = 2 \<and> args_ok args) c" using assms(4) by (cases c) simp
  show "node_accepts verify S H X (composed_call_codec S A) (spec, tx, genesis, current, (), (), ())
      (encode_extrinsic S sz X (composed_call_codec S A) xt)"
    by (rule xt_laws.node_accepts_composed [OF laws c assms(5) _ _ _ assms(6,7)])
      (use assms(2) in \<open>simp_all add: signer_verifies_def\<close>)
  have "ok_xt era_ok addr_ok sig_ok (\<lambda>(ix, args). length ix = 2 \<and> args_ok args) xt"
    using c assms(2,5) by (simp add: assms(6) compose_extrinsic_offline_def Let_def new_signed_def ok_xt_def ok_signature_def
        generic_extra_new_def using_encoded_def signer_verifies_def)
  from xt_laws.decode_body [OF laws this assms(7), of "[]"]
  show "decode_extrinsic S X (composed_call_codec S A) (encode_extrinsic S sz X (composed_call_codec S A) xt) = Inr (xt, [])"
    by (simp add: encode_extrinsic_eq)
qed

end
