(* ===== verification/Spec2Isabelle.thy ===== *)
theory Spec2Isabelle
  imports Node_Api Node_Events Metadata_Print Xt_Api Keystore_Threads Keystore_Tests Client_Tests Submission Map_Listing Stored_Signer Composing
begin

text \<open>
  This development models the Rust client of a Substrate node (\<^verbatim>\<open>src/\<close>, \<^verbatim>\<open>node-api\<close>,
  \<^verbatim>\<open>primitives\<close>, \<^verbatim>\<open>compose-macros\<close>, \<^verbatim>\<open>client-keystore\<close>) and proves what makes its parts correct.

  \<^bold>\<open>The program.\<close> A client connects to a node over a web socket (\<^verbatim>\<open>ws_client\<close>), fetches the genesis hash,
  the runtime version and the metadata (\<^verbatim>\<open>Api::new\<close>), and builds look-up tables from the metadata
  (\<^verbatim>\<open>metadata.rs\<close>). With the tables it computes storage keys (\<^verbatim>\<open>storage.rs\<close>), encodes calls (\<^verbatim>\<open>compose_call!\<close>),
  signs them into extrinsics (\<^verbatim>\<open>extrinsics.rs\<close>, \<^verbatim>\<open>compose_extrinsic!\<close>), submits these and waits for their status, and
  decodes the event log of a block (\<^verbatim>\<open>decoder.rs\<close>). Keys are kept in a keystore on disk and in memory
  (\<^verbatim>\<open>client-keystore\<close>).

  \<^bold>\<open>Conventions.\<close> \<open>Prelude\<close> has the outcome type \<open>res\<close>: \<open>Ok\<close>, \<open>Err\<close>, \<open>Panic\<close> (an \<^verbatim>\<open>unwrap\<close>, \<^verbatim>\<open>unimplemented!\<close>) and
  \<open>OutOfFuel\<close> (no answer yet); \<open>and_then\<close> is the operator \<^verbatim>\<open>?\<close>, \<open>for_each\<close> and \<open>for_n\<close> are loops with early
  return, \<open>st_then\<close> is \<open>and_then\<close> with a state. Integers are words of their width, a \<^verbatim>\<open>HashMap\<close> is an
  association list used through \<open>hm_get\<close>, \<open>hm_insert\<close> and \<open>hm_collect\<close>, a Rust string is a list of its bytes as characters.
  Crates are parameters, records of their functions with the laws the code relies on as locales: \<open>scale\<close> with
  \<open>scale_laws\<close> (\<^verbatim>\<open>parity-scale-codec\<close>), \<open>hashers\<close> (\<^verbatim>\<open>sp_core\<close>), \<open>hex_crate\<close> with \<open>hex_laws\<close> (\<^verbatim>\<open>hex\<close>), \<open>serde\<close> with \<open>serde_laws\<close> and \<open>json_str\<close>
  (\<^verbatim>\<open>serde_json\<close>), \<open>crypto\<close> (key schemes), \<open>ws_env\<close> (\<^verbatim>\<open>ws\<close> and the node). Each locale is interpreted: the reference codecs
  \<open>scale_ref\<close>, \<open>xt_ref\<close>, \<open>hex_ref\<close>, \<open>json_ref\<close> and \<open>serde_ref\<close> follow the documented formats byte by byte, so the examples compute real
  encodings.

  \<^bold>\<open>Theories.\<close>
  \<^item> \<open>Scale_Codec\<close>, \<open>Scale_Reference\<close>: codecs and their laws; the SCALE format.
  \<^item> \<open>Node_Types\<close>, \<open>Metadata\<close>, \<open>Storage\<close>: \<^verbatim>\<open>node-api/src/error.rs\<close>, \<^verbatim>\<open>metadata.rs\<close>, \<^verbatim>\<open>storage.rs\<close>. The three tables of calls,
    events and errors share the locale \<open>variant_lookup\<close>; \<open>metadata_wf\<close> is the invariant of the tables.
  \<^item> \<open>Metadata_Print\<close>: the functions of \<^verbatim>\<open>metadata.rs\<close> that print, as the text they write, and a reader of the overview.
  \<^item> \<open>Decoder\<close>, \<open>Wire\<close>: \<^verbatim>\<open>node-api/src/decoder.rs\<close>. \<open>Wire\<close> defines, as an inductive relation, which byte strings are
    values of a type of the registry, and proves that \<open>decode_type\<close> accepts exactly these. \<open>Node_Events\<close>: \<^verbatim>\<open>events.rs\<close>, the
    earlier event decoder, which is not part of the build any more; it agrees with \<open>Decoder\<close>. \<open>Endless\<close>: the types on which
    the recursion of \<open>decode_type\<close> never ends, as a coinductive predicate.
  \<^item> \<open>Extrinsics\<close>, \<open>Xt_Reference\<close>, \<open>Utils\<close>, \<open>Compose\<close>: \<^verbatim>\<open>primitives\<close>, \<^verbatim>\<open>src/utils.rs\<close>, \<^verbatim>\<open>compose-macros\<close>; \<open>node_accepts\<close> is what a
    node does with an extrinsic.
  \<^item> \<open>File_System\<close>, \<open>Keystore\<close>, \<open>Keystore_Machine\<close>: \<^verbatim>\<open>std::fs\<close> with faults, \<^verbatim>\<open>client-keystore/src/lib.rs\<close>, and its calls as
    a state machine with the states it reaches (\<open>reached\<close>), an invariant for every state (\<open>store_inv\<close>), and an abstract
    machine on two maps that it simulates (\<open>exec_sim\<close>). \<open>Keystore_Threads\<close>: threads that share a keystore (\<open>ks_step\<close>), in
    which invoking a method, its work under the lock and its return are steps of their own and \<^verbatim>\<open>has_keys\<close> takes the lock
    once for each key; the calls in the order in which they act are a sequential run (\<open>linear\<close>).
  \<^item> \<open>Json_Req\<close>, \<open>Ws_Client\<close>, \<open>Api\<close>: \<^verbatim>\<open>src/std/rpc/json_req.rs\<close>, \<^verbatim>\<open>rpc/mod.rs\<close>, \<^verbatim>\<open>ws_client/mod.rs\<close>, \<^verbatim>\<open>ws_client/client.rs\<close>,
    \<^verbatim>\<open>src/std/error.rs\<close> and \<^verbatim>\<open>src/std/mod.rs\<close>. \<open>watch\<close> is the abstract view of a wait for a status, \<open>notifications\<close> that of a
    subscription; the handlers are proved to implement them (\<open>thread_watch\<close>, \<open>start_subscriber_delivers\<close>).
    \<open>Ws_Threads\<close>: the thread of a connection and its caller as a step relation (\<open>thread_step\<close>) over any order of their steps; what a
    handler owes to the channel is the locale \<open>channel_handler\<close>, which all seven handlers provide.
  \<^item> \<open>Json_Text\<close>, \<open>Json_Reference\<close>: the text of JSON, with a printer and a reader. \<open>Rpc_Server\<close>: the trait \<^verbatim>\<open>RpcClient\<close> as the
    locale \<open>rpc_node\<close>, which the web socket client provides for a node that answers every request (\<open>answering_node\<close>).
  \<^item> \<open>Sample\<close>: a small runtime for the examples. \<open>Node_Api\<close>, \<open>Xt_Api\<close>, \<open>Keystore_Api\<close>, \<open>Client_Api\<close>, \<open>Client_Threads\<close>: the
    properties of the parts. \<open>Submission\<close>: the way of an extrinsic from its hex form over the request to a node that
    reads it. \<open>Map_Listing\<close>: what a client lists under the prefix of a map or the partial key of a double map, from a node with the
    locale \<open>storage_listing\<close>. \<open>Stored_Signer\<close>: the keys of the keystore as signers of extrinsics. \<open>Composing\<close>: the macro that
    composes a transaction over an \<^verbatim>\<open>Api\<close>. This theory has the property that spans all parts. \<open>Keystore_Tests\<close>, \<open>Client_Tests\<close>: the unit tests
    of the repository, run on the model.

  \<^bold>\<open>What is shown.\<close> The decoder accepts exactly the type grammar, terminates within a bound on every registry
  whose cycles consume input, and reads an event log record by record; the tables hold exactly what the metadata declares;
  storage keys are injective, their identifiers can be extracted again, and listing what is under a prefix gives the map that is stored
  there; the getters read what the node has; extrinsics survive encoding, are
  accepted by a node and carry the stored nonce, and \<^verbatim>\<open>send_extrinsic\<close> sends one text, in which a node reads the method and the
  extrinsic, and returns what comes of the answer to these; hex, account and fee values survive conversion; waiting for a status or an event
  returns the first that qualifies, in whatever order the thread and its caller take their steps; the overview of the
  metadata lists what is declared; the keystore behaves as two maps on a disk without faults, and under any
  faults, also when they change between two calls, never leaves a phrase in a file that others may read, threads that share it
  see a linearizable keystore, and
  a node accepts what a key signs that was generated before a restart. Some properties state where the code departs
  from what it means to do: types without end, compact types, enums with gaps, seeds under a password, directories listed
  as keys, phrases lost when a rewrite fails, and error responses that are swallowed, panic, or read as absent values.

  \<^bold>\<open>Bounds.\<close> \<open>decode_type\<close> recurses over metadata the node sends and takes the number of levels as fuel;
  \<open>decode_type_terminates\<close> shows that (length of the input + 1) * N levels are enough on a registry of rank below N
  whose composites, tuples and arrays alone have no cycle, and \<open>decode_type_never_returns_iff\<close> on which types no number is enough
  whatever the input: those that lead into a cycle before a byte is read. \<open>wait_loop\<close> and
  \<open>run_handler\<close> recurse over the messages of the session; \<open>OutOfFuel\<close> says that the session goes on without an answer.
  The text that goes out decides
  the session that follows (\<open>node_session\<close>). A schedule of a request has at most two steps for a message and three more (\<open>schedules_end\<close>). The reader of JSON texts takes the length
  of the text as fuel.

  \<^bold>\<open>Not modelled.\<close> Logging (output only); \<^verbatim>\<open>rpsee-client\<close> (a stub that is not part of the build) and the re-exports of
  \<^verbatim>\<open>src/lib.rs\<close>; the \<^verbatim>\<open>Debug\<close> and \<^verbatim>\<open>Display\<close> instances and the \<^verbatim>\<open>From\<close> conversions that
  attributes derive; the derived reader of \<^verbatim>\<open>ReadProof\<close>, an argument of the getters of proofs; the lines that derived decoders
  add to the text of a codec error on its way out; the handshake and the close
  protocol inside the crate \<^verbatim>\<open>ws\<close>, of which the model keeps the messages it delivers, their end, and whether it goes on after an error of a
  handler; several requests over one connection, as every request opens its own.
\<close>

section \<open>A transaction from connection to acceptance\<close>

text \<open>C2: a transaction composed through \<^verbatim>\<open>Api\<close> is accepted by the node it talks to: connect with
  \<^verbatim>\<open>new\<close>, set a signer, compose a call the metadata knows with \<^verbatim>\<open>compose_extrinsic!\<close>, and send the hex form. The
  extrinsic carries the nonce the node stores for the signer's account, the bytes of its hex form
  decode, and the signature verifies over the payload the node rebuilds from its own genesis hash and
  versions.\<close>

theorem api_transaction_is_accepted:
  fixes signer :: "('pub, 'psig) pair"
  assumes "hex_laws (e_hex E)" and "xt_laws (e_scale E) X A era_ok addr_ok sig_ok args_ok"
    and "api_new E cl = Ok (api :: ('pub, 'psig) api)"
    and "get_genesis_hash_of E cl = Ok genesis" and "get_runtime_version_of E cl = Ok version"
    and "serves_storage E cl db"
    and "storage_map_key (e_hashers E) (e_account_id E) (api_metadata api) ''System'' ''Account''
      (into_account V (pair_public signer)) = Ok k" and "db k = Some (encode (account_codec (e_scale E)) account)"
    and "compose_call (api_metadata api) module call_name args = (Ok c :: (unit, 'args composed_call) res)"
    and "args_ok args" and "era_ok immortal" and "addr_ok (address_from V (into_account V (pair_public signer)))"
    and "\<forall>m. sig_ok (into_signature V (pair_sign signer m))"
    and "\<forall>m. verify (address_from V (into_account V (pair_public signer))) (into_signature V (pair_sign signer m)) m"
    and "length (extrinsic_body (e_scale E) X (composed_call_codec (e_scale E) A)
      (compose_extrinsic_offline (e_scale E) (e_hashers E) X (composed_call_codec (e_scale E) A) V signer c
        (ai_nonce account) immortal genesis genesis (rv_spec_version version) (rv_transaction_version version))) < 2 ^ 32"
  shows "\<exists>xt bytes. compose_extrinsic E X immortal A V (set_signer signer api) module call_name args = Ok xt \<and>
    x_function xt = c \<and> map_option (\<lambda>(_, _, extra). ge_nonce extra) (x_signature xt) = Some (ai_nonce account) \<and>
    vec_from_hex (e_hex E) (xt_hex_encode (e_hex E) (e_scale E) sz X (composed_call_codec (e_scale E) A) xt) = Inr bytes \<and>
    node_accepts verify (e_scale E) (e_hashers E) X (composed_call_codec (e_scale E) A)
      (rv_spec_version version, rv_transaction_version version, genesis, genesis, (), (), ()) bytes"
proof -
  let ?C = "composed_call_codec (e_scale E) A"
  from assms(3-5) have api: "api_genesis_hash api = genesis" "api_runtime_version api = version" "api_client api = cl"
    by (auto simp: api_new_def)
  from assms(6) have "serves_storage E (api_client api) db" by (simp add: api)
  note served = this
  define xt where "xt = compose_extrinsic_offline (e_scale E) (e_hashers E) X ?C V signer c (ai_nonce account) immortal
    genesis genesis (rv_spec_version version) (rv_transaction_version version)"
  have composed: "compose_extrinsic E X immortal A V (set_signer signer api) module call_name args = Ok xt"
    using compose_extrinsic_served [OF xt_laws.axioms(1) [OF assms(2)] assms(1) served assms(7-9), of X immortal A]
    by (simp add: xt_def api)
  have "signer_verifies V addr_ok sig_ok verify signer" using assms(12-14) by (simp add: signer_verifies_def)
  from composed_call_accepted(1) [OF assms(2) this assms(9-11) xt_def, of sz]
  have "node_accepts verify (e_scale E) (e_hashers E) X ?C
      (rv_spec_version version, rv_transaction_version version, genesis, genesis, (), (), ())
      (encode_extrinsic (e_scale E) sz X ?C xt)"
    using assms(15) unfolding xt_def by blast
  moreover have "x_function xt = c" "map_option (\<lambda>(_, _, extra). ge_nonce extra) (x_signature xt) = Some (ai_nonce account)"
    by (simp_all add: xt_def compose_extrinsic_offline_def Let_def new_signed_def generic_extra_new_def)
  ultimately show ?thesis
    using composed hex_laws.vec_from_hex_encode(1) [OF assms(1)] by (simp add: xt_hex_encode_def)
qed

definition sample_account_info :: account where
  "sample_account_info = \<lparr>ai_nonce = 5, ai_consumers = 0, ai_providers = 1, ai_sufficients = 0,
     ai_data = \<lparr>ad_free = 1000, ad_reserved = 0, ad_misc_frozen = 0, ad_fee_frozen = 0\<rparr>\<rparr>"

definition sample_chain_db :: "(storage_key \<times> bytes) list" where
  "sample_chain_db =
     [(key_prefix sample_hashers ''System'' ''Account'' @
         key_hash sample_hashers (array_codec 32) (replicate 32 7) Blake2_128Concat,
       encode (account_codec scale_ref) sample_account_info)]"

theorem api_transaction_is_accepted_witness:
  "\<exists>api xt bytes. api_new sample_env (sample_node sample_chain_db) = Ok api \<and>
    compose_extrinsic sample_env xt_ref Immortal byte_vec_codec sample_conversions (set_signer sample_pair api)
      ''System'' ''remark'' [9, 9] = Ok xt \<and>
    vec_from_hex hex_ref (xt_hex_encode hex_ref scale_ref 200 xt_ref (composed_call_codec scale_ref byte_vec_codec) xt) = Inr bytes \<and>
    node_accepts sample_verify scale_ref sample_hashers xt_ref (composed_call_codec scale_ref byte_vec_codec)
      (100, 3, replicate 32 1, replicate 32 1, (), (), ()) bytes"
proof -
  define api :: "(bytes, bytes) api" where "api =
    \<lparr>api_signer = None, api_genesis_hash = replicate 32 1, api_metadata = sample_metadata,
     api_runtime_version = \<lparr>rv_spec_version = 100, rv_transaction_version = 3\<rparr>, api_client = sample_node sample_chain_db\<rparr>"
  have new: "api_new sample_env (sample_node sample_chain_db) = Ok api"
    using sample_node_new by (simp add: api_def)
  have laws: "hex_laws (e_hex sample_env)"
    "xt_laws (e_scale sample_env) xt_ref byte_vec_codec ok_era ok_address ok_multi_signature (\<lambda>c. length c < 2 ^ 32)"
    using hex_fmt.hex_laws_axioms xt_fmt.xt_laws_axioms by (simp_all add: sample_env_def)
  have key: "storage_map_key (e_hashers sample_env) (e_account_id sample_env) (api_metadata api) ''System'' ''Account''
      (into_account sample_conversions (pair_public sample_pair)) =
      Ok (key_prefix sample_hashers ''System'' ''Account'' @
        key_hash sample_hashers (array_codec 32) (replicate 32 7) Blake2_128Concat)"
    by (simp add: storage_map_key_def api_def sample_env_def sample_lookups get_map_def sample_account_def
        hasher_at_def storage_map_bytes_def key_prefix_def sample_conversions_def sample_pair_def)
  have stored: "map_of sample_chain_db (key_prefix sample_hashers ''System'' ''Account'' @
        key_hash sample_hashers (array_codec 32) (replicate 32 7) Blake2_128Concat) =
      Some (encode (account_codec (e_scale sample_env)) sample_account_info)"
    by (simp add: sample_chain_db_def sample_env_def)
  have cl: "compose_call (api_metadata api) ''System'' ''remark'' [9, 9 :: u8] = (Ok ([0, 1], [9, 9]) :: (unit, bytes composed_call) res)"
    by (simp add: compose_call_def api_def sample_lookups sample_system_meta_def hm_get_def unwrap_def)
  have addr: "ok_address (address_from sample_conversions (into_account sample_conversions (pair_public sample_pair)))"
    by (simp add: sample_conversions_def sample_pair_def)
  have sig: "\<forall>m. ok_multi_signature (into_signature sample_conversions (pair_sign sample_pair m))"
    by (simp add: sample_conversions_def sample_pair_def length_fit)
  have verify: "\<forall>m. sample_verify (address_from sample_conversions (into_account sample_conversions (pair_public sample_pair)))
      (into_signature sample_conversions (pair_sign sample_pair m)) m"
    by (simp add: sample_conversions_def sample_pair_def sample_verify_def)
  have len: "length (extrinsic_body scale_ref xt_ref (composed_call_codec scale_ref byte_vec_codec)
      (compose_extrinsic_offline scale_ref sample_hashers xt_ref (composed_call_codec scale_ref byte_vec_codec)
        sample_conversions sample_pair ([0, 1], [9, 9]) 5 Immortal (replicate 32 1) (replicate 32 1) 100 3)) < 2 ^ 32"
    by (simp add: sample_conversions_def sample_pair_def length_fit extrinsic_body_def composed_call_codec_def
        compose_extrinsic_offline_def Let_def new_signed_def signature_codec_def pair_codec_def xt_ref_def
        address_codec_def multi_signature_codec_def generic_extra_codec_def wrap_codec_def generic_extra_new_def
        era_codec_def scale_ref_def compact_codec_def enc_compact_def byte_vec_codec_def using_encoded_def)
  have "\<exists>xt bytes. compose_extrinsic sample_env xt_ref Immortal byte_vec_codec sample_conversions (set_signer sample_pair api)
      ''System'' ''remark'' [9, 9] = Ok xt \<and>
    vec_from_hex hex_ref (xt_hex_encode hex_ref scale_ref 200 xt_ref (composed_call_codec scale_ref byte_vec_codec) xt) = Inr bytes \<and>
    node_accepts sample_verify scale_ref sample_hashers xt_ref (composed_call_codec scale_ref byte_vec_codec)
      (100, 3, replicate 32 1, replicate 32 1, (), (), ()) bytes"
    using api_transaction_is_accepted [where V = sample_conversions and signer = sample_pair and db = "map_of sample_chain_db"
        and E = sample_env and cl = "sample_node sample_chain_db" and account = sample_account_info and immortal = Immortal
        and verify = sample_verify and sz = 200, OF laws new sample_node_answers(1,3) sample_serves key stored cl
        _ _ addr sig verify] len
    by (simp add: sample_env_def sample_account_info_def) blast
  with new show ?thesis by blast
qed

end
